(* ===== verification/Awm_Prelude.thy ===== *)
theory Awm_Prelude
  imports Main "HOL-Library.Word" "HOL-Library.Multiset"
begin

text \<open>
  Shared vocabulary of the development: the errors of the Go code, the fragment of SQL that
  the statements of \<^verbatim>\<open>internal/store/postgres.go\<close> use (tables as lists of rows,
  \<open>UPDATE\<close>, \<open>INSERT\<close> under a uniqueness constraint, \<open>ORDER BY\<close>,
  \<open>LIMIT\<close>/\<open>OFFSET\<close>), and the contract of an update that leaves the key of a row alone.
\<close>

named_theorems sql_simps \<open>rewrite rules for the SQL combinators\<close>
named_theorems row_defs \<open>definitions of the row updates of the UPDATE statements\<close>

section \<open>Errors\<close>

text \<open>
  The \<open>error\<close> values the code distinguishes. The first five are the sentinels of
  \<^verbatim>\<open>database/sql\<close> and \<^verbatim>\<open>internal/store/store.go\<close>; \<open>DriverError\<close> is any failure
  of the connection, \<open>ConstraintError\<close> a violated constraint of the schema. \<open>Wrap\<close> is
  \<open>fmt.Errorf\<close> with the verb \<open>%w\<close>; \<open>ErrorText\<close> is \<open>fmt.Errorf\<close> without it.
\<close>

datatype go_error =
    ErrNoRows
  | ErrConcurrencyConflict
  | ErrInstanceNotFound
  | ErrTaskNotFound
  | ErrTaskNotClaimable
  | DriverError
  | ConstraintError string
  | EncodingError
  | ErrorText string
  | Wrap string go_error

text \<open>\<open>errors.Is\<close> looks through wrappers.\<close>

fun errors_Is :: "go_error \<Rightarrow> go_error \<Rightarrow> bool" where
  "errors_Is (Wrap m e) t = (Wrap m e = t \<or> errors_Is e t)"
| "errors_Is e t = (e = t)"

section \<open>Text\<close>

text \<open>\<open>fmt.Sprintf\<close> with \<open>%d\<close> of a natural number, and \<open>strings.Join\<close>.\<close>

fun decimal :: "nat \<Rightarrow> string" where
  "decimal n = (if n < 10 then [char_of (48 + n)] else decimal (n div 10) @ [char_of (48 + n mod 10)])"

declare decimal.simps [simp del]

fun strings_Join :: "string list \<Rightarrow> string \<Rightarrow> string" where
  "strings_Join [] sep = []"
| "strings_Join [s] sep = s"
| "strings_Join (s # ss) sep = s @ sep @ strings_Join ss sep"

section \<open>SQL combinators\<close>

text \<open>
  A table is the list of its rows. \<open>UPDATE t SET f WHERE P\<close> rewrites the matching rows in
  place; the driver reports how many there were.
\<close>

definition sql_update :: "('r \<Rightarrow> bool) \<Rightarrow> ('r \<Rightarrow> 'r) \<Rightarrow> 'r list \<Rightarrow> 'r list" where
  "sql_update P f rows = map (\<lambda>r. if P r then f r else r) rows"

definition rows_affected :: "('r \<Rightarrow> bool) \<Rightarrow> 'r list \<Rightarrow> nat" where
  "rows_affected P rows = length (filter P rows)"

definition sql_delete :: "('r \<Rightarrow> bool) \<Rightarrow> 'r list \<Rightarrow> 'r list" where
  "sql_delete P rows = filter (\<lambda>r. \<not> P r) rows"

text \<open>\<open>INSERT\<close> under a \<open>PRIMARY KEY\<close> or \<open>UNIQUE\<close> constraint on \<open>key\<close>.\<close>

definition sql_insert :: "('r \<Rightarrow> 'k) \<Rightarrow> string \<Rightarrow> 'r \<Rightarrow> 'r list \<Rightarrow> go_error + 'r list" where
  "sql_insert key constraint r rows =
     (if key r \<in> set (map key rows) then Inl (ConstraintError constraint)
      else Inr (rows @ [r]))"

text \<open>
  \<open>ORDER BY c ASC\<close> and \<open>ORDER BY c DESC\<close>. SQL leaves the order of ties open; the stable
  sort of the table's order is one of the orders it allows.
\<close>

definition order_by_asc :: "('r \<Rightarrow> int) \<Rightarrow> 'r list \<Rightarrow> 'r list" where
  "order_by_asc c rows = sort_key c rows"

definition order_by_desc :: "('r \<Rightarrow> int) \<Rightarrow> 'r list \<Rightarrow> 'r list" where
  "order_by_desc c rows = sort_key (\<lambda>r. - c r) rows"

text \<open>\<open>LIMIT l OFFSET o\<close>; PostgreSQL rejects negative values.\<close>

definition limit_offset :: "int \<Rightarrow> int \<Rightarrow> 'r list \<Rightarrow> go_error + 'r list" where
  "limit_offset l off rows =
     (if l < 0 \<or> off < 0 then Inl (ErrorText ''LIMIT must not be negative'')
      else Inr (take (nat l) (drop (nat off) rows)))"

text \<open>The first row of a result set, as \<open>QueryRow\<close> delivers it.\<close>

definition first_row :: "'r list \<Rightarrow> go_error + 'r" where
  "first_row rows = (case rows of [] \<Rightarrow> Inl ErrNoRows | r # _ \<Rightarrow> Inr r)"

text \<open>The row with a given key: the abstraction of a keyed table to a finite map.\<close>

definition row_at :: "('r \<Rightarrow> 'k) \<Rightarrow> 'r list \<Rightarrow> 'k \<Rightarrow> 'r option" where
  "row_at key rows k = find (\<lambda>r. key r = k) rows"

definition unique_key :: "('r \<Rightarrow> 'k) \<Rightarrow> 'r list \<Rightarrow> bool" where
  "unique_key key rows = distinct (map key rows)"

subsection \<open>Laws of the combinators\<close>

lemma sql_update_length [simp]: "length (sql_update P f rows) = length rows"
  by (simp add: sql_update_def)

lemma sql_update_Nil [simp]: "sql_update P f [] = []"
  by (simp add: sql_update_def)

lemma sql_update_Cons [simp]:
  "sql_update P f (r # rows) = (if P r then f r else r) # sql_update P f rows"
  by (simp add: sql_update_def)

lemma sql_update_append [simp]:
  "sql_update P f (xs @ ys) = sql_update P f xs @ sql_update P f ys"
  by (simp add: sql_update_def)

lemma set_sql_update:
  "set (sql_update P f rows) = (\<lambda>r. if P r then f r else r) ` set rows"
  by (simp add: sql_update_def)

lemma sql_update_none: "(\<And>r. r \<in> set rows \<Longrightarrow> \<not> P r) \<Longrightarrow> sql_update P f rows = rows"
  by (induction rows) auto

lemma filter_sql_update_frame:
  assumes "\<And>r. r \<in> set rows \<Longrightarrow> P r \<Longrightarrow> Q (f r) = Q r"
    and "\<And>r. r \<in> set rows \<Longrightarrow> Q r \<Longrightarrow> \<not> P r"
  shows "filter Q (sql_update P f rows) = filter Q rows"
  using assms by (induction rows) auto

lemma map_sql_update_same:
  "(\<And>r. P r \<Longrightarrow> g (f r) = g r) \<Longrightarrow> map g (sql_update P f rows) = map g rows"
  by (induction rows) auto

lemma rows_affected_zero_iff: "rows_affected P rows = 0 \<longleftrightarrow> (\<forall>r \<in> set rows. \<not> P r)"
  by (simp add: rows_affected_def filter_empty_conv)

lemma rows_affected_simps [simp]:
  "rows_affected P [] = 0"
  "rows_affected P (r # rows) = (if P r then Suc (rows_affected P rows) else rows_affected P rows)"
  "rows_affected P (xs @ ys) = rows_affected P xs + rows_affected P ys"
  by (simp_all add: rows_affected_def)

lemma mset_order_by:
  "mset (order_by_asc c rows) = mset rows" "mset (order_by_desc c rows) = mset rows"
  by (simp_all add: order_by_asc_def order_by_desc_def)

lemma set_order_by [simp]:
  "set (order_by_asc c rows) = set rows" "set (order_by_desc c rows) = set rows"
  by (simp_all add: order_by_asc_def order_by_desc_def)

lemma length_order_by [simp]:
  "length (order_by_asc c rows) = length rows" "length (order_by_desc c rows) = length rows"
  by (simp_all add: order_by_asc_def order_by_desc_def)

lemma sorted_order_by_asc: "sorted (map c (order_by_asc c rows))"
  by (simp add: order_by_asc_def)

lemma sorted_order_by_desc: "sorted_wrt (\<ge>) (map c (order_by_desc c rows))"
proof -
  have "sorted (map (\<lambda>r. - c r) (sort_key (\<lambda>r. - c r) rows))"
    by (rule sorted_sort_key)
  then have "sorted_wrt (\<lambda>x y. - c x \<le> - c y) (sort_key (\<lambda>r. - c r) rows)"
    by (simp add: sorted_wrt_map)
  then show ?thesis
    by (simp add: order_by_desc_def sorted_wrt_map)
qed

lemma order_by_asc_sorted: "sorted (map c rows) \<Longrightarrow> order_by_asc c rows = rows"
  by (simp add: order_by_asc_def sort_key_id_if_sorted)

lemma limit_offset_subset:
  "limit_offset l off rows = Inr out \<Longrightarrow> set out \<subseteq> set rows \<and> length out \<le> nat l"
  by (auto simp: limit_offset_def split: if_splits dest: in_set_takeD in_set_dropD)

lemma row_at_Nil [simp]: "row_at key [] k = None"
  by (simp add: row_at_def)

lemma row_at_Cons [simp]:
  "row_at key (r # rows) k = (if key r = k then Some r else row_at key rows k)"
  by (simp add: row_at_def)

lemma row_at_SomeD: "row_at key rows k = Some r \<Longrightarrow> r \<in> set rows \<and> key r = k"
  by (auto simp: row_at_def find_Some_iff)

lemma row_at_None_iff: "row_at key rows k = None \<longleftrightarrow> k \<notin> key ` set rows"
  by (auto simp: row_at_def find_None_iff)

lemma row_at_append:
  "row_at key (xs @ ys) k = (case row_at key xs k of None \<Rightarrow> row_at key ys k | Some r \<Rightarrow> Some r)"
  by (induction xs) auto

lemma filter_key_row_at:
  "unique_key key rows \<Longrightarrow>
   filter (\<lambda>r. key r = k) rows = (case row_at key rows k of None \<Rightarrow> [] | Some r \<Rightarrow> [r])"
proof (induction rows)
  case Nil
  then show ?case by simp
next
  case (Cons r rows)
  then have u: "unique_key key rows" and r: "key r \<notin> key ` set rows"
    by (auto simp: unique_key_def)
  from r have "row_at key rows (key r) = None" by (simp add: row_at_None_iff)
  with Cons.IH [OF u] show ?case by (cases "key r = k") auto
qed

lemma first_row_key:
  "first_row (filter (\<lambda>r. key r = k) rows) =
   (case row_at key rows k of None \<Rightarrow> Inl ErrNoRows | Some r \<Rightarrow> Inr r)"
  by (induction rows) (auto simp: first_row_def)

lemma row_at_unique: "unique_key key rows \<Longrightarrow> r \<in> set rows \<Longrightarrow> row_at key rows (key r) = Some r"
  by (induction rows) (auto simp: unique_key_def)

lemma rows_affected_key:
  "unique_key key rows \<Longrightarrow>
   rows_affected (\<lambda>r. key r = k \<and> Q r) rows =
     (case row_at key rows k of None \<Rightarrow> 0 | Some r \<Rightarrow> if Q r then 1 else 0)"
proof (induction rows)
  case Nil
  then show ?case by simp
next
  case (Cons r rows)
  then have u: "unique_key key rows" and r: "key r \<notin> key ` set rows"
    by (auto simp: unique_key_def)
  show ?case
  proof (cases "key r = k")
    case True
    with r have "\<forall>r' \<in> set rows. \<not> (key r' = k \<and> Q r')" by (metis image_eqI)
    then have "rows_affected (\<lambda>r. key r = k \<and> Q r) rows = 0"
      by (simp only: rows_affected_zero_iff)
    with True show ?thesis by simp
  next
    case False
    with Cons.IH [OF u] show ?thesis by simp
  qed
qed

lemma sql_insert_Inr:
  "sql_insert key c r rows = Inr rows' \<longleftrightarrow> key r \<notin> key ` set rows \<and> rows' = rows @ [r]"
  by (auto simp: sql_insert_def)

lemma sql_insert_unique:
  "sql_insert key c r rows = Inr rows' \<Longrightarrow> unique_key key rows \<Longrightarrow> unique_key key rows'"
  by (auto simp: sql_insert_Inr unique_key_def)

lemma sql_delete_unique: "unique_key key rows \<Longrightarrow> unique_key key (sql_delete P rows)"
  by (simp add: sql_delete_def unique_key_def distinct_map_filter)

lemmas sql_laws = set_sql_update rows_affected_zero_iff sql_insert_Inr

text \<open>
  The loop \<open>for rows.Next() { x, err := scan(row); if err != nil { return nil, err }; ... }\<close>:
  every row is converted, the first failure ends it.
\<close>

fun scan_rows :: "('r \<Rightarrow> go_error + 'a) \<Rightarrow> 'r list \<Rightarrow> go_error + 'a list" where
  "scan_rows f [] = Inr []"
| "scan_rows f (r # rs) =
     (case f r of
        Inl e \<Rightarrow> Inl e
      | Inr a \<Rightarrow> (case scan_rows f rs of Inl e \<Rightarrow> Inl e | Inr xs \<Rightarrow> Inr (a # xs)))"

lemma scan_rows_ok: "(\<And>r. r \<in> set rows \<Longrightarrow> f r = Inr (g r)) \<Longrightarrow> scan_rows f rows = Inr (map g rows)"
  by (induction rows) auto

lemma scan_rows_length: "scan_rows f rows = Inr xs \<Longrightarrow> length xs = length rows"
  by (induction rows arbitrary: xs) (auto split: sum.splits)

lemma scan_rows_map:
  assumes "\<And>r a. f r = Inr a \<Longrightarrow> g a = h r"
  shows "scan_rows f rows = Inr xs \<Longrightarrow> map g xs = map h rows"
  using assms by (induction rows arbitrary: xs) (auto split: sum.splits)

section \<open>Tables that only grow\<close>

text \<open>
  \<open>grows le xs ys\<close>: the rows of \<open>xs\<close> are still there, in their places and changed along
  \<open>le\<close> at most, and new rows may follow.
\<close>

definition grows :: "('r \<Rightarrow> 'r \<Rightarrow> bool) \<Rightarrow> 'r list \<Rightarrow> 'r list \<Rightarrow> bool" where
  "grows le xs ys \<longleftrightarrow> length xs \<le> length ys \<and> list_all2 le xs (take (length xs) ys)"

lemma grows_iff:
  "grows le xs ys \<longleftrightarrow> length xs \<le> length ys \<and> (\<forall>i < length xs. le (xs ! i) (ys ! i))"
  by (auto simp: grows_def list_all2_conv_all_nth)

lemma grows_refl: "(\<And>r. le r r) \<Longrightarrow> grows le xs xs"
  by (simp add: grows_iff)

lemma grows_trans:
  "(\<And>x y z. le x y \<Longrightarrow> le y z \<Longrightarrow> le x z) \<Longrightarrow> grows le xs ys \<Longrightarrow> grows le ys zs \<Longrightarrow> grows le xs zs"
  unfolding grows_iff by (meson order.strict_trans2 order.trans)

lemma grows_append: "(\<And>r. le r r) \<Longrightarrow> grows le xs (xs @ ys)"
  by (simp add: grows_def list.rel_refl)

lemma grows_insert: "(\<And>r. le r r) \<Longrightarrow> sql_insert key c r xs = Inr ys \<Longrightarrow> grows le xs ys"
  by (auto simp: sql_insert_Inr intro: grows_append)

lemma grows_update: "(\<And>r. le r r) \<Longrightarrow> (\<And>r. le r (f r)) \<Longrightarrow> grows le xs (sql_update P f xs)"
  by (simp add: grows_def sql_update_def list_all2_conv_all_nth)

lemma grows_nth: "grows le xs ys \<Longrightarrow> i < length xs \<Longrightarrow> le (xs ! i) (ys ! i)"
  by (auto simp: grows_def list_all2_conv_all_nth)

lemma grows_member: "grows le xs ys \<Longrightarrow> x \<in> set xs \<Longrightarrow> \<exists>y \<in> set ys. le x y"
  by (metis grows_nth grows_def in_set_conv_nth order_less_le_trans)

lemma grows_eq_prefix: "grows (=) xs ys \<longleftrightarrow> take (length xs) ys = xs"
  by (auto simp: grows_def list.rel_eq dest: arg_cong [of _ _ length])

lemma grows_row_at:
  assumes "grows le xs ys" and "row_at key xs k = Some x" and "unique_key key ys"
    and "\<And>x y. le x y \<Longrightarrow> key y = key x"
  obtains y where "row_at key ys k = Some y" and "le x y"
proof -
  from assms(2) have "x \<in> set xs" "key x = k" by (auto dest: row_at_SomeD)
  with assms(1) obtain y where "y \<in> set ys" "le x y" by (metis grows_member)
  with assms(3,4) \<open>key x = k\<close> show thesis by (metis row_at_unique that)
qed

section \<open>Updates that keep the key\<close>

text \<open>
  Every \<open>UPDATE\<close> statement of the store leaves the primary key of the rows it touches
  alone. That contract gives uniqueness of keys after the update and the value of a look-up:
  the update acts on the finite map of the table pointwise.
\<close>

locale key_update =
  fixes key :: "'r \<Rightarrow> 'k" and upd :: "'r \<Rightarrow> 'r"
  assumes keeps_key: "key (upd r) = key r"
begin

lemma keys_update: "map key (sql_update P upd rows) = map key rows"
  by (rule map_sql_update_same) (rule keeps_key)

lemma unique_update: "unique_key key rows \<Longrightarrow> unique_key key (sql_update P upd rows)"
  by (simp add: unique_key_def keys_update)

lemma key_set_update: "key ` set (sql_update P upd rows) = key ` set rows"
  by (metis keys_update list.set_map)

lemma row_at_update:
  "row_at key (sql_update P upd rows) k =
   map_option (\<lambda>r. if P r then upd r else r) (row_at key rows k)"
  by (induction rows) (auto simp: keeps_key)

lemma row_at_update_key:
  "row_at key (sql_update (\<lambda>r. key r = k \<and> Q r) upd rows) k' =
   (if k' = k then map_option (\<lambda>r. if Q r then upd r else r) (row_at key rows k)
    else row_at key rows k')"
proof -
  have upd: "row_at key (sql_update (\<lambda>r. key r = k \<and> Q r) upd rows) k' =
    map_option (\<lambda>r. if key r = k \<and> Q r then upd r else r) (row_at key rows k')"
    by (rule row_at_update)
  show ?thesis
  proof (cases "k' = k")
    case True
    have "map_option (\<lambda>r. if key r = k \<and> Q r then upd r else r) (row_at key rows k') =
      map_option (\<lambda>r. if Q r then upd r else r) (row_at key rows k')"
      by (rule option.map_cong) (use True in \<open>auto dest!: row_at_SomeD\<close>)
    with True show ?thesis unfolding upd by simp
  next
    case False
    have "map_option (\<lambda>r. if key r = k \<and> Q r then upd r else r) (row_at key rows k') =
      map_option (\<lambda>r. r) (row_at key rows k')"
      by (rule option.map_cong) (use False in \<open>auto dest!: row_at_SomeD\<close>)
    with False show ?thesis unfolding upd by (simp add: option.map_ident)
  qed
qed

end

end
