(* ===== verification/Go_Float.thy ===== *)
theory Go_Float
  imports Complex_Main
begin

text \<open>
  The part of Go's \<open>float64\<close> that the code reaches: rounding a rational to the nearest
  double (ties to even, subnormals included), which is what \<open>strconv.ParseFloat\<close>, the
  product and the quotient of two doubles do. \<open>None\<close> is a result beyond the largest
  double. Only non-negative values occur in the code.
\<close>

definition round_half_even :: "rat \<Rightarrow> int" where
  "round_half_even q =
     (let n = \<lfloor>q\<rfloor>; r = q - of_int n
      in if r < 1 / 2 then n else if r > 1 / 2 then n + 1
         else if even n then n else n + 1)"

definition two_pow :: "int \<Rightarrow> rat" where
  "two_pow e = (if e < 0 then 1 / 2 ^ nat (- e) else 2 ^ nat e)"

text \<open>The number of binary digits of a non-negative integer.\<close>

function bit_length :: "int \<Rightarrow> int" where
  "bit_length n = (if n \<le> 0 then 0 else bit_length (n div 2) + 1)"
  by pat_completeness auto
termination
  by (relation "measure nat") auto

declare bit_length.simps [simp del]

text \<open>The exponent \<open>e\<close> with \<open>2 ^ e \<le> q < 2 ^ (e + 1)\<close> for a positive \<open>q\<close>.\<close>

definition binary_exponent :: "rat \<Rightarrow> int" where
  "binary_exponent q =
     (case quotient_of q of (a, b) \<Rightarrow>
        let e = bit_length a - bit_length b
        in if q < two_pow e then e - 1 else e)"

text \<open>
  The significand is scaled to 53 bits (fewer for a subnormal, whose exponent is \<open>- 1074\<close>);
  the largest double is \<open>(2 ^ 53 - 1) * 2 ^ 971\<close>.
\<close>

definition float64 :: "rat \<Rightarrow> rat option" where
  "float64 q =
     (if q \<le> 0 then Some 0
      else let e = max (binary_exponent q - 52) (- 1074);
               m = round_half_even (q / two_pow e)
           in if e > 971 \<or> (e = 971 \<and> m \<ge> 9007199254740992) then None
              else Some (of_int m * two_pow e))"

text \<open>Integers below \<open>2 ^ 53\<close> are doubles.\<close>

lemma bit_length_0 [simp]: "bit_length 0 = 0"
  by (simp add: bit_length.simps)

lemma bit_length_1 [simp]: "bit_length 1 = 1"
  by (simp add: bit_length.simps [of 1])

lemma bit_length_bounds:
  "0 < n \<Longrightarrow> \<exists>b. bit_length n = int b + 1 \<and> 2 ^ b \<le> n \<and> n < 2 ^ (b + 1)"
proof (induction n rule: bit_length.induct)
  case (1 n)
  have unfold: "bit_length n = bit_length (n div 2) + 1"
    using "1.prems" by (simp add: bit_length.simps [of n])
  show ?case
  proof (cases "0 < n div 2")
    case False
    with "1.prems" have "n = 1" by arith
    then show ?thesis by (intro exI [of _ 0]) simp
  next
    case True
    with "1.IH" "1.prems" obtain b where
      IH: "bit_length (n div 2) = int b + 1" "2 ^ b \<le> n div 2" "n div 2 < 2 ^ (b + 1)"
      by auto
    from IH(2,3) have "2 ^ Suc b \<le> n" "n < 2 ^ (Suc b + 1)" by simp_all
    with IH(1) show ?thesis by (intro exI [of _ "Suc b"]) (simp add: unfold)
  qed
qed

lemma round_half_even_int [simp]: "round_half_even (of_int z) = z"
  by (simp add: round_half_even_def)

lemma quotient_of_of_int: "quotient_of (of_int z) = (z, 1)"
  using quotient_of_int [of z] by (simp add: Rat.of_int_def)

lemma two_pow_pos: "0 < two_pow e"
  by (simp add: two_pow_def)

lemma two_pow_nat [simp]: "two_pow (int n) = 2 ^ n"
  by (simp add: two_pow_def)

lemma float64_of_int:
  assumes "0 \<le> n" and "n < 2 ^ 53"
  shows "float64 (of_int n) = Some (of_int n)"
proof (cases "n = 0")
  case True
  then show ?thesis by (simp add: float64_def)
next
  case False
  with assms(1) have pos: "0 < n" by simp
  then obtain b where len: "bit_length n = int b + 1" and ge: "2 ^ b \<le> n"
    using bit_length_bounds by blast
  have "(2::int) ^ b < 2 ^ 53" using ge assms(2) by (rule le_less_trans)
  then have b: "b < 53" by (simp only: power_strict_increasing_iff)
  from ge have "(of_int (2 ^ b) :: rat) \<le> of_int n" by (simp only: of_int_le_iff)
  then have exponent: "binary_exponent (of_int n) = int b"
    by (simp add: binary_exponent_def quotient_of_of_int len Let_def)
  define k where "k = 52 - b"
  have e: "max (int b - 52) (- 1074) = - int k" using b by (simp add: k_def)
  have scaled: "(of_int n :: rat) / two_pow (- int k) = of_int (n * 2 ^ k)"
    by (simp add: two_pow_def)
  have unscaled: "of_int (n * 2 ^ k) * two_pow (- int k) = of_int n"
    by (simp add: two_pow_def)
  from pos show ?thesis
    by (simp add: float64_def exponent e scaled unscaled Let_def del: of_int_mult of_int_power)
qed

end
