(* ===== verification/Go_Json.thy ===== *)
theory Go_Json
  imports Awm_Prelude Go_Float
begin

text \<open>
  The dynamic values (\<open>interface{}\<close>) the program passes around as task input and output,
  event payloads and instance state, and \<open>encoding/json\<close> on them. A JSONB column holds the
  encoded value. A Go map is unordered; the list of pairs is one enumeration of it.
\<close>

datatype json =
    JNull
  | JBool bool
  | JNum rat
  | JStr string
  | JArr "json list"
  | JObj "(string \<times> json) list"
  | JUnsupported \<comment> \<open>a Go value \<open>json.Marshal\<close> rejects: NaN, infinities, \<open>map[interface{}]interface{}\<close>\<close>

text \<open>\<open>map[string]interface{}\<close>; \<open>None\<close> is the nil map.\<close>

type_synonym gomap = "(string \<times> json) list option"

fun marshalable :: "json \<Rightarrow> bool" where
  "marshalable (JArr xs) = list_all marshalable xs"
| "marshalable (JObj kvs) = list_all (\<lambda>kv. marshalable (snd kv)) kvs"
| "marshalable JUnsupported = False"
| "marshalable _ = True"

definition json_of_map :: "gomap \<Rightarrow> json" where
  "json_of_map m = (case m of None \<Rightarrow> JNull | Some kvs \<Rightarrow> JObj kvs)"

text \<open>\<open>json.Marshal\<close> of a map: the nil map becomes \<open>null\<close>.\<close>

definition json_Marshal :: "gomap \<Rightarrow> go_error + json" where
  "json_Marshal m = (if marshalable (json_of_map m) then Inr (json_of_map m) else Inl EncodingError)"

text \<open>
  \<open>json.Unmarshal\<close> into an \<open>interface{}\<close> reads every number as a \<open>float64\<close>; a number
  beyond the range of doubles is an error.
\<close>

definition signed_float64 :: "rat \<Rightarrow> rat option" where
  "signed_float64 q = (if q < 0 then map_option uminus (float64 (- q)) else float64 q)"

fun decode_value :: "json \<Rightarrow> json option" where
  "decode_value (JNum q) = map_option JNum (signed_float64 q)"
| "decode_value (JArr xs) = map_option JArr (those (map decode_value xs))"
| "decode_value (JObj kvs) =
     map_option JObj (those (map (\<lambda>kv. map_option (Pair (fst kv)) (decode_value (snd kv))) kvs))"
| "decode_value j = Some j"

text \<open>
  \<open>json.Unmarshal\<close> into a variable of type \<open>map[string]interface{}\<close>: \<open>null\<close> gives the nil
  map, an object its map, anything else is a type error.
\<close>

definition json_Unmarshal :: "json \<Rightarrow> go_error + gomap" where
  "json_Unmarshal j =
     (case j of
        JNull \<Rightarrow> Inr None
      | JObj kvs \<Rightarrow>
          (case decode_value (JObj kvs) of
             Some (JObj kvs') \<Rightarrow> Inr (Some kvs')
           | _ \<Rightarrow> Inl EncodingError)
      | _ \<Rightarrow> Inl EncodingError)"

text \<open>Values whose numbers are doubles already, so that a trip through JSON is lossless.\<close>

fun double_exact :: "json \<Rightarrow> bool" where
  "double_exact (JNum q) = (signed_float64 q = Some q)"
| "double_exact (JArr xs) = list_all double_exact xs"
| "double_exact (JObj kvs) = list_all (\<lambda>kv. double_exact (snd kv)) kvs"
| "double_exact _ = True"

lemma those_map_Some: "(\<And>x. x \<in> set xs \<Longrightarrow> f x = Some x) \<Longrightarrow> those (map f xs) = Some xs"
  by (induction xs) auto

lemma decode_double_exact: "double_exact j \<Longrightarrow> decode_value j = Some j"
proof (induction j rule: decode_value.induct)
  case (2 xs)
  then show ?case by (auto simp: list_all_iff intro!: those_map_Some)
next
  case (3 kvs)
  then have "those (map (\<lambda>kv. map_option (Pair (fst kv)) (decode_value (snd kv))) kvs) = Some kvs"
    by (intro those_map_Some) (auto simp: list_all_iff)
  then show ?case by simp
qed auto

lemma json_roundtrip:
  assumes "double_exact (json_of_map m)" and "json_Marshal m = Inr j"
  shows "json_Unmarshal j = Inr m"
  using assms decode_double_exact [of "json_of_map m"]
  by (cases m) (auto simp: json_Marshal_def json_of_map_def json_Unmarshal_def split: if_splits)

lemma json_Marshal_Inr_iff: "(\<exists>j. json_Marshal m = Inr j) \<longleftrightarrow> marshalable (json_of_map m)"
  by (simp add: json_Marshal_def)

lemma json_Marshal_marshalable [simp]:
  "marshalable (json_of_map m) \<Longrightarrow> json_Marshal m = Inr (json_of_map m)"
  by (simp add: json_Marshal_def)

lemma json_of_map_simps [simp]: "json_of_map None = JNull" "json_of_map (Some kvs) = JObj kvs"
  by (simp_all add: json_of_map_def)

text \<open>A slice of strings as a dynamic value: the nil slice encodes as \<open>null\<close>.\<close>

definition json_of_strings :: "string list option \<Rightarrow> json" where
  "json_of_strings s = (case s of None \<Rightarrow> JNull | Some xs \<Rightarrow> JArr (map JStr xs))"

lemma marshalable_strings [simp]: "marshalable (json_of_strings s)"
  by (auto simp: json_of_strings_def list_all_iff split: option.splits)

text \<open>Reading a key of a map: a nil map or a missing key gives \<open>None\<close>.\<close>

definition map_get :: "gomap \<Rightarrow> string \<Rightarrow> json option" where
  "map_get m k = (case m of None \<Rightarrow> None | Some kvs \<Rightarrow> map_of kvs k)"

text \<open>\<open>m[k] = v\<close> on a non-nil map.\<close>

definition map_set :: "(string \<times> json) list \<Rightarrow> string \<Rightarrow> json \<Rightarrow> (string \<times> json) list" where
  "map_set kvs k v = filter (\<lambda>kv. fst kv \<noteq> k) kvs @ [(k, v)]"

lemma map_get_set: "map_get (Some (map_set kvs k v)) k' = (if k' = k then Some v else map_get (Some kvs) k')"
proof -
  have "map_of (filter (\<lambda>kv. fst kv \<noteq> k) kvs) k = None"
    by (auto simp: map_of_eq_None_iff)
  moreover have "k' \<noteq> k \<Longrightarrow> map_of (filter (\<lambda>kv. fst kv \<noteq> k) kvs) k' = map_of kvs k'"
    by (induction kvs) auto
  ultimately show ?thesis
    by (auto simp: map_get_def map_set_def map_add_def split: option.splits)
qed

end
