(* ===== verification/Workflow_Model.thy ===== *)
theory Workflow_Model
  imports Go_Json
begin

text \<open>
  \<^verbatim>\<open>internal/model/definition.go\<close>: workflow definitions, their states and actions, and the
  parser of durations. Machine integers are 64-bit words: \<open>time.Duration\<close> is the signed
  reading of one.
\<close>

section \<open>Definitions and states\<close>

record FunctionRef =
  fr_RefName :: string
  fr_Arguments :: gomap

record Action =
  ac_Name :: string
  ac_FunctionRef :: FunctionRef
  ac_Arguments :: gomap
  ac_Capabilities :: "string list option"
  ac_Roles :: "string list option"

record BaseState =
  bs_Name :: string
  bs_Type :: string
  bs_Transition :: string
  bs_EndFlag :: bool

text \<open>
  The interface \<open>State\<close> and its two implementations. \<open>OtherState\<close> stands for any further
  implementation of the interface, which the engine meets in the \<open>default\<close> branch of its
  type switch.
\<close>

datatype state =
    OperationState BaseState "Action list"
  | DelayState BaseState string
  | OtherState BaseState

fun base_of :: "state \<Rightarrow> BaseState" where
  "base_of (OperationState b _) = b"
| "base_of (DelayState b _) = b"
| "base_of (OtherState b) = b"

definition GetName :: "state \<Rightarrow> string" where
  "GetName s = bs_Name (base_of s)"

definition GetType :: "state \<Rightarrow> string" where
  "GetType s = bs_Type (base_of s)"

definition GetTransition :: "state \<Rightarrow> string" where
  "GetTransition s = bs_Transition (base_of s)"

definition End :: "state \<Rightarrow> bool" where
  "End s = bs_EndFlag (base_of s)"

record WorkflowDefinition =
  wd_ID :: string
  wd_Name :: string
  wd_Version :: string
  wd_Start :: string
  wd_States :: "state list"
  wd_Metadata :: gomap
  wd_YAML :: string
  wd_Tenant :: string

section \<open>Durations: \<open>time.ParseDuration\<close>\<close>

text \<open>
  The code first tries Go's own format, \<open>[-+]?([0-9]*(\.[0-9]*)?[a-z]+)+\<close>. The functions
  follow \<^verbatim>\<open>time/format.go\<close> of the standard library: unsigned 64-bit accumulators with
  the same overflow checks, the fraction through \<open>float64\<close>.
\<close>

type_synonym u64 = "64 word"

definition is_digit :: "char \<Rightarrow> bool" where
  "is_digit c = (48 \<le> (of_char c :: nat) \<and> (of_char c :: nat) \<le> 57)"

definition digit_val :: "char \<Rightarrow> nat" where
  "digit_val c = of_char c - 48"

fun leadingInt :: "u64 \<Rightarrow> string \<Rightarrow> (u64 \<times> string) option" where
  "leadingInt x [] = Some (x, [])"
| "leadingInt x (c # cs) =
     (if \<not> is_digit c then Some (x, c # cs)
      else if x > 922337203685477580 then None
      else let y = x * 10 + of_nat (digit_val c)
           in if y > 9223372036854775808 then None else leadingInt y cs)"

text \<open>The scale is a double; \<open>None\<close> is \<open>+Inf\<close>.\<close>

fun leadingFraction :: "bool \<Rightarrow> u64 \<Rightarrow> rat option \<Rightarrow> string \<Rightarrow> u64 \<times> rat option \<times> string" where
  "leadingFraction overflow x scale [] = (x, scale, [])"
| "leadingFraction overflow x scale (c # cs) =
     (if \<not> is_digit c then (x, scale, c # cs)
      else if overflow then leadingFraction True x scale cs
      else if x > 922337203685477580 then leadingFraction True x scale cs
      else let y = x * 10 + of_nat (digit_val c)
           in if y > 9223372036854775808 then leadingFraction True x scale cs
              else leadingFraction False y (Option.bind scale (\<lambda>s. float64 (s * 10))) cs)"

definition unitMap :: "string \<Rightarrow> u64 option" where
  "unitMap u =
     (if u = ''ns'' then Some 1
      else if u = ''us'' \<or> u = [char_of (194::nat), char_of (181::nat), CHR ''s'']
        \<or> u = [char_of (206::nat), char_of (188::nat), CHR ''s''] then Some 1000
      else if u = ''ms'' then Some 1000000
      else if u = ''s'' then Some 1000000000
      else if u = ''m'' then Some 60000000000
      else if u = ''h'' then Some 3600000000000
      else None)"

text \<open>\<open>uint64(float64(f) * (float64(unit) / scale))\<close>; a quotient by \<open>+Inf\<close> is zero.\<close>

definition fraction_ns :: "u64 \<Rightarrow> u64 \<Rightarrow> rat option \<Rightarrow> u64" where
  "fraction_ns f unit scale =
     (case scale of
        None \<Rightarrow> 0
      | Some s \<Rightarrow>
          (case float64 (of_int (uint unit) / s) of
             None \<Rightarrow> 0
           | Some quot \<Rightarrow>
               (case float64 (the (float64 (of_int (uint f))) * quot) of
                  None \<Rightarrow> 0
                | Some p \<Rightarrow> word_of_int \<lfloor>p\<rfloor>)))"

definition is_unit_char :: "char \<Rightarrow> bool" where
  "is_unit_char c = (c \<noteq> CHR ''.'' \<and> \<not> is_digit c)"

text \<open>One number with its unit: the value in nanoseconds and the rest of the input.\<close>

definition duration_item :: "string \<Rightarrow> (u64 \<times> string) option" where
  "duration_item s =
     (if s = [] \<or> \<not> (hd s = CHR ''.'' \<or> is_digit (hd s)) then None
      else case leadingInt 0 s of
        None \<Rightarrow> None
      | Some (v, s1) \<Rightarrow>
          (let pre = (length s1 \<noteq> length s);
               (f, scale, s2) =
                 (if s1 \<noteq> [] \<and> hd s1 = CHR ''.'' then leadingFraction False 0 (Some 1) (tl s1)
                  else (0, Some 1, s1));
               post = (s1 \<noteq> [] \<and> hd s1 = CHR ''.'' \<and> length s2 \<noteq> length (tl s1));
               u = takeWhile is_unit_char s2; s3 = dropWhile is_unit_char s2
           in if \<not> pre \<and> \<not> post then None
              else if u = [] then None
              else case unitMap u of
                None \<Rightarrow> None
              | Some unit \<Rightarrow>
                  if v > 9223372036854775808 div unit then None
                  else let v1 = v * unit
                       in if f > 0
                          then let v2 = v1 + fraction_ns f unit scale
                               in if v2 > 9223372036854775808 then None else Some (v2, s3)
                          else Some (v1, s3)))"

lemma leadingInt_length: "leadingInt x s = Some (v, r) \<Longrightarrow> length r \<le> length s"
  by (induction x s rule: leadingInt.induct) (auto simp: Let_def split: if_splits)

lemma leadingFraction_length:
  "length (snd (snd (leadingFraction ov x sc s))) \<le> length s"
  by (induction s arbitrary: ov x sc) (simp_all add: Let_def le_SucI)

lemma duration_item_shorter: "duration_item s = Some (v, r) \<Longrightarrow> length r < length s"
proof -
  assume item: "duration_item s = Some (v, r)"
  then obtain v0 s1 where s1: "leadingInt 0 s = Some (v0, s1)"
    by (auto simp: duration_item_def split: if_splits option.splits)
  define t where "t = (if s1 \<noteq> [] \<and> hd s1 = CHR ''.'' then leadingFraction False 0 (Some 1) (tl s1)
    else (0, Some 1, s1))"
  obtain f scale s2 where t: "t = (f, scale, s2)" by (cases t) auto
  have "length s2 \<le> length s1"
  proof (cases "s1 \<noteq> [] \<and> hd s1 = CHR ''.''")
    case True
    with t have "leadingFraction False 0 (Some 1) (tl s1) = (f, scale, s2)" by (simp add: t_def)
    then have "length s2 \<le> length (tl s1)" using leadingFraction_length by (metis snd_conv)
    then show ?thesis by simp
  next
    case False
    with t show ?thesis by (auto simp: t_def)
  qed
  moreover have "length s1 \<le> length s" using s1 by (rule leadingInt_length)
  moreover have "r = dropWhile is_unit_char s2 \<and> takeWhile is_unit_char s2 \<noteq> []"
    using item s1 t by (auto simp: duration_item_def Let_def t_def split: if_splits option.splits)
  moreover have "length (takeWhile is_unit_char s2) + length (dropWhile is_unit_char s2) = length s2"
    by (metis length_append takeWhile_dropWhile_id)
  ultimately show ?thesis by (cases "takeWhile is_unit_char s2") auto
qed

text \<open>The loop over the items, with the unsigned accumulator \<open>d\<close>.\<close>

function duration_items :: "u64 \<Rightarrow> string \<Rightarrow> u64 option" where
  "duration_items d s =
     (if s = [] then Some d
      else case duration_item s of
        None \<Rightarrow> None
      | Some (v, r) \<Rightarrow>
          if d + v > 9223372036854775808 then None else duration_items (d + v) r)"
  by pat_completeness auto
termination
  by (relation "measure (\<lambda>(d, s). length s)") (auto dest: duration_item_shorter)

declare duration_items.simps [simp del]

definition time_ParseDuration :: "string \<Rightarrow> u64 option" where
  "time_ParseDuration s0 =
     (let neg = (s0 \<noteq> [] \<and> hd s0 = CHR ''-'');
          s = (if s0 \<noteq> [] \<and> (hd s0 = CHR ''-'' \<or> hd s0 = CHR ''+'') then tl s0 else s0)
      in if s = ''0'' then Some 0
         else if s = [] then None
         else case duration_items 0 s of
           None \<Rightarrow> None
         | Some d \<Rightarrow>
             if neg then Some (- d)
             else if d > 9223372036854775807 then None
             else Some d)"

section \<open>Durations: the ISO 8601 fallback\<close>

text \<open>
  \<open>iso8601Re\<close> is \<open>^P(?:(\d+)D)?(?:T(?:(\d+)H)?(?:(\d+)M)?(?:(\d+(?:\.\d+)?)S)?)?$\<close>. An
  optional group \<open>(?:(\d+)u)?\<close> takes digits up to its unit letter or nothing; no other choice
  can succeed, because what follows a group never starts with a digit that the group left.
  A group that did not take part is the empty string, as in \<open>FindStringSubmatch\<close>.
\<close>

definition opt_group :: "char \<Rightarrow> string \<Rightarrow> string \<times> string" where
  "opt_group u s =
     (let ds = takeWhile is_digit s; r = dropWhile is_digit s
      in if ds \<noteq> [] \<and> r \<noteq> [] \<and> hd r = u then (ds, tl r) else ([], s))"

definition opt_seconds :: "string \<Rightarrow> string \<times> string" where
  "opt_seconds s =
     (let ds = takeWhile is_digit s; r = dropWhile is_digit s;
          fs = takeWhile is_digit (tl r); r' = dropWhile is_digit (tl r)
      in if ds = [] \<or> r = [] then ([], s)
         else if hd r = CHR ''S'' then (ds, tl r)
         else if hd r = CHR ''.'' \<and> fs \<noteq> [] \<and> r' \<noteq> [] \<and> hd r' = CHR ''S''
              then (ds @ ''.'' @ fs, tl r')
         else ([], s))"

definition iso8601Re :: "string \<Rightarrow> (string \<times> string \<times> string \<times> string) option" where
  "iso8601Re s =
     (if s = [] \<or> hd s \<noteq> CHR ''P'' then None
      else let (m1, r1) = opt_group CHR ''D'' (tl s)
           in if r1 = [] then Some (m1, [], [], [])
              else if hd r1 \<noteq> CHR ''T'' then None
              else let (m2, r2) = opt_group CHR ''H'' (tl r1);
                       (m3, r3) = opt_group CHR ''M'' r2;
                       (m4, r4) = opt_seconds r3
                   in if r4 = [] then Some (m1, m2, m3, m4) else None)"

text \<open>The value of a run of digits.\<close>

definition digits_value :: "string \<Rightarrow> int" where
  "digits_value s = foldl (\<lambda>n c. 10 * n + int (digit_val c)) 0 s"

text \<open>
  \<open>n, _ := strconv.Atoi(s)\<close> on digits: a value out of range is reported in the error the code
  drops, and \<open>n\<close> is the largest \<open>int\<close>.
\<close>

definition Atoi_value :: "string \<Rightarrow> u64" where
  "Atoi_value s = (if digits_value s < 9223372036854775808 then word_of_int (digits_value s) else 9223372036854775807)"

text \<open>\<open>strconv.ParseFloat(s, 64)\<close> on \<open>d+(.d+)?\<close>, correctly rounded; \<open>None\<close> is \<open>+Inf\<close>.\<close>

definition ParseFloat_value :: "string \<Rightarrow> rat option" where
  "ParseFloat_value s =
     (let ip = takeWhile is_digit s; fp = drop 1 (dropWhile is_digit s)
      in float64 (of_int (digits_value (ip @ fp)) / 10 ^ length fp))"

text \<open>
  \<open>time.Duration(f * float64(time.Second))\<close>. A product beyond \<open>int64\<close> is
  implementation-dependent in Go: it is the parameter \<open>oob\<close>.
\<close>

definition seconds_ns :: "u64 \<Rightarrow> string \<Rightarrow> u64" where
  "seconds_ns oob s =
     (case Option.bind (ParseFloat_value s) (\<lambda>f. float64 (f * 1000000000)) of
        None \<Rightarrow> oob
      | Some p \<Rightarrow> if p < 9223372036854775808 then word_of_int \<lfloor>p\<rfloor> else oob)"

definition ParseDuration :: "u64 \<Rightarrow> string \<Rightarrow> go_error + u64" where
  "ParseDuration oob dur =
     (case time_ParseDuration dur of
        Some d \<Rightarrow> Inr d
      | None \<Rightarrow>
          (case iso8601Re dur of
             None \<Rightarrow> Inl (ErrorText ''invalid duration: expected ISO 8601 (e.g. PT10S) or Go format (e.g. 10s)'')
           | Some (m1, m2, m3, m4) \<Rightarrow>
               if m1 = [] \<and> m2 = [] \<and> m3 = [] \<and> m4 = []
               then Inl (ErrorText ''invalid duration: no time components found'')
               else
                 let d0 = 0;
                     d1 = (if m1 \<noteq> [] then d0 + Atoi_value m1 * 24 * 3600000000000 else d0);
                     d2 = (if m2 \<noteq> [] then d1 + Atoi_value m2 * 3600000000000 else d1);
                     d3 = (if m3 \<noteq> [] then d2 + Atoi_value m3 * 60000000000 else d2);
                     d4 = (if m4 \<noteq> [] then d3 + seconds_ns oob m4 else d3)
                 in Inr d4))"

end
