(* ===== verification/Workflow_Parser.thy ===== *)
theory Workflow_Parser
  imports Workflow_Model
begin

text \<open>
  \<^verbatim>\<open>internal/parser/parser.go\<close>: from YAML text to a \<open>WorkflowDefinition\<close>. The package
  \<^verbatim>\<open>gopkg.in/yaml.v3\<close> is not part of the repository: it is the parameter \<open>yaml_lib\<close>, over
  an arbitrary type of nodes.
\<close>

record 'n raw_definition =
  raw_ID :: string
  raw_Name :: string
  raw_Version :: string
  raw_Start :: string
  raw_States :: "'n list"
  raw_Metadata :: gomap

record 'n yaml_lib =
  yaml_Unmarshal :: "string \<Rightarrow> go_error + 'n raw_definition"
  decode_base :: "'n \<Rightarrow> go_error + string \<times> string" \<comment> \<open>name and type\<close>
  decode_operation :: "'n \<Rightarrow> go_error + BaseState \<times> Action list"
  decode_delay :: "'n \<Rightarrow> go_error + BaseState \<times> string"

definition parseState :: "'n yaml_lib \<Rightarrow> 'n \<Rightarrow> go_error + state" where
  "parseState Y node =
     (case decode_base Y node of
        Inl e \<Rightarrow> Inl e
      | Inr (name, typ) \<Rightarrow>
          if typ = ''operation'' then
            (case decode_operation Y node of
               Inl e \<Rightarrow> Inl e
             | Inr (b, actions) \<Rightarrow> Inr (OperationState b actions))
          else if typ = ''delay'' then
            (case decode_delay Y node of
               Inl e \<Rightarrow> Inl e
             | Inr (b, dur) \<Rightarrow> Inr (DelayState b dur))
          else Inl (ErrorText (''unknown state type: '' @ typ)))"

fun parseStates :: "'n yaml_lib \<Rightarrow> 'n list \<Rightarrow> go_error + state list" where
  "parseStates Y [] = Inr []"
| "parseStates Y (node # nodes) =
     (case parseState Y node of
        Inl e \<Rightarrow> Inl (Wrap ''parse state'' e)
      | Inr s \<Rightarrow>
          (case parseStates Y nodes of Inl e \<Rightarrow> Inl e | Inr ss \<Rightarrow> Inr (s # ss)))"

definition Parse :: "'n yaml_lib \<Rightarrow> string \<Rightarrow> go_error + WorkflowDefinition" where
  "Parse Y data =
     (case yaml_Unmarshal Y data of
        Inl e \<Rightarrow> Inl (Wrap ''unmarshal'' e)
      | Inr raw \<Rightarrow>
          (case parseStates Y (raw_States raw) of
             Inl e \<Rightarrow> Inl e
           | Inr states \<Rightarrow>
               Inr \<lparr>wd_ID = raw_ID raw, wd_Name = raw_Name raw, wd_Version = raw_Version raw,
                    wd_Start = raw_Start raw, wd_States = states, wd_Metadata = raw_Metadata raw,
                    wd_YAML = data, wd_Tenant = []\<rparr>))"

text \<open>\<open>ParseFile\<close>; the result of \<open>os.ReadFile\<close> is given.\<close>

definition ParseFile :: "'n yaml_lib \<Rightarrow> (string \<Rightarrow> go_error + string) \<Rightarrow> string \<Rightarrow> go_error + WorkflowDefinition" where
  "ParseFile Y read_file path =
     (case read_file path of
        Inl e \<Rightarrow> Inl (Wrap ''read file'' e)
      | Inr data \<Rightarrow> Parse Y data)"

fun_cases parseStates_InrE: "parseStates Y (node # nodes) = Inr ss"

text \<open>What parsing guarantees of its result.\<close>

lemma parseState_kind:
  "parseState Y node = Inr s \<Longrightarrow> (\<exists>b acts. s = OperationState b acts) \<or> (\<exists>b dur. s = DelayState b dur)"
  by (auto simp: parseState_def split: sum.splits if_splits)

lemma parseStates_iff:
  "parseStates Y nodes = Inr ss \<longleftrightarrow> list_all2 (\<lambda>n s. parseState Y n = Inr s) nodes ss"
proof (induction nodes arbitrary: ss)
  case Nil
  then show ?case by auto
next
  case (Cons node nodes)
  then show ?case by (auto simp: list_all2_Cons1 simp flip: Cons.IH split: sum.splits)
qed

lemma Parse_fields:
  assumes "Parse Y data = Inr def"
  shows "wd_YAML def = data" and "wd_Tenant def = []"
  using assms by (auto simp: Parse_def split: sum.splits)

lemma Parse_states:
  assumes "Parse Y data = Inr def"
  obtains raw where "yaml_Unmarshal Y data = Inr raw"
    and "list_all2 (\<lambda>n s. parseState Y n = Inr s) (raw_States raw) (wd_States def)"
    and "wd_ID def = raw_ID raw" and "wd_Start def = raw_Start raw"
  using assms by (auto simp: Parse_def parseStates_iff split: sum.splits)

lemma Parse_no_OtherState:
  assumes "Parse Y data = Inr def"
  shows "OtherState b \<notin> set (wd_States def)"
proof
  assume "OtherState b \<in> set (wd_States def)"
  with assms obtain n where "parseState Y n = Inr (OtherState b)"
    by (auto elim!: Parse_states simp: list_all2_conv_all_nth in_set_conv_nth) metis
  then show False by (auto dest!: parseState_kind)
qed

end
