(* ===== verification/Store_Types.thy ===== *)
theory Store_Types
  imports Workflow_Parser
begin

text \<open>
  The data of \<^verbatim>\<open>internal/store/store.go\<close>, the tables of \<^verbatim>\<open>migrations/\<close>, and the way a
  statement reaches the database. The same record models a struct and the row it is scanned
  from: the type parameter is \<open>json\<close> in a table (a JSONB column) and \<open>gomap\<close> in a struct.
\<close>

section \<open>Rows and structs\<close>

text \<open>\<open>uuid.UUID\<close> is an array of 16 bytes; \<open>time.Time\<close> counts nanoseconds.\<close>

type_synonym uuid = "128 word"
type_synonym time = int

definition uuid_Nil :: uuid where
  "uuid_Nil = 0"

record HistoryEvent =
  he_SequenceNum :: int
  he_EventType :: string
  he_Payload :: gomap
  he_RecordedAt :: time

record history_row =
  hr_Instance :: uuid
  hr_SequenceNum :: int
  hr_EventType :: string
  hr_Payload :: json
  hr_RecordedAt :: time

record 'j WorkflowInstance =
  wi_ID :: uuid
  wi_WorkflowDefinitionID :: string
  wi_Tenant :: string
  wi_Status :: string
  wi_CurrentPhase :: string
  wi_DimensionalState :: 'j
  wi_Version :: int
  wi_CreatedAt :: time
  wi_UpdatedAt :: time

record 'c WorkflowDefinitionRow =
  dr_ID :: uuid
  dr_TenantID :: string
  dr_Name :: string
  dr_DefinitionID :: string
  dr_Version :: int
  dr_YAMLContent :: string
  dr_CreatedBy :: 'c \<comment> \<open>nullable in the table, a string in the struct\<close>
  dr_CreatedAt :: time
  dr_UpdatedAt :: time

record 'j Timer =
  tm_ID :: uuid
  tm_WorkflowInstanceID :: uuid
  tm_FireAt :: time
  tm_TimerType :: string
  tm_Payload :: 'j

record timer_row =
  tr_Timer :: "json Timer"
  tr_Fired :: bool

text \<open>\<open>'a\<close> is the type of string arrays, which are nullable in Go only (a nil slice).\<close>

record ('j, 'o, 'a) Task =
  tk_ID :: uuid
  tk_WorkflowInstanceID :: uuid
  tk_StateName :: string
  tk_ActivityName :: string
  tk_Capabilities :: 'a
  tk_Roles :: 'a
  tk_Input :: 'j
  tk_Output :: 'o
  tk_Evidence :: 'o
  tk_Status :: string
  tk_AssignedAgentID :: "string option"
  tk_Deadline :: "time option"
  tk_ParentTaskID :: "uuid option"
  tk_CreatedAt :: time
  tk_UpdatedAt :: time

type_synonym task_row = "(json, json option, string list) Task"
type_synonym task = "(gomap, gomap, string list option) Task"

record 'j TaskAuditEntry =
  ae_ID :: uuid
  ae_TaskID :: uuid
  ae_EventType :: string
  ae_AgentID :: string
  ae_Message :: string
  ae_Data :: 'j
  ae_OccurredAt :: time

record tenant_row =
  te_ID :: string
  te_Name :: string

record ListInstancesFilter =
  lif_WorkflowDefinitionID :: string
  lif_Status :: string
  lif_Limit :: int
  lif_Offset :: int

record ListDefinitionsFilter =
  ldf_TenantID :: string
  ldf_NameFilter :: string
  ldf_Limit :: int
  ldf_Offset :: int

section \<open>The database\<close>

text \<open>One field per table; \<open>advisory_locks\<close> holds the keys locked with their sessions.\<close>

record database =
  workflow_instances :: "json WorkflowInstance list"
  workflow_history :: "history_row list"
  timers :: "timer_row list"
  tasks :: "task_row list"
  task_audit_log :: "json TaskAuditEntry list"
  workflow_definitions :: "string option WorkflowDefinitionRow list"
  tenants :: "tenant_row list"
  advisory_locks :: "(64 word \<times> nat) list"

definition empty_database :: database where
  "empty_database = \<lparr>workflow_instances = [], workflow_history = [], timers = [], tasks = [],
     task_audit_log = [], workflow_definitions = [], tenants = [], advisory_locks = []\<rparr>"

section \<open>The environment and the world\<close>

text \<open>
  What the program cannot determine itself, indexed by the number of the interaction:
  whether a statement reaches the server and succeeds (\<open>db_up\<close>; a failing statement changes
  nothing), whether the server's answer to it arrives (\<open>db_ack\<close>; without the answer the program
  sees an error although the statement has taken effect), whether a result set breaks off while its
  rows are read (\<open>rows_cut\<close>), what the other clients of the database commit between two statements
  of this process (\<open>others\<close>: other goroutines and the worker processes), the clock, what a column
  of type \<open>timestamptz\<close> keeps of a time (PostgreSQL rounds it to microseconds), the random UUIDs. The third-party functions follow: \<^verbatim>\<open>github.com/google/uuid\<close>, \<^verbatim>\<open>yaml.v3\<close>,
  the file system, the RFC 3339 text of a time in JSON, the message broker, and the
  operating system's processes.
\<close>

record 'n environment =
  db_up :: "nat \<Rightarrow> bool"
  db_ack :: "nat \<Rightarrow> bool"
  rows_cut :: "nat \<Rightarrow> nat option" \<comment> \<open>after how many rows the connection breaks\<close>
  others :: "nat \<Rightarrow> database \<Rightarrow> database"
  clock :: "nat \<Rightarrow> time"
  timestamptz :: "time \<Rightarrow> time"
  fresh_uuid :: "nat \<Rightarrow> uuid"
  session :: "nat \<Rightarrow> nat"
  uuid_Parse :: "string \<Rightarrow> go_error + uuid"
  uuid_String :: "uuid \<Rightarrow> string"
  yaml :: "'n yaml_lib"
  read_file :: "nat \<Rightarrow> string \<Rightarrow> go_error + string"
  time_text :: "time \<Rightarrow> string"
  float_oob :: "64 word"
  publish_ok :: "nat \<Rightarrow> bool"
  proc_Start :: "nat \<Rightarrow> string list \<Rightarrow> go_error + int" \<comment> \<open>\<open>cmd.Start\<close>: the process id\<close>
  exit_timeout :: "nat \<Rightarrow> bool" \<comment> \<open>whether a process outlives SIGTERM by ten seconds\<close>
  rabbit_channel :: bool \<comment> \<open>whether \<open>SetRabbitMQChannel\<close> was called on the engine\<close>

record world =
  db :: database
  tick :: nat
  broker :: "(string \<times> string \<times> json) list" \<comment> \<open>exchange, routing key, body\<close>

definition next_tick :: "('z) world_scheme \<Rightarrow> 'z world_scheme" where
  "next_tick w = w\<lparr>tick := Suc (tick w)\<rparr>"

text \<open>
  One statement: first the other clients' commits become visible, then the statement runs
  atomically on what it finds, or fails; what it did or returned is known only if its answer arrives.
\<close>

definition db_exec ::
  "'n environment \<Rightarrow> (nat \<Rightarrow> database \<Rightarrow> go_error + 'a \<times> database) \<Rightarrow>
   'z world_scheme \<Rightarrow> (go_error + 'a) \<times> 'z world_scheme" where
  "db_exec E stmt w =
     (let n = tick w; d = others E n (db w); w1 = next_tick (w\<lparr>db := d\<rparr>)
      in if \<not> db_up E n then (Inl DriverError, w1)
         else case stmt n d of
           Inl e \<Rightarrow> (Inl (if db_ack E n then e else DriverError), w1)
         | Inr (a, d') \<Rightarrow> (if db_ack E n then Inr a else Inl DriverError, w1\<lparr>db := d'\<rparr>))"

text \<open>A query changes nothing.\<close>

definition db_query ::
  "'n environment \<Rightarrow> (nat \<Rightarrow> database \<Rightarrow> go_error + 'a) \<Rightarrow>
   'z world_scheme \<Rightarrow> (go_error + 'a) \<times> 'z world_scheme" where
  "db_query E q = db_exec E (\<lambda>n d. case q n d of Inl e \<Rightarrow> Inl e | Inr a \<Rightarrow> Inr (a, d))"

text \<open>
  The rows of \<open>QueryContext\<close>, read by a loop over \<open>rows.Next()\<close>. \<open>Next\<close> also returns false when
  the connection breaks; the code never asks \<open>rows.Err()\<close>, so it takes the rows delivered so far for
  the whole result. (\<open>QueryRow\<close> and \<open>GetContext\<close> check the error themselves.)
\<close>

definition delivered :: "'n environment \<Rightarrow> nat \<Rightarrow> 'r list \<Rightarrow> 'r list" where
  "delivered E n rows = (case rows_cut E n of None \<Rightarrow> rows | Some k \<Rightarrow> take k rows)"

definition db_rows ::
  "'n environment \<Rightarrow> (nat \<Rightarrow> database \<Rightarrow> go_error + 'r list) \<Rightarrow>
   'z world_scheme \<Rightarrow> (go_error + 'r list) \<times> 'z world_scheme" where
  "db_rows E q =
     db_query E (\<lambda>n d. case q n d of Inl e \<Rightarrow> Inl e | Inr rows \<Rightarrow> Inr (delivered E n rows))"

text \<open>\<open>uuid.New()\<close> and \<open>time.Now()\<close>.\<close>

definition uuid_New :: "'n environment \<Rightarrow> 'z world_scheme \<Rightarrow> uuid \<times> 'z world_scheme" where
  "uuid_New E w = (fresh_uuid E (tick w), next_tick w)"

definition time_Now :: "'n environment \<Rightarrow> 'z world_scheme \<Rightarrow> time \<times> 'z world_scheme" where
  "time_Now E w = (clock E (tick w), next_tick w)"

text \<open>\<open>if err != nil { return fmt.Errorf(m + ": %w", err) }\<close> around a call.\<close>

definition wrap_err :: "string \<Rightarrow> (go_error + 'a) \<times> 'w \<Rightarrow> (go_error + 'a) \<times> 'w" where
  "wrap_err m r = (case r of (Inl e, w) \<Rightarrow> (Inl (Wrap m e), w) | (Inr a, w) \<Rightarrow> (Inr a, w))"

section \<open>Reasoning about statements\<close>

text \<open>
  An undisturbed environment: every statement succeeds, every answer arrives, complete, and no other
  client commits.
\<close>

definition complete_rows :: "'n environment \<Rightarrow> bool" where
  "complete_rows E \<longleftrightarrow> (\<forall>n. rows_cut E n = None)"

definition calm :: "'n environment \<Rightarrow> bool" where
  "calm E \<longleftrightarrow> (\<forall>n. db_up E n \<and> db_ack E n) \<and> complete_rows E \<and> (\<forall>n d. others E n d = d)"

text \<open>The other clients keep a property of the database.\<close>

definition rely :: "'n environment \<Rightarrow> (database \<Rightarrow> bool) \<Rightarrow> bool" where
  "rely E I \<longleftrightarrow> (\<forall>n d. I d \<longrightarrow> I (others E n d))"

lemma calm_rely: "calm E \<Longrightarrow> rely E I"
  by (simp add: calm_def rely_def)

lemma next_tick_simps [simp]:
  "db (next_tick w) = db w" "tick (next_tick w) = Suc (tick w)" "broker (next_tick w) = broker w"
  "world.more (next_tick w) = world.more w"
  by (simp_all add: next_tick_def)

lemma db_exec_calm:
  "calm E \<Longrightarrow> db_exec E stmt w =
     (case stmt (tick w) (db w) of
        Inl e \<Rightarrow> (Inl e, next_tick w)
      | Inr (a, d') \<Rightarrow> (Inr a, next_tick (w\<lparr>db := d'\<rparr>)))"
  by (auto simp: db_exec_def calm_def Let_def next_tick_def split: sum.splits)

lemma db_query_calm:
  "calm E \<Longrightarrow> db_query E q w = (q (tick w) (db w), next_tick w)"
  by (auto simp: db_query_def db_exec_calm next_tick_def split: sum.splits)

lemma db_rows_complete: "complete_rows E \<Longrightarrow> db_rows E q = db_query E q"
  by (rule ext) (auto simp: db_rows_def db_query_def delivered_def complete_rows_def fun_eq_iff
      intro!: arg_cong2 [where f = "db_exec E"] split: sum.splits)

lemma db_rows_calm: "calm E \<Longrightarrow> db_rows E q w = (q (tick w) (db w), next_tick w)"
  by (simp add: calm_def db_rows_complete db_query_calm)

lemma db_exec_down: "\<not> db_up E (tick w) \<Longrightarrow>
  db_exec E stmt w = (Inl DriverError, next_tick (w\<lparr>db := others E (tick w) (db w)\<rparr>))"
  by (simp add: db_exec_def Let_def)

text \<open>A statement that keeps \<open>I\<close> keeps it under every failure and interference.\<close>

lemma db_exec_keeps:
  assumes "rely E I" and "I (db w)"
    and "\<And>n d a d'. stmt n d = Inr (a, d') \<Longrightarrow> I d \<Longrightarrow> I d'"
  shows "I (db (snd (db_exec E stmt w)))"
  using assms by (auto simp: db_exec_def rely_def Let_def split: sum.splits)

lemma db_query_keeps:
  assumes "rely E I" and "I (db w)"
  shows "I (db (snd (db_query E q w)))"
  unfolding db_query_def by (rule db_exec_keeps [OF assms]) (auto split: sum.splits)

lemma db_exec_frame:
  "tick (snd (db_exec E stmt w)) = Suc (tick w)"
  "broker (snd (db_exec E stmt w)) = broker w"
  "world.more (snd (db_exec E stmt w)) = world.more w"
  by (auto simp: db_exec_def Let_def next_tick_def split: sum.splits)

lemma db_query_frame:
  "tick (snd (db_query E q w)) = Suc (tick w)"
  "broker (snd (db_query E q w)) = broker w"
  "world.more (snd (db_query E q w)) = world.more w"
  by (simp_all add: db_query_def db_exec_frame)

lemma wrap_err_snd [simp]: "snd (wrap_err m r) = snd r"
  by (auto simp: wrap_err_def split: prod.splits sum.splits)

end
