(* ===== verification/Store_Events.thy ===== *)
theory Store_Events
  imports Store_Types
begin

text \<open>
  The event log and the instance snapshots: the methods of \<open>PostgresStore\<close> in
  \<^verbatim>\<open>internal/store/postgres.go\<close> from \<open>AppendEvents\<close> to \<open>scanInstance\<close>. Each method takes
  the environment and the world and returns its result with the new world.
\<close>

section \<open>Operations\<close>

text \<open>The row updates of the \<open>UPDATE\<close> statements.\<close>

definition version_row :: "time \<Rightarrow> 'j WorkflowInstance \<Rightarrow> 'j WorkflowInstance" where
  [row_defs]: "version_row now r = r\<lparr>wi_Version := wi_Version r + 1, wi_UpdatedAt := now\<rparr>"

definition status_row :: "string \<Rightarrow> time \<Rightarrow> 'j WorkflowInstance \<Rightarrow> 'j WorkflowInstance" where
  [row_defs]: "status_row st now r = r\<lparr>wi_Status := st, wi_UpdatedAt := now\<rparr>"

definition phase_row :: "string \<Rightarrow> time \<Rightarrow> 'j WorkflowInstance \<Rightarrow> 'j WorkflowInstance" where
  [row_defs]: "phase_row ph now r = r\<lparr>wi_CurrentPhase := ph, wi_UpdatedAt := now\<rparr>"

text \<open>
  \<open>INSERT INTO workflow_history\<close> under \<open>UNIQUE(workflow_instance_id, sequence_num)\<close> and the
  foreign key to the instance; \<open>recorded_at\<close> is the column's default.
\<close>

definition insert_history ::
  "uuid \<Rightarrow> int \<Rightarrow> string \<Rightarrow> json \<Rightarrow> time \<Rightarrow> database \<Rightarrow> go_error + database" where
  "insert_history iid seq typ payload now d =
     (if iid \<notin> wi_ID ` set (workflow_instances d) then Inl (ConstraintError ''workflow_history_fkey'')
      else case sql_insert (\<lambda>h. (hr_Instance h, hr_SequenceNum h)) ''workflow_history_key''
             \<lparr>hr_Instance = iid, hr_SequenceNum = seq, hr_EventType = typ, hr_Payload = payload,
              hr_RecordedAt = now\<rparr> (workflow_history d) of
        Inl e \<Rightarrow> Inl e
      | Inr rows \<Rightarrow> Inr (d\<lparr>workflow_history := rows\<rparr>))"

text \<open>
  The loop of \<open>AppendEvents\<close> inside its transaction. The statements work on the transaction's
  copy \<open>d\<close> of the database; what other transactions commit meanwhile does not touch the rows
  of this instance, whose row the \<open>UPDATE\<close> has locked. \<open>NOW()\<close> and the default of \<open>recorded_at\<close>
  are the time at which the transaction has begun.
\<close>

fun insert_events ::
  "'n environment \<Rightarrow> uuid \<Rightarrow> time \<Rightarrow> HistoryEvent list \<Rightarrow> database \<Rightarrow> 'z world_scheme \<Rightarrow>
   (go_error + database) \<times> 'z world_scheme" where
  "insert_events E iid now [] d w = (Inr d, w)"
| "insert_events E iid now (ev # evs) d w =
     (case json_Marshal (he_Payload ev) of
        Inl e \<Rightarrow> (Inl (Wrap ''marshal event payload'' e), w)
      | Inr payload \<Rightarrow>
          if \<not> (db_up E (tick w) \<and> db_ack E (tick w))
          then (Inl (Wrap ''insert history event'' DriverError), next_tick w)
          else (case insert_history iid (he_SequenceNum ev) (he_EventType ev) payload now d of
                  Inl e \<Rightarrow> (Inl (Wrap ''insert history event'' e), next_tick w)
                | Inr d' \<Rightarrow> insert_events E iid now evs d' (next_tick w)))"

definition AppendEvents ::
  "'n environment \<Rightarrow> uuid \<Rightarrow> int \<Rightarrow> HistoryEvent list \<Rightarrow> 'z world_scheme \<Rightarrow>
   (go_error + unit) \<times> 'z world_scheme" where
  "AppendEvents E iid expectedVersion evs w =
     (case db_exec E (\<lambda>n d. Inr (n, d)) w of
        (Inl e, w1) \<Rightarrow> (Inl (Wrap ''begin transaction'' e), w1)
      | (Inr n, w1) \<Rightarrow>
          (case db_exec E (\<lambda>n d. Inr (d, d)) w1 of
             (Inl e, w2) \<Rightarrow> (Inl (Wrap ''update workflow instance'' e), w2)
           | (Inr d, w2) \<Rightarrow>
               let matches = (\<lambda>r. wi_ID r = iid \<and> wi_Version r = expectedVersion);
                   d1 = d\<lparr>workflow_instances :=
                          sql_update matches (version_row (clock E n)) (workflow_instances d)\<rparr>
               in if rows_affected matches (workflow_instances d) = 0
                  then (Inl ErrConcurrencyConflict, w2)
                  else (case insert_events E iid (clock E n) evs d1 w2 of
                          (Inl e, w3) \<Rightarrow> (Inl e, w3)
                        | (Inr d2, w3) \<Rightarrow>
                            if db_up E (tick w3)
                            then (if db_ack E (tick w3) then Inr () else Inl DriverError,
                                  next_tick (w3\<lparr>db := d2\<rparr>))
                            else (Inl DriverError, next_tick w3))))"

definition scan_event :: "history_row \<Rightarrow> go_error + HistoryEvent" where
  "scan_event h =
     (case json_Unmarshal (hr_Payload h) of
        Inl e \<Rightarrow> Inl (Wrap ''unmarshal payload'' e)
      | Inr m \<Rightarrow> Inr \<lparr>he_SequenceNum = hr_SequenceNum h, he_EventType = hr_EventType h,
                      he_Payload = m, he_RecordedAt = hr_RecordedAt h\<rparr>)"

definition history_of :: "uuid \<Rightarrow> int \<Rightarrow> database \<Rightarrow> history_row list" where
  "history_of iid afterSeq d =
     order_by_asc hr_SequenceNum
       (filter (\<lambda>h. hr_Instance h = iid \<and> hr_SequenceNum h > afterSeq) (workflow_history d))"

definition queryHistory ::
  "'n environment \<Rightarrow> uuid \<Rightarrow> int \<Rightarrow> 'z world_scheme \<Rightarrow>
   (go_error + HistoryEvent list) \<times> 'z world_scheme" where
  "queryHistory E iid afterSeq w =
     (case db_rows E (\<lambda>n d. Inr (history_of iid afterSeq d)) w of
        (Inl e, w1) \<Rightarrow> (Inl (Wrap ''query history'' e), w1)
      | (Inr rows, w1) \<Rightarrow> (scan_rows scan_event rows, w1))"

definition GetHistoryEvents ::
  "'n environment \<Rightarrow> uuid \<Rightarrow> int \<Rightarrow> 'z world_scheme \<Rightarrow>
   (go_error + HistoryEvent list) \<times> 'z world_scheme" where
  "GetHistoryEvents E iid afterSeq = queryHistory E iid afterSeq"

text \<open>\<open>scanInstance\<close>: the argument is the result of \<open>row.Scan\<close>.\<close>

definition scanInstance :: "go_error + json WorkflowInstance \<Rightarrow> go_error + gomap WorkflowInstance" where
  "scanInstance scanned =
     (case scanned of
        Inl e \<Rightarrow> if e = ErrNoRows then Inl ErrInstanceNotFound else Inl (Wrap ''scan instance'' e)
      | Inr r \<Rightarrow>
          (case json_Unmarshal (wi_DimensionalState r) of
             Inl e \<Rightarrow> Inl (Wrap ''unmarshal dimensional state'' e)
           | Inr m \<Rightarrow>
               Inr \<lparr>wi_ID = wi_ID r, wi_WorkflowDefinitionID = wi_WorkflowDefinitionID r,
                    wi_Tenant = wi_Tenant r, wi_Status = wi_Status r,
                    wi_CurrentPhase = wi_CurrentPhase r, wi_DimensionalState = m,
                    wi_Version = wi_Version r, wi_CreatedAt = wi_CreatedAt r,
                    wi_UpdatedAt = wi_UpdatedAt r\<rparr>))"

definition LoadInstance ::
  "'n environment \<Rightarrow> uuid \<Rightarrow> 'z world_scheme \<Rightarrow>
   (go_error + gomap WorkflowInstance \<times> HistoryEvent list) \<times> 'z world_scheme" where
  "LoadInstance E iid w =
     (let (row, w1) = db_query E (\<lambda>n d. first_row (filter (\<lambda>r. wi_ID r = iid) (workflow_instances d))) w
      in case scanInstance row of
           Inl e \<Rightarrow> (Inl e, w1)
         | Inr inst \<Rightarrow>
             (case queryHistory E iid 0 w1 of
                (Inl e, w2) \<Rightarrow> (Inl e, w2)
              | (Inr evs, w2) \<Rightarrow> (Inr (inst, evs), w2)))"

definition CreateWorkflowInstance ::
  "'n environment \<Rightarrow> gomap WorkflowInstance \<Rightarrow> 'z world_scheme \<Rightarrow>
   (go_error + unit) \<times> 'z world_scheme" where
  "CreateWorkflowInstance E inst w =
     (case json_Marshal (wi_DimensionalState inst) of
        Inl e \<Rightarrow> (Inl (Wrap ''marshal dimensional state'' e), w)
      | Inr dimJSON \<Rightarrow>
          db_exec E (\<lambda>n d.
            case sql_insert wi_ID ''workflow_instances_pkey''
                   \<lparr>wi_ID = wi_ID inst, wi_WorkflowDefinitionID = wi_WorkflowDefinitionID inst,
                    wi_Tenant = wi_Tenant inst, wi_Status = wi_Status inst,
                    wi_CurrentPhase = wi_CurrentPhase inst, wi_DimensionalState = dimJSON,
                    wi_Version = wi_Version inst, wi_CreatedAt = timestamptz E (wi_CreatedAt inst),
                    wi_UpdatedAt = timestamptz E (wi_UpdatedAt inst)\<rparr>
                   (workflow_instances d) of
              Inl e \<Rightarrow> Inl e
            | Inr rows \<Rightarrow> Inr ((), d\<lparr>workflow_instances := rows\<rparr>)) w)"

definition UpdateWorkflowStatus ::
  "'n environment \<Rightarrow> uuid \<Rightarrow> string \<Rightarrow> 'z world_scheme \<Rightarrow> (go_error + unit) \<times> 'z world_scheme" where
  "UpdateWorkflowStatus E iid st =
     db_exec E (\<lambda>n d. Inr ((), d\<lparr>workflow_instances :=
       sql_update (\<lambda>r. wi_ID r = iid) (status_row st (clock E n)) (workflow_instances d)\<rparr>))"

definition UpdateCurrentPhase ::
  "'n environment \<Rightarrow> uuid \<Rightarrow> string \<Rightarrow> 'z world_scheme \<Rightarrow> (go_error + unit) \<times> 'z world_scheme" where
  "UpdateCurrentPhase E iid phase =
     db_exec E (\<lambda>n d. Inr ((), d\<lparr>workflow_instances :=
       sql_update (\<lambda>r. wi_ID r = iid) (phase_row phase (clock E n)) (workflow_instances d)\<rparr>))"

definition queryInstances ::
  "'n environment \<Rightarrow> (database \<Rightarrow> go_error + json WorkflowInstance list) \<Rightarrow> 'z world_scheme \<Rightarrow>
   (go_error + gomap WorkflowInstance list) \<times> 'z world_scheme" where
  "queryInstances E q w =
     (case db_rows E (\<lambda>n d. q d) w of
        (Inl e, w1) \<Rightarrow> (Inl (Wrap ''query instances'' e), w1)
      | (Inr rows, w1) \<Rightarrow> (scan_rows (\<lambda>r. scanInstance (Inr r)) rows, w1))"

definition ListActiveInstances ::
  "'n environment \<Rightarrow> 'z world_scheme \<Rightarrow>
   (go_error + gomap WorkflowInstance list) \<times> 'z world_scheme" where
  "ListActiveInstances E =
     queryInstances E (\<lambda>d. Inr (filter (\<lambda>r. wi_Status r = ''RUNNING'') (workflow_instances d)))"

definition ListWorkflowInstances ::
  "'n environment \<Rightarrow> ListInstancesFilter \<Rightarrow> 'z world_scheme \<Rightarrow>
   (go_error + gomap WorkflowInstance list) \<times> 'z world_scheme" where
  "ListWorkflowInstances E f =
     queryInstances E (\<lambda>d.
       let selected = filter (\<lambda>r.
             (lif_WorkflowDefinitionID f \<noteq> [] \<longrightarrow> wi_WorkflowDefinitionID r = lif_WorkflowDefinitionID f) \<and>
             (lif_Status f \<noteq> [] \<longrightarrow> wi_Status r = lif_Status f)) (workflow_instances d);
           ordered = order_by_desc wi_CreatedAt selected
       in if lif_Limit f > 0 then limit_offset (lif_Limit f) (lif_Offset f) ordered else Inr ordered)"

lemma scanInstance_fields:
  "scanInstance (Inr r) = Inr inst \<Longrightarrow> wi_ID inst = wi_ID r \<and> wi_CurrentPhase inst = wi_CurrentPhase r \<and>
     wi_Version inst = wi_Version r \<and> wi_WorkflowDefinitionID inst = wi_WorkflowDefinitionID r \<and>
     wi_Status inst = wi_Status r"
  by (auto simp: scanInstance_def split: sum.splits)

section \<open>The updates keep the primary key\<close>

interpretation version: key_update wi_ID "version_row now" for now
  by unfold_locales (simp add: row_defs)

interpretation status: key_update wi_ID "status_row st now" for st now
  by unfold_locales (simp add: row_defs)

interpretation phase: key_update wi_ID "phase_row ph now" for ph now
  by unfold_locales (simp add: row_defs)

section \<open>What an append does\<close>

text \<open>The rows an append inserts, the state it commits, and when the inserts are accepted.\<close>

definition history_key :: "history_row \<Rightarrow> uuid \<times> int" where
  "history_key h = (hr_Instance h, hr_SequenceNum h)"

definition history_rows :: "uuid \<Rightarrow> time \<Rightarrow> HistoryEvent list \<Rightarrow> history_row list" where
  "history_rows iid now evs =
     map (\<lambda>ev. \<lparr>hr_Instance = iid, hr_SequenceNum = he_SequenceNum ev, hr_EventType = he_EventType ev,
                hr_Payload = json_of_map (he_Payload ev), hr_RecordedAt = now\<rparr>) evs"

definition version_matches :: "uuid \<Rightarrow> int \<Rightarrow> 'j WorkflowInstance \<Rightarrow> bool" where
  "version_matches iid v r \<longleftrightarrow> wi_ID r = iid \<and> wi_Version r = v"

definition append_effect :: "uuid \<Rightarrow> int \<Rightarrow> time \<Rightarrow> HistoryEvent list \<Rightarrow> database \<Rightarrow> database" where
  "append_effect iid v now evs d =
     d\<lparr>workflow_instances := sql_update (version_matches iid v) (version_row now) (workflow_instances d),
       workflow_history := workflow_history d @ history_rows iid now evs\<rparr>"

definition accepts_events :: "uuid \<Rightarrow> HistoryEvent list \<Rightarrow> database \<Rightarrow> bool" where
  "accepts_events iid evs d \<longleftrightarrow>
     distinct (map he_SequenceNum evs) \<and>
     (\<forall>ev \<in> set evs. marshalable (json_of_map (he_Payload ev)) \<and>
        (iid, he_SequenceNum ev) \<notin> history_key ` set (workflow_history d))"

lemma history_rows_simps [simp]:
  "history_rows iid now [] = []"
  "history_rows iid now (ev # evs) =
     \<lparr>hr_Instance = iid, hr_SequenceNum = he_SequenceNum ev, hr_EventType = he_EventType ev,
      hr_Payload = json_of_map (he_Payload ev), hr_RecordedAt = now\<rparr> # history_rows iid now evs"
  "length (history_rows iid now evs) = length evs"
  by (simp_all add: history_rows_def)

lemma history_rows_keys:
  "map history_key (history_rows iid now evs) = map (\<lambda>ev. (iid, he_SequenceNum ev)) evs"
  by (simp add: history_rows_def history_key_def)

lemma history_rows_instance: "h \<in> set (history_rows iid now evs) \<Longrightarrow> hr_Instance h = iid"
  by (auto simp: history_rows_def)

lemma insert_history_eq:
  "insert_history iid seq typ p now d =
     (if iid \<notin> wi_ID ` set (workflow_instances d) then Inl (ConstraintError ''workflow_history_fkey'')
      else if (iid, seq) \<in> history_key ` set (workflow_history d)
      then Inl (ConstraintError ''workflow_history_key'')
      else Inr (d\<lparr>workflow_history := workflow_history d @
             [\<lparr>hr_Instance = iid, hr_SequenceNum = seq, hr_EventType = typ, hr_Payload = p,
               hr_RecordedAt = now\<rparr>]\<rparr>))"
  by (simp add: insert_history_def sql_insert_def history_key_def [abs_def])

lemma accepts_events_Cons:
  assumes "iid \<in> wi_ID ` set (workflow_instances d)"
    and "insert_history iid (he_SequenceNum ev) typ p now d = Inr d'"
  shows "accepts_events iid evs d' \<and> marshalable (json_of_map (he_Payload ev)) \<longleftrightarrow>
    accepts_events iid (ev # evs) d"
proof -
  have "history_key ` set (workflow_history d') =
      insert (iid, he_SequenceNum ev) (history_key ` set (workflow_history d))"
    and "(iid, he_SequenceNum ev) \<notin> history_key ` set (workflow_history d)"
    using assms by (auto simp: insert_history_eq history_key_def split: if_splits)
  then show ?thesis by (auto simp: accepts_events_def) (metis imageI)
qed

lemma insert_events_Inr:
  "insert_events E iid now evs d w = (Inr d', w') \<Longrightarrow>
     d' = d\<lparr>workflow_history := workflow_history d @ history_rows iid now evs\<rparr> \<and>
     (iid \<in> wi_ID ` set (workflow_instances d) \<longrightarrow> accepts_events iid evs d)"
proof (induction evs arbitrary: d w)
  case Nil
  then show ?case by (auto simp: accepts_events_def)
next
  case (Cons ev evs)
  then obtain p d1 where p: "json_Marshal (he_Payload ev) = Inr p"
    and d1: "insert_history iid (he_SequenceNum ev) (he_EventType ev) p now d = Inr d1"
    and rest: "insert_events E iid now evs d1 (next_tick w) = (Inr d', w')"
    by (auto split: sum.splits if_splits)
  from p have pj: "p = json_of_map (he_Payload ev)" "marshalable (json_of_map (he_Payload ev))"
    by (auto simp: json_Marshal_def split: if_splits)
  note IH = Cons.IH [OF rest]
  have "iid \<in> wi_ID ` set (workflow_instances d) \<Longrightarrow> accepts_events iid (ev # evs) d"
    using IH d1 pj accepts_events_Cons [OF _ d1] by (auto simp: insert_history_eq split: if_splits)
  moreover have "d' = d\<lparr>workflow_history := workflow_history d @ history_rows iid now (ev # evs)\<rparr>"
    using IH d1 pj by (auto simp: insert_history_eq split: if_splits)
  ultimately show ?case by blast
qed

lemma insert_events_frame:
  "insert_events E iid now evs d w = (r, w') \<Longrightarrow>
     db w' = db w \<and> broker w' = broker w \<and> world.more w' = world.more w"
  by (induction evs arbitrary: d w) (auto split: sum.splits if_splits)

lemma insert_events_calm:
  assumes "calm E" and "iid \<in> wi_ID ` set (workflow_instances d)"
  shows "(\<exists>d'. fst (insert_events E iid now evs d w) = Inr d') \<longleftrightarrow> accepts_events iid evs d"
  using assms(2)
proof (induction evs arbitrary: d w)
  case Nil
  then show ?case by (simp add: accepts_events_def)
next
  case (Cons ev evs)
  show ?case
  proof (cases "marshalable (json_of_map (he_Payload ev))")
    case False
    then show ?thesis by (simp add: json_Marshal_def accepts_events_def)
  next
    case True
    show ?thesis
    proof (cases "insert_history iid (he_SequenceNum ev) (he_EventType ev)
        (json_of_map (he_Payload ev)) now d")
      case (Inl e)
      with True Cons.prems assms(1) show ?thesis
        by (auto simp: calm_def insert_history_eq accepts_events_def split: if_splits)
    next
      case (Inr d1)
      with Cons.prems have "iid \<in> wi_ID ` set (workflow_instances d1)"
        by (auto simp: insert_history_eq split: if_splits)
      from Cons.IH [OF this, of "next_tick w"] True Inr assms(1)
        accepts_events_Cons [OF Cons.prems Inr] show ?thesis
        by (simp add: calm_def)
    qed
  qed
qed

text \<open>\<open>AppendEvents\<close> with its \<open>WHERE\<close> clause folded.\<close>

lemma AppendEvents_unfold:
  "AppendEvents E iid v evs w =
     (case db_exec E (\<lambda>n d. Inr (n, d)) w of
        (Inl e, w1) \<Rightarrow> (Inl (Wrap ''begin transaction'' e), w1)
      | (Inr n, w1) \<Rightarrow>
          (case db_exec E (\<lambda>n d. Inr (d, d)) w1 of
             (Inl e, w2) \<Rightarrow> (Inl (Wrap ''update workflow instance'' e), w2)
           | (Inr d, w2) \<Rightarrow>
               if rows_affected (version_matches iid v) (workflow_instances d) = 0
               then (Inl ErrConcurrencyConflict, w2)
               else (case insert_events E iid (clock E n)
                       evs (d\<lparr>workflow_instances :=
                          sql_update (version_matches iid v) (version_row (clock E n))
                            (workflow_instances d)\<rparr>) w2 of
                       (Inl e, w3) \<Rightarrow> (Inl e, w3)
                     | (Inr d2, w3) \<Rightarrow>
                         if db_up E (tick w3)
                         then (if db_ack E (tick w3) then Inr () else Inl DriverError,
                               next_tick (w3\<lparr>db := d2\<rparr>))
                         else (Inl DriverError, next_tick w3))))"
proof -
  have "(\<lambda>r :: json WorkflowInstance. wi_ID r = iid \<and> wi_Version r = v) = version_matches iid v"
    by (simp add: version_matches_def fun_eq_iff)
  then show ?thesis unfolding AppendEvents_def Let_def by (rule ssubst) (rule refl)
qed

lemma version_matches_ids:
  "0 < rows_affected (version_matches iid v) rows \<Longrightarrow> iid \<in> wi_ID ` set rows"
  using rows_affected_zero_iff [of "version_matches iid v" rows] by (auto simp: version_matches_def)

lemma append_tx_Inr:
  assumes "insert_events E iid now evs
      (d\<lparr>workflow_instances := sql_update (version_matches iid v) (version_row now) (workflow_instances d)\<rparr>)
      w = (Inr d', w')"
    and "0 < rows_affected (version_matches iid v) (workflow_instances d)"
  shows "d' = append_effect iid v now evs d" and "accepts_events iid evs d"
  using insert_events_Inr [OF assms(1)] version_matches_ids [OF assms(2)]
  by (simp_all add: append_effect_def version.key_set_update accepts_events_def)

text \<open>
  What an append can have done, in any environment: nothing, when one of its statements failed or
  found the version moved on, or all of it in one commit, whose answer may have been lost.
\<close>

lemma db_exec_read:
  "db_exec E (\<lambda>n d. Inr (n, d)) w = (r, w1) \<Longrightarrow> db w1 = others E (tick w) (db w)"
  "db_exec E (\<lambda>n d. Inr (d, d)) w = (s, w1) \<Longrightarrow>
     db w1 = others E (tick w) (db w) \<and> (\<forall>d. s = Inr d \<longrightarrow> d = db w1)"
  by (auto simp: db_exec_def Let_def split: if_splits)

definition appended ::
  "'n environment \<Rightarrow> uuid \<Rightarrow> int \<Rightarrow> HistoryEvent list \<Rightarrow> database \<Rightarrow> database \<Rightarrow> bool" where
  "appended E iid v evs d d' \<longleftrightarrow>
     (\<exists>n n' now d1. d1 = others E n' (others E n d) \<and>
        0 < rows_affected (version_matches iid v) (workflow_instances d1) \<and>
        accepts_events iid evs d1 \<and> d' = append_effect iid v now evs d1)"

lemma AppendEvents_cases:
  assumes "AppendEvents E iid v evs w = (r, w')"
  obtains (nothing) e n n' where "r = Inl e"
      and "db w' = others E n (db w) \<or> db w' = others E n' (others E n (db w))"
    | (commits) "r = Inr () \<or> r = Inl DriverError" and "appended E iid v evs (db w) (db w')"
proof -
  obtain r1 w1 where s1: "db_exec E (\<lambda>n d. Inr (n, d)) w = (r1, w1)" by fastforce
  note d1 = db_exec_read(1) [OF s1]
  obtain r2 w2 where s2: "db_exec E (\<lambda>n d. Inr (d, d)) w1 = (r2, w2)" by fastforce
  note d2 = db_exec_read(2) [OF s2]
  show thesis
  proof (cases "(\<exists>e. r1 = Inl e) \<or> (\<exists>e. r2 = Inl e)")
    case True
    then obtain e where "r = Inl e"
      and "db w' = others E (tick w) (db w) \<or> db w' = others E (tick w1) (others E (tick w) (db w))"
      using assms s1 s2 d1 d2 by (auto simp: AppendEvents_unfold split: sum.splits)
    then show thesis by (rule nothing)
  next
    case False
    then obtain n d where r: "r1 = Inr n" "r2 = Inr d" by (cases r1; cases r2) auto
    with d1 d2 have d: "d = others E (tick w1) (others E (tick w) (db w))" "db w2 = d" by auto
    let ?d = "d\<lparr>workflow_instances :=
        sql_update (version_matches iid v) (version_row (clock E n)) (workflow_instances d)\<rparr>"
    obtain r3 w3 where ins: "insert_events E iid (clock E n) evs ?d w2 = (r3, w3)" by fastforce
    note frame = insert_events_frame [OF ins]
    show thesis
    proof (cases "0 < rows_affected (version_matches iid v) (workflow_instances d) \<and> (\<exists>d3. r3 = Inr d3) \<and>
        db_up E (tick w3)")
      case True
      then obtain d3 where hit: "0 < rows_affected (version_matches iid v) (workflow_instances d)"
        and "r3 = Inr d3" and up: "db_up E (tick w3)" by blast
      with ins have ins3: "insert_events E iid (clock E n) evs ?d w2 = (Inr d3, w3)" by simp
      have "db w' = d3" and res: "r = Inr () \<or> r = Inl DriverError"
        using assms s1 s2 r hit up ins3 by (auto simp: AppendEvents_unfold split: if_splits)
      with append_tx_Inr [OF ins3 hit] hit d show thesis by (intro commits [OF res]) (auto simp: appended_def)
    next
      case False
      obtain e where "r = Inl e" and "db w' = d"
        using assms s1 s2 r False ins frame d(2) by (auto simp: AppendEvents_unfold split: if_splits sum.splits)
      with d(1) have "r = Inl e"
        and "db w' = others E (tick w) (db w) \<or> db w' = others E (tick w1) (others E (tick w) (db w))"
        by simp_all
      then show thesis by (rule nothing)
    qed
  qed
qed

lemma AppendEvents_InrD:
  "AppendEvents E iid v evs w = (Inr u, w') \<Longrightarrow> appended E iid v evs (db w) (db w')"
  by (erule AppendEvents_cases) auto

text \<open>Without failures and interference: the complete behaviour.\<close>

lemma AppendEvents_calm:
  assumes "calm E"
  shows "fst (AppendEvents E iid v evs w) = Inr () \<longleftrightarrow>
      0 < rows_affected (version_matches iid v) (workflow_instances (db w)) \<and>
      accepts_events iid evs (db w)"
    and "fst (AppendEvents E iid v evs w) = Inl ErrConcurrencyConflict \<longleftrightarrow>
      rows_affected (version_matches iid v) (workflow_instances (db w)) = 0"
    and "db (snd (AppendEvents E iid v evs w)) =
      (if fst (AppendEvents E iid v evs w) = Inr ()
       then append_effect iid v (clock E (tick w)) evs (db w) else db w)"
proof -
  let ?d = "db w" and ?w2 = "next_tick (next_tick w)" and ?now = "clock E (tick w)"
  let ?P = "version_matches iid v"
  let ?d1 = "?d\<lparr>workflow_instances := sql_update ?P (version_row ?now) (workflow_instances ?d)\<rparr>"
  have conflict: "AppendEvents E iid v evs w = (Inl ErrConcurrencyConflict, ?w2)"
    if "rows_affected ?P (workflow_instances ?d) = 0"
    using that by (simp add: AppendEvents_unfold db_exec_calm [OF assms])
  have inserts: "AppendEvents E iid v evs w =
      (case insert_events E iid ?now evs ?d1 ?w2 of
         (Inl e, w3) \<Rightarrow> (Inl e, w3) | (Inr d2, w3) \<Rightarrow> (Inr (), next_tick (w3\<lparr>db := d2\<rparr>)))"
    if "0 < rows_affected ?P (workflow_instances ?d)"
    using that assms by (simp add: AppendEvents_unfold db_exec_calm [OF assms] calm_def
        split: prod.splits sum.splits)
  have not_conflict: "fst (insert_events E iid now evs d w') \<noteq> Inl ErrConcurrencyConflict" for now d w'
    by (induction evs arbitrary: d w') (auto split: sum.splits)
  have accepts: "accepts_events iid evs ?d1 \<longleftrightarrow> accepts_events iid evs ?d"
    by (simp add: accepts_events_def)
  obtain r w3 where ins: "insert_events E iid ?now evs ?d1 ?w2 = (r, w3)" by fastforce
  have frame: "db w3 = ?d" using insert_events_frame [OF ins] by simp
  have ok: "(\<exists>d'. r = Inr d') \<longleftrightarrow> accepts_events iid evs ?d"
    if "0 < rows_affected ?P (workflow_instances ?d)"
    using insert_events_calm [OF assms, of iid ?d1 ?now evs ?w2] version_matches_ids [OF that] ins accepts
    by (simp add: version.key_set_update)
  show "fst (AppendEvents E iid v evs w) = Inr () \<longleftrightarrow>
      0 < rows_affected ?P (workflow_instances ?d) \<and> accepts_events iid evs ?d"
    using conflict inserts ok ins by (cases "rows_affected ?P (workflow_instances ?d)") (auto split: sum.splits)
  show "fst (AppendEvents E iid v evs w) = Inl ErrConcurrencyConflict \<longleftrightarrow>
      rows_affected ?P (workflow_instances ?d) = 0"
    using conflict inserts not_conflict [of ?now ?d1 ?w2] ins
    by (cases "rows_affected ?P (workflow_instances ?d)") (auto split: sum.splits)
  show "db (snd (AppendEvents E iid v evs w)) =
      (if fst (AppendEvents E iid v evs w) = Inr () then append_effect iid v ?now evs ?d else ?d)"
    using conflict inserts ins frame append_tx_Inr(1) [where d = "?d" and v = v and now = "?now" and iid = iid and w = "?w2"]
    by (cases "rows_affected ?P (workflow_instances ?d)") (auto split: sum.splits)
qed

end
