(* ===== verification/Store_Tasks.thy ===== *)
theory Store_Tasks
  imports Store_Events
begin

text \<open>
  Leases, timers, tasks and the audit log: the methods of \<open>PostgresStore\<close> in
  \<^verbatim>\<open>internal/store/postgres.go\<close> from \<open>AcquireLease\<close> to the end of the file.
\<close>

section \<open>Leases\<close>

text \<open>
  \<open>instanceIDToInt64\<close> folds the first eight bytes of the UUID, most significant first;
  \<open>uuid_byte id i\<close> is \<open>id[i]\<close>.
\<close>

definition uuid_byte :: "uuid \<Rightarrow> nat \<Rightarrow> 8 word" where
  "uuid_byte u i = ucast (drop_bit (8 * (15 - i)) u)"

definition instanceIDToInt64 :: "uuid \<Rightarrow> 64 word" where
  "instanceIDToInt64 u = foldl (\<lambda>val i. or (push_bit 8 val) (ucast (uuid_byte u i))) 0 [0..<8]"

text \<open>
  \<open>pg_try_advisory_lock\<close> takes a session-level lock on the connection the pool hands out;
  a session that holds the lock gets it again.
\<close>

definition AcquireLease ::
  "'n environment \<Rightarrow> uuid \<Rightarrow> string \<Rightarrow> 64 word \<Rightarrow> 'z world_scheme \<Rightarrow>
   (go_error + bool) \<times> 'z world_scheme" where
  "AcquireLease E iid ownerID dur =
     db_exec E (\<lambda>n d.
       let k = instanceIDToInt64 iid; s = session E n
       in if \<exists>(k', s') \<in> set (advisory_locks d). k' = k \<and> s' \<noteq> s then Inr (False, d)
          else Inr (True, d\<lparr>advisory_locks := (k, s) # advisory_locks d\<rparr>))"

definition RenewLease ::
  "'n environment \<Rightarrow> uuid \<Rightarrow> string \<Rightarrow> 64 word \<Rightarrow> 'z world_scheme \<Rightarrow>
   (go_error + unit) \<times> 'z world_scheme" where
  "RenewLease E iid ownerID dur w = (Inr (), w)"

section \<open>Timers\<close>

definition CreateTimer ::
  "'n environment \<Rightarrow> uuid \<Rightarrow> time \<Rightarrow> string \<Rightarrow> gomap \<Rightarrow> 'z world_scheme \<Rightarrow>
   (go_error + uuid) \<times> 'z world_scheme" where
  "CreateTimer E iid fireAt timerType payload w =
     (let (timerID, w1) = uuid_New E w
      in case json_Marshal payload of
           Inl e \<Rightarrow> (Inl (Wrap ''marshal payload'' e), w1)
         | Inr p \<Rightarrow>
             db_exec E (\<lambda>n d.
               if iid \<notin> wi_ID ` set (workflow_instances d) then Inl (ConstraintError ''timers_fkey'')
               else case sql_insert (\<lambda>t. tm_ID (tr_Timer t)) ''timers_pkey''
                      \<lparr>tr_Timer = \<lparr>tm_ID = timerID, tm_WorkflowInstanceID = iid,
                                  tm_FireAt = timestamptz E fireAt, tm_TimerType = timerType, tm_Payload = p\<rparr>,
                       tr_Fired = False\<rparr> (timers d) of
                 Inl e \<Rightarrow> Inl e
               | Inr rows \<Rightarrow> Inr (timerID, d\<lparr>timers := rows\<rparr>)) w1)"

definition scan_timer :: "timer_row \<Rightarrow> go_error + gomap Timer" where
  "scan_timer r =
     (let t = tr_Timer r
      in case json_Unmarshal (tm_Payload t) of
           Inl e \<Rightarrow> Inl e
         | Inr m \<Rightarrow> Inr \<lparr>tm_ID = tm_ID t, tm_WorkflowInstanceID = tm_WorkflowInstanceID t,
                         tm_FireAt = tm_FireAt t, tm_TimerType = tm_TimerType t, tm_Payload = m\<rparr>)"

definition GetPendingTimers ::
  "'n environment \<Rightarrow> time \<Rightarrow> 'z world_scheme \<Rightarrow> (go_error + gomap Timer list) \<times> 'z world_scheme" where
  "GetPendingTimers E before w =
     (case db_rows E (\<lambda>n d. Inr (filter (\<lambda>t. \<not> tr_Fired t \<and>
             tm_FireAt (tr_Timer t) \<le> timestamptz E before) (timers d))) w of
        (Inl e, w1) \<Rightarrow> (Inl e, w1)
      | (Inr rows, w1) \<Rightarrow> (scan_rows scan_timer rows, w1))"

definition fired_row :: "timer_row \<Rightarrow> timer_row" where
  [row_defs]: "fired_row r = r\<lparr>tr_Fired := True\<rparr>"

definition MarkTimerFired ::
  "'n environment \<Rightarrow> uuid \<Rightarrow> 'z world_scheme \<Rightarrow> (go_error + unit) \<times> 'z world_scheme" where
  "MarkTimerFired E timerID =
     db_exec E (\<lambda>n d. Inr ((), d\<lparr>timers := sql_update (\<lambda>t. tm_ID (tr_Timer t) = timerID) fired_row (timers d)\<rparr>))"

section \<open>Tasks\<close>

text \<open>
  \<open>pq.Array\<close> of a nil slice is SQL \<open>NULL\<close>, which the columns \<open>capabilities\<close> and \<open>roles\<close>
  do not accept. \<open>created_at\<close> and \<open>updated_at\<close> are the columns' defaults; \<open>output\<close>,
  \<open>evidence\<close> and \<open>assigned_agent_id\<close> are not in the statement and start as \<open>NULL\<close>.
\<close>

definition CreateTask ::
  "'n environment \<Rightarrow> task \<Rightarrow> 'z world_scheme \<Rightarrow> (go_error + unit) \<times> 'z world_scheme" where
  "CreateTask E task w =
     (case json_Marshal (tk_Input task) of
        Inl e \<Rightarrow> (Inl e, w)
      | Inr input \<Rightarrow>
          db_exec E (\<lambda>n d.
            case (tk_Capabilities task, tk_Roles task) of
              (Some caps, Some roles) \<Rightarrow>
                if tk_WorkflowInstanceID task \<notin> wi_ID ` set (workflow_instances d)
                then Inl (ConstraintError ''tasks_fkey'')
                else if (case tk_ParentTaskID task of None \<Rightarrow> False | Some p \<Rightarrow> p \<notin> tk_ID ` set (tasks d))
                then Inl (ConstraintError ''tasks_parent_fkey'')
                else (case sql_insert tk_ID ''tasks_pkey''
                        \<lparr>tk_ID = tk_ID task, tk_WorkflowInstanceID = tk_WorkflowInstanceID task,
                         tk_StateName = tk_StateName task, tk_ActivityName = tk_ActivityName task,
                         tk_Capabilities = caps, tk_Roles = roles, tk_Input = input,
                         tk_Output = None, tk_Evidence = None, tk_Status = tk_Status task,
                         tk_AssignedAgentID = None,
                         tk_Deadline = map_option (timestamptz E) (tk_Deadline task),
                         tk_ParentTaskID = tk_ParentTaskID task,
                         tk_CreatedAt = clock E n, tk_UpdatedAt = clock E n\<rparr> (tasks d) of
                        Inl e \<Rightarrow> Inl e
                      | Inr rows \<Rightarrow> Inr ((), d\<lparr>tasks := rows\<rparr>))
            | _ \<Rightarrow> Inl (ConstraintError ''tasks_not_null'')) w)"

text \<open>
  \<open>scanTask\<close>: the nullable columns arrive as the JSON text \<open>null\<close> (\<open>COALESCE\<close>); a failing
  conversion of \<open>output\<close> or \<open>evidence\<close> is ignored and leaves the field nil.
\<close>

definition scan_optional :: "json option \<Rightarrow> gomap" where
  "scan_optional c =
     (let j = (case c of None \<Rightarrow> JNull | Some x \<Rightarrow> x)
      in if j = JNull then None else case json_Unmarshal j of Inl _ \<Rightarrow> None | Inr m \<Rightarrow> m)"

definition scanTask :: "task_row \<Rightarrow> go_error + task" where
  "scanTask r =
     (case json_Unmarshal (tk_Input r) of
        Inl e \<Rightarrow> Inl (Wrap ''unmarshal task input'' e)
      | Inr input \<Rightarrow>
          Inr \<lparr>tk_ID = tk_ID r, tk_WorkflowInstanceID = tk_WorkflowInstanceID r,
               tk_StateName = tk_StateName r, tk_ActivityName = tk_ActivityName r,
               tk_Capabilities = Some (tk_Capabilities r), tk_Roles = Some (tk_Roles r),
               tk_Input = input, tk_Output = scan_optional (tk_Output r),
               tk_Evidence = scan_optional (tk_Evidence r), tk_Status = tk_Status r,
               tk_AssignedAgentID = tk_AssignedAgentID r, tk_Deadline = tk_Deadline r,
               tk_ParentTaskID = tk_ParentTaskID r,
               tk_CreatedAt = tk_CreatedAt r, tk_UpdatedAt = tk_UpdatedAt r\<rparr>)"

definition scanTasks :: "task_row list \<Rightarrow> go_error + task list" where
  "scanTasks rows = scan_rows scanTask rows"

definition GetTask ::
  "'n environment \<Rightarrow> uuid \<Rightarrow> 'z world_scheme \<Rightarrow> (go_error + task) \<times> 'z world_scheme" where
  "GetTask E taskID w =
     (case db_rows E (\<lambda>n d. Inr (filter (\<lambda>r. tk_ID r = taskID) (tasks d))) w of
        (Inl e, w1) \<Rightarrow> (Inl (Wrap ''query task'' e), w1)
      | (Inr [], w1) \<Rightarrow> (Inl ErrTaskNotFound, w1)
      | (Inr (r # _), w1) \<Rightarrow> (scanTask r, w1))"

text \<open>\<open>capabilities && $1\<close>: the arrays have an element in common.\<close>

definition overlaps :: "string list \<Rightarrow> string list \<Rightarrow> bool" where
  "overlaps xs ys = (\<exists>x \<in> set xs. x \<in> set ys)"

definition pending_rows :: "string list \<Rightarrow> database \<Rightarrow> task_row list" where
  "pending_rows caps d =
     order_by_asc tk_CreatedAt
       (filter (\<lambda>r. tk_Status r = ''PENDING'' \<and> (caps \<noteq> [] \<longrightarrow> overlaps (tk_Capabilities r) caps)) (tasks d))"

definition GetPendingTasks ::
  "'n environment \<Rightarrow> string list \<Rightarrow> int \<Rightarrow> 'z world_scheme \<Rightarrow> (go_error + task list) \<times> 'z world_scheme" where
  "GetPendingTasks E capabilities maxRows w =
     (case db_rows E (\<lambda>n d. limit_offset maxRows 0 (pending_rows capabilities d)) w of
        (Inl e, w1) \<Rightarrow> (Inl e, w1)
      | (Inr rows, w1) \<Rightarrow> (scanTasks rows, w1))"

definition ListTasksForInstance ::
  "'n environment \<Rightarrow> uuid \<Rightarrow> string \<Rightarrow> int \<Rightarrow> int \<Rightarrow> 'z world_scheme \<Rightarrow>
   (go_error + task list) \<times> 'z world_scheme" where
  "ListTasksForInstance E iid statusFilter maxRows off w =
     (case db_rows E (\<lambda>n d.
             limit_offset maxRows off (order_by_asc tk_CreatedAt
               (filter (\<lambda>r. tk_WorkflowInstanceID r = iid \<and>
                  (statusFilter \<noteq> [] \<longrightarrow> tk_Status r = statusFilter)) (tasks d)))) w of
        (Inl e, w1) \<Rightarrow> (Inl e, w1)
      | (Inr rows, w1) \<Rightarrow> (scanTasks rows, w1))"

text \<open>The parameter \<open>tenant\<close> is not used by the query.\<close>

definition ListTasksForAgent ::
  "'n environment \<Rightarrow> string \<Rightarrow> string \<Rightarrow> string \<Rightarrow> 'z world_scheme \<Rightarrow>
   (go_error + task list) \<times> 'z world_scheme" where
  "ListTasksForAgent E agentID tenant statusFilter w =
     (case db_rows E (\<lambda>n d.
             Inr (order_by_asc tk_CreatedAt
               (filter (\<lambda>r. tk_AssignedAgentID r = Some agentID \<and>
                  (if statusFilter \<noteq> [] then tk_Status r = statusFilter
                   else tk_Status r \<in> {''PENDING'', ''ASSIGNED''})) (tasks d)))) w of
        (Inl e, w1) \<Rightarrow> (Inl e, w1)
      | (Inr rows, w1) \<Rightarrow> (scanTasks rows, w1))"

text \<open>The row updates of the \<open>UPDATE tasks\<close> statements.\<close>

definition assigned_row :: "string \<Rightarrow> time \<Rightarrow> time \<Rightarrow> task_row \<Rightarrow> task_row" where
  [row_defs]: "assigned_row agentID deadline now r =
     r\<lparr>tk_Status := ''ASSIGNED'', tk_AssignedAgentID := Some agentID, tk_Deadline := Some deadline,
       tk_UpdatedAt := now\<rparr>"

definition released_row :: "time \<Rightarrow> task_row \<Rightarrow> task_row" where
  [row_defs]: "released_row now r =
     r\<lparr>tk_Status := ''PENDING'', tk_AssignedAgentID := None, tk_Deadline := None, tk_UpdatedAt := now\<rparr>"

definition completed_row :: "json \<Rightarrow> time \<Rightarrow> task_row \<Rightarrow> task_row" where
  [row_defs]: "completed_row out now r =
     r\<lparr>tk_Status := ''COMPLETED'', tk_Output := Some out, tk_UpdatedAt := now\<rparr>"

definition evidenced_row :: "json \<Rightarrow> json \<Rightarrow> time \<Rightarrow> task_row \<Rightarrow> task_row" where
  [row_defs]: "evidenced_row out ev now r =
     r\<lparr>tk_Status := ''COMPLETED'', tk_Output := Some out, tk_Evidence := Some ev, tk_UpdatedAt := now\<rparr>"

definition failed_row :: "time \<Rightarrow> task_row \<Rightarrow> task_row" where
  [row_defs]: "failed_row now r = r\<lparr>tk_Status := ''FAILED'', tk_UpdatedAt := now\<rparr>"

definition deadline_row :: "time \<Rightarrow> time \<Rightarrow> task_row \<Rightarrow> task_row" where
  [row_defs]: "deadline_row deadline now r = r\<lparr>tk_Deadline := Some deadline, tk_UpdatedAt := now\<rparr>"

definition agent_row :: "string \<Rightarrow> time \<Rightarrow> task_row \<Rightarrow> task_row" where
  [row_defs]: "agent_row agentID now r = r\<lparr>tk_AssignedAgentID := Some agentID, tk_UpdatedAt := now\<rparr>"

text \<open>\<open>UPDATE tasks SET upd WHERE P\<close>, returning the number of rows.\<close>

definition exec_tasks ::
  "'n environment \<Rightarrow> (task_row \<Rightarrow> bool) \<Rightarrow> (time \<Rightarrow> task_row \<Rightarrow> task_row) \<Rightarrow> 'z world_scheme \<Rightarrow>
   (go_error + nat) \<times> 'z world_scheme" where
  "exec_tasks E P upd =
     db_exec E (\<lambda>n d. Inr (rows_affected P (tasks d), d\<lparr>tasks := sql_update P (upd (clock E n)) (tasks d)\<rparr>))"

definition ignore_rows :: "(go_error + nat) \<times> 'w \<Rightarrow> (go_error + unit) \<times> 'w" where
  "ignore_rows r = (case r of (Inl e, w) \<Rightarrow> (Inl e, w) | (Inr _, w) \<Rightarrow> (Inr (), w))"

text \<open>\<open>n, _ := res.RowsAffected(); if n == 0 { return e }\<close>\<close>

definition require_rows :: "go_error \<Rightarrow> (go_error + nat) \<times> 'w \<Rightarrow> (go_error + unit) \<times> 'w" where
  "require_rows err r =
     (case r of (Inl e, w) \<Rightarrow> (Inl e, w) | (Inr n, w) \<Rightarrow> (if n = 0 then Inl err else Inr (), w))"

definition AssignTask ::
  "'n environment \<Rightarrow> uuid \<Rightarrow> string \<Rightarrow> time \<Rightarrow> 'z world_scheme \<Rightarrow> (go_error + unit) \<times> 'z world_scheme" where
  "AssignTask E taskID agentID deadline w =
     ignore_rows (exec_tasks E (\<lambda>r. tk_ID r = taskID \<and> tk_Status r = ''PENDING'')
       (assigned_row agentID (timestamptz E deadline)) w)"

definition ClaimTask ::
  "'n environment \<Rightarrow> uuid \<Rightarrow> string \<Rightarrow> time \<Rightarrow> 'z world_scheme \<Rightarrow> (go_error + unit) \<times> 'z world_scheme" where
  "ClaimTask E taskID agentID deadline w =
     require_rows ErrTaskNotClaimable
       (wrap_err ''claim task''
         (exec_tasks E (\<lambda>r. tk_ID r = taskID \<and> tk_Status r = ''PENDING'')
           (assigned_row agentID (timestamptz E deadline)) w))"

definition ReleaseTask ::
  "'n environment \<Rightarrow> uuid \<Rightarrow> string \<Rightarrow> 'z world_scheme \<Rightarrow> (go_error + unit) \<times> 'z world_scheme" where
  "ReleaseTask E taskID agentID w =
     require_rows (ErrorText (''task not found or not assigned to agent '' @ agentID))
       (wrap_err ''release task''
         (exec_tasks E (\<lambda>r. tk_ID r = taskID \<and> tk_AssignedAgentID r = Some agentID \<and> tk_Status r = ''ASSIGNED'')
           released_row w))"

definition store_CompleteTask ::
  "'n environment \<Rightarrow> uuid \<Rightarrow> gomap \<Rightarrow> 'z world_scheme \<Rightarrow> (go_error + unit) \<times> 'z world_scheme" where
  "store_CompleteTask E taskID result w =
     (case json_Marshal result of
        Inl e \<Rightarrow> (Inl (Wrap ''marshal task output'' e), w)
      | Inr out \<Rightarrow> ignore_rows (exec_tasks E (\<lambda>r. tk_ID r = taskID) (completed_row out) w))"

definition CompleteTaskWithEvidence ::
  "'n environment \<Rightarrow> uuid \<Rightarrow> gomap \<Rightarrow> gomap \<Rightarrow> 'z world_scheme \<Rightarrow>
   (go_error + unit) \<times> 'z world_scheme" where
  "CompleteTaskWithEvidence E taskID result evidence w =
     (case json_Marshal result of
        Inl e \<Rightarrow> (Inl (Wrap ''marshal task output'' e), w)
      | Inr out \<Rightarrow>
          (case json_Marshal evidence of
             Inl e \<Rightarrow> (Inl (Wrap ''marshal evidence'' e), w)
           | Inr ev \<Rightarrow> ignore_rows (exec_tasks E (\<lambda>r. tk_ID r = taskID) (evidenced_row out ev) w)))"

text \<open>The parameter \<open>errorDetails\<close> is not stored.\<close>

definition store_FailTask ::
  "'n environment \<Rightarrow> uuid \<Rightarrow> gomap \<Rightarrow> 'z world_scheme \<Rightarrow> (go_error + unit) \<times> 'z world_scheme" where
  "store_FailTask E taskID errorDetails w =
     ignore_rows (exec_tasks E (\<lambda>r. tk_ID r = taskID) failed_row w)"

definition ExtendTaskDeadline ::
  "'n environment \<Rightarrow> uuid \<Rightarrow> time \<Rightarrow> 'z world_scheme \<Rightarrow> (go_error + unit) \<times> 'z world_scheme" where
  "ExtendTaskDeadline E taskID newDeadline w =
     require_rows (ErrorText ''task not found or not in ASSIGNED state'')
       (exec_tasks E (\<lambda>r. tk_ID r = taskID \<and> tk_Status r = ''ASSIGNED'') 
         (deadline_row (timestamptz E newDeadline)) w)"

definition ReassignTask ::
  "'n environment \<Rightarrow> uuid \<Rightarrow> string \<Rightarrow> string \<Rightarrow> 'z world_scheme \<Rightarrow>
   (go_error + unit) \<times> 'z world_scheme" where
  "ReassignTask E taskID fromAgentID toAgentID w =
     require_rows (ErrorText (''task not found or not assigned to agent '' @ fromAgentID))
       (exec_tasks E (\<lambda>r. tk_ID r = taskID \<and> tk_AssignedAgentID r = Some fromAgentID)
         (if toAgentID = [] then released_row else agent_row toAgentID) w)"

definition open_status :: "string \<Rightarrow> bool" where
  "open_status st = (st = ''PENDING'' \<or> st = ''ASSIGNED'')"

definition open_tasks :: "uuid \<Rightarrow> database \<Rightarrow> task_row list" where
  "open_tasks iid d = filter (\<lambda>r. tk_WorkflowInstanceID r = iid \<and> open_status (tk_Status r)) (tasks d)"

definition CountPendingTasks ::
  "'n environment \<Rightarrow> uuid \<Rightarrow> 'z world_scheme \<Rightarrow> (go_error + nat) \<times> 'z world_scheme" where
  "CountPendingTasks E iid = db_query E (\<lambda>n d. Inr (length (open_tasks iid d)))"

section \<open>Task audit log\<close>

text \<open>The statement leaves \<open>id\<close> and \<open>occurred_at\<close> to the columns' defaults.\<close>

definition AppendTaskAudit ::
  "'n environment \<Rightarrow> gomap TaskAuditEntry \<Rightarrow> 'z world_scheme \<Rightarrow>
   (go_error + unit) \<times> 'z world_scheme" where
  "AppendTaskAudit E entry w =
     (case json_Marshal (ae_Data entry) of
        Inl e \<Rightarrow> (Inl (Wrap ''marshal audit data'' e), w)
      | Inr data \<Rightarrow>
          db_exec E (\<lambda>n d.
            if ae_TaskID entry \<notin> tk_ID ` set (tasks d) then Inl (ConstraintError ''task_audit_log_fkey'')
            else case sql_insert ae_ID ''task_audit_log_pkey''
                   \<lparr>ae_ID = fresh_uuid E n, ae_TaskID = ae_TaskID entry, ae_EventType = ae_EventType entry,
                    ae_AgentID = ae_AgentID entry, ae_Message = ae_Message entry, ae_Data = data,
                    ae_OccurredAt = clock E n\<rparr> (task_audit_log d) of
              Inl e \<Rightarrow> Inl e
            | Inr rows \<Rightarrow> Inr ((), d\<lparr>task_audit_log := rows\<rparr>)) w)"

definition scan_audit :: "json TaskAuditEntry \<Rightarrow> go_error + gomap TaskAuditEntry" where
  "scan_audit r =
     (case json_Unmarshal (ae_Data r) of
        Inl e \<Rightarrow> Inl e
      | Inr m \<Rightarrow> Inr \<lparr>ae_ID = ae_ID r, ae_TaskID = ae_TaskID r, ae_EventType = ae_EventType r,
                      ae_AgentID = ae_AgentID r, ae_Message = ae_Message r, ae_Data = m,
                      ae_OccurredAt = ae_OccurredAt r\<rparr>)"

definition GetTaskAuditLog ::
  "'n environment \<Rightarrow> uuid \<Rightarrow> 'z world_scheme \<Rightarrow>
   (go_error + gomap TaskAuditEntry list) \<times> 'z world_scheme" where
  "GetTaskAuditLog E taskID w =
     (case db_rows E (\<lambda>n d.
             Inr (order_by_asc ae_OccurredAt (filter (\<lambda>r. ae_TaskID r = taskID) (task_audit_log d)))) w of
        (Inl e, w1) \<Rightarrow> (Inl e, w1)
      | (Inr rows, w1) \<Rightarrow> (scan_rows scan_audit rows, w1))"

section \<open>Placeholders\<close>

text \<open>\<open>buildPlaceholders\<close>, which nothing calls; \<open>make\<close> panics on a negative length (\<open>None\<close>).\<close>

definition buildPlaceholders :: "int \<Rightarrow> string option" where
  "buildPlaceholders n =
     (if n < 0 then None
      else Some (strings_Join (map (\<lambda>i. CHR ''$'' # decimal (i + 1)) [0..<nat n]) '',''))"

section \<open>The updates keep the primary key\<close>

interpretation fired: key_update "\<lambda>t. tm_ID (tr_Timer t)" fired_row
  by unfold_locales (simp add: row_defs)

interpretation assigned: key_update tk_ID "assigned_row a dl now" for a dl now
  by unfold_locales (simp add: row_defs)

interpretation released: key_update tk_ID "released_row now" for now
  by unfold_locales (simp add: row_defs)

interpretation completed: key_update tk_ID "completed_row out now" for out now
  by unfold_locales (simp add: row_defs)

interpretation evidenced: key_update tk_ID "evidenced_row out ev now" for out ev now
  by unfold_locales (simp add: row_defs)

interpretation failed: key_update tk_ID "failed_row now" for now
  by unfold_locales (simp add: row_defs)

interpretation deadline: key_update tk_ID "deadline_row dl now" for dl now
  by unfold_locales (simp add: row_defs)

interpretation agent: key_update tk_ID "agent_row a now" for a now
  by unfold_locales (simp add: row_defs)

end
