(* ===== verification/Definition_Registry.thy ===== *)
theory Definition_Registry
  imports Store_Tasks
begin

text \<open>
  Workflow definitions: the three methods of \<open>PostgresStore\<close> on the table
  \<open>workflow_definitions\<close>, and \<^verbatim>\<open>internal/runtime/definition_registry.go\<close>, which puts a
  cache with a five minute expiry in front of the table and falls back to files.
\<close>

section \<open>The table\<close>

text \<open>
  \<open>name ILIKE '%f%'\<close>: the wildcards of the pattern are \<open>%\<close> and \<open>_\<close>, a backslash quotes
  the next character, letters match in either case (ASCII).
\<close>

definition ascii_lower :: "char \<Rightarrow> char" where
  "ascii_lower c = (let k = (of_char c :: nat) in if 65 \<le> k \<and> k \<le> 90 then char_of (k + 32) else c)"

fun ilike :: "string \<Rightarrow> string \<Rightarrow> bool" where
  "ilike [] s = (s = [])"
| "ilike (p # ps) s =
     (if p = CHR ''%'' then ilike ps s \<or> (case s of [] \<Rightarrow> False | _ # cs \<Rightarrow> ilike (p # ps) cs)
      else case s of
        [] \<Rightarrow> False
      | c # cs \<Rightarrow>
          if p = CHR 0x5C \<and> ps \<noteq> [] then
            (case ps of
               [] \<Rightarrow> False
             | q # qs \<Rightarrow> ascii_lower c = ascii_lower q \<and> ilike qs cs)
          else (p = CHR ''_'' \<or> ascii_lower c = ascii_lower p) \<and> ilike ps cs)"

definition scan_definition :: "string option WorkflowDefinitionRow \<Rightarrow> string WorkflowDefinitionRow" where
  "scan_definition r =
     \<lparr>dr_ID = dr_ID r, dr_TenantID = dr_TenantID r, dr_Name = dr_Name r,
      dr_DefinitionID = dr_DefinitionID r, dr_Version = dr_Version r,
      dr_YAMLContent = dr_YAMLContent r,
      dr_CreatedBy = (case dr_CreatedBy r of None \<Rightarrow> [] | Some c \<Rightarrow> c),
      dr_CreatedAt = dr_CreatedAt r, dr_UpdatedAt = dr_UpdatedAt r\<rparr>"

definition ListWorkflowDefinitions ::
  "'n environment \<Rightarrow> ListDefinitionsFilter \<Rightarrow> 'z world_scheme \<Rightarrow>
   (go_error + string WorkflowDefinitionRow list) \<times> 'z world_scheme" where
  "ListWorkflowDefinitions E f w =
     (case db_rows E (\<lambda>n d.
             let selected = filter (\<lambda>r.
                   (ldf_TenantID f \<noteq> [] \<longrightarrow> dr_TenantID r = ldf_TenantID f) \<and>
                   (ldf_NameFilter f \<noteq> [] \<longrightarrow> ilike (''%'' @ ldf_NameFilter f @ ''%'') (dr_Name r)))
                   (workflow_definitions d);
                 ordered = order_by_desc dr_CreatedAt selected
             in if ldf_Limit f > 0 then limit_offset (ldf_Limit f) (ldf_Offset f) ordered
                else Inr ordered) w of
        (Inl e, w1) \<Rightarrow> (Inl (Wrap ''list workflow definitions'' e), w1)
      | (Inr rows, w1) \<Rightarrow> (Inr (map scan_definition rows), w1))"

definition DeleteWorkflowDefinition ::
  "'n environment \<Rightarrow> uuid \<Rightarrow> 'z world_scheme \<Rightarrow> (go_error + unit) \<times> 'z world_scheme" where
  "DeleteWorkflowDefinition E i w =
     require_rows (ErrorText ''workflow definition not found'')
       (wrap_err ''delete workflow definition''
         (db_exec E (\<lambda>n d.
            Inr (rows_affected (\<lambda>r. dr_ID r = i) (workflow_definitions d),
                 d\<lparr>workflow_definitions := sql_delete (\<lambda>r. dr_ID r = i) (workflow_definitions d)\<rparr>)) w))"

definition yaml_row :: "string \<Rightarrow> time \<Rightarrow> 'c WorkflowDefinitionRow \<Rightarrow> 'c WorkflowDefinitionRow" where
  [row_defs]: "yaml_row text now r =
     r\<lparr>dr_YAMLContent := text, dr_Version := dr_Version r + 1, dr_UpdatedAt := now\<rparr>"

text \<open>The key of \<open>UNIQUE(tenant_id, definition_id, version)\<close>.\<close>

definition version_key :: "'c WorkflowDefinitionRow \<Rightarrow> string \<times> string \<times> int" where
  "version_key r = (dr_TenantID r, dr_DefinitionID r, dr_Version r)"

text \<open>The new version must not collide with a row of the same definition.\<close>

definition UpdateWorkflowDefinitionYAML ::
  "'n environment \<Rightarrow> uuid \<Rightarrow> string \<Rightarrow> 'z world_scheme \<Rightarrow> (go_error + unit) \<times> 'z world_scheme" where
  "UpdateWorkflowDefinitionYAML E i text =
     db_exec E (\<lambda>n d.
       let rows = sql_update (\<lambda>r. dr_ID r = i) (yaml_row text (clock E n)) (workflow_definitions d)
       in if distinct (map version_key rows) then Inr ((), d\<lparr>workflow_definitions := rows\<rparr>)
          else Inl (ConstraintError ''workflow_definitions_key''))"

interpretation yaml_text: key_update dr_ID "yaml_row content now" for content now
  by unfold_locales (simp add: row_defs)

section \<open>The registry\<close>

record cachedDefinition =
  cd_def :: WorkflowDefinition
  cd_expiresAt :: time

text \<open>\<open>reg_has_db\<close> is \<open>r.db != nil\<close>; the cache is the \<open>sync.Map\<close>.\<close>

record registry_world = world +
  reg_has_db :: bool
  reg_cache :: "string \<Rightarrow> cachedDefinition option"

text \<open>
  The driver sends the version as text and PostgreSQL reads it into an \<open>INT\<close> column: an
  optional sign and digits, within 32 bits.
\<close>

definition int4_of_text :: "string \<Rightarrow> int option" where
  "int4_of_text s =
     (let neg = (s \<noteq> [] \<and> hd s = CHR ''-'');
          ds = (if s \<noteq> [] \<and> (hd s = CHR ''-'' \<or> hd s = CHR ''+'') then tl s else s);
          v = (if neg then - digits_value ds else digits_value ds)
      in if ds \<noteq> [] \<and> list_all is_digit ds \<and> - 2147483648 \<le> v \<and> v \<le> 2147483647
         then Some v else None)"

definition upsert_row :: "WorkflowDefinition \<Rightarrow> time \<Rightarrow> 'c WorkflowDefinitionRow \<Rightarrow> 'c WorkflowDefinitionRow" where
  [row_defs]: "upsert_row def now r =
     r\<lparr>dr_Name := wd_Name def, dr_YAMLContent := wd_YAML def, dr_UpdatedAt := now\<rparr>"

text \<open>\<open>INSERT ... ON CONFLICT (tenant_id, definition_id, version) DO UPDATE\<close>\<close>

definition upsert_definition ::
  "uuid \<Rightarrow> WorkflowDefinition \<Rightarrow> time \<Rightarrow> database \<Rightarrow> go_error + unit \<times> database" where
  "upsert_definition i def now d =
     (case int4_of_text (wd_Version def) of
        None \<Rightarrow> Inl (ErrorText ''invalid input syntax for type integer'')
      | Some v \<Rightarrow>
          if wd_Tenant def \<notin> te_ID ` set (tenants d) then Inl (ConstraintError ''workflow_definitions_tenant_fkey'')
          else let hit = (\<lambda>r. version_key r = (wd_Tenant def, wd_ID def, v))
               in if rows_affected hit (workflow_definitions d) > 0
                  then Inr ((), d\<lparr>workflow_definitions := sql_update hit (upsert_row def now) (workflow_definitions d)\<rparr>)
                  else (case sql_insert dr_ID ''workflow_definitions_pkey''
                          \<lparr>dr_ID = i, dr_TenantID = wd_Tenant def, dr_Name = wd_Name def,
                           dr_DefinitionID = wd_ID def, dr_Version = v, dr_YAMLContent = wd_YAML def,
                           dr_CreatedBy = None, dr_CreatedAt = now, dr_UpdatedAt = now\<rparr>
                          (workflow_definitions d) of
                          Inl e \<Rightarrow> Inl e
                        | Inr rows \<Rightarrow> Inr ((), d\<lparr>workflow_definitions := rows\<rparr>)))"

interpretation upsert: key_update dr_ID "upsert_row def now" for def now
  by unfold_locales (simp add: row_defs)

definition reg_Store ::
  "'n environment \<Rightarrow> WorkflowDefinition \<Rightarrow> 'z registry_world_scheme \<Rightarrow>
   (go_error + unit) \<times> 'z registry_world_scheme" where
  "reg_Store E def w =
     (if \<not> reg_has_db w then (Inl (ErrorText ''no database connection''), w)
      else if wd_YAML def = [] then (Inl (ErrorText ''YAML content is required to store definition''), w)
      else if wd_Tenant def = [] then (Inl (ErrorText ''tenant UUID is required to store definition''), w)
      else let (i, w1) = uuid_New E w
           in case db_exec E (\<lambda>n. upsert_definition i def (clock E n)) w1 of
                (Inl e, w2) \<Rightarrow> (Inl (Wrap ''store workflow definition'' e), w2)
              | (Inr _, w2) \<Rightarrow> (Inr (), w2\<lparr>reg_cache := (reg_cache w2)(wd_ID def := None)\<rparr>))"

definition getFromFile ::
  "'n environment \<Rightarrow> string \<Rightarrow> 'z registry_world_scheme \<Rightarrow>
   (go_error + WorkflowDefinition) \<times> 'z registry_world_scheme" where
  "getFromFile E i w =
     (let path = ''workflows/'' @ i @ ''.yaml''
      in case ParseFile (yaml E) (read_file E (tick w)) path of
           Inl e \<Rightarrow> (Inl e, next_tick w)
         | Inr def \<Rightarrow> (Inr def, snd (reg_Store E def (next_tick w))))"

text \<open>\<open>SELECT yaml_content ... WHERE definition_id = $1 ORDER BY version DESC LIMIT 1\<close>\<close>

definition latest_yaml :: "string \<Rightarrow> database \<Rightarrow> go_error + string" where
  "latest_yaml i d =
     (case first_row (order_by_desc dr_Version (filter (\<lambda>r. dr_DefinitionID r = i) (workflow_definitions d))) of
        Inl e \<Rightarrow> Inl e
      | Inr r \<Rightarrow> Inr (dr_YAMLContent r))"

definition five_minutes :: time where
  "five_minutes = 300000000000"

definition reg_load ::
  "'n environment \<Rightarrow> string \<Rightarrow> 'z registry_world_scheme \<Rightarrow>
   (go_error + WorkflowDefinition) \<times> 'z registry_world_scheme" where
  "reg_load E i w =
     (case db_query E (\<lambda>n d. latest_yaml i d) w of
        (Inr text, w1) \<Rightarrow>
          (case Parse (yaml E) text of
             Inl e \<Rightarrow> (Inl (Wrap ''parse YAML from database'' e), w1)
           | Inr def \<Rightarrow>
               let (now, w2) = time_Now E w1
               in (Inr def, w2\<lparr>reg_cache := (reg_cache w2)(i \<mapsto>
                     \<lparr>cd_def = def, cd_expiresAt = now + five_minutes\<rparr>)\<rparr>))
      | (Inl e, w1) \<Rightarrow>
          if errors_Is e ErrNoRows then getFromFile E i w1
          else (Inl (Wrap ''query workflow definition'' e), w1))"

definition reg_Get ::
  "'n environment \<Rightarrow> string \<Rightarrow> 'z registry_world_scheme \<Rightarrow>
   (go_error + WorkflowDefinition) \<times> 'z registry_world_scheme" where
  "reg_Get E i w =
     (case reg_cache w i of
        Some c \<Rightarrow>
          let (now, w1) = time_Now E w
          in if now < cd_expiresAt c then (Inr (cd_def c), w1)
             else reg_load E i (w1\<lparr>reg_cache := (reg_cache w1)(i := None)\<rparr>)
      | None \<Rightarrow> reg_load E i w)"

end
