(* ===== verification/Engine.thy ===== *)
theory Engine
  imports Definition_Registry
begin

text \<open>
  \<^verbatim>\<open>internal/runtime/engine.go\<close>: the engine that runs workflow instances. A \<open>go\<close> statement
  adds a job to the list of goroutines of the process; \<open>run_job\<close> runs one. Log output is not
  modelled.
\<close>

datatype job =
    Job_executeWorkflow uuid WorkflowDefinition
  | Job_resumeWorkflowAfterTask uuid
  | Job_advanceFromState "gomap WorkflowInstance" "HistoryEvent list" state WorkflowDefinition

record engine_world = registry_world +
  goroutines :: "job list"

definition go :: "job \<Rightarrow> 'z engine_world_scheme \<Rightarrow> 'z engine_world_scheme" where
  "go j w = w\<lparr>goroutines := goroutines w @ [j]\<rparr>"

definition SetRabbitMQChannel :: "'n environment \<Rightarrow> 'n environment" where
  "SetRabbitMQChannel E = E\<lparr>rabbit_channel := True\<rparr>"

section \<open>Starting an instance\<close>

definition StartWorkflow ::
  "'n environment \<Rightarrow> WorkflowDefinition \<Rightarrow> string \<Rightarrow> gomap \<Rightarrow> 'z world_scheme \<Rightarrow>
   (go_error + uuid) \<times> 'z world_scheme" where
  "StartWorkflow E def tenant input w =
     (let (instanceID, w1) = uuid_New E w;
          (now, w2) = time_Now E w1;
          inst = \<lparr>wi_ID = instanceID, wi_WorkflowDefinitionID = wd_ID def, wi_Tenant = tenant,
                  wi_Status = ''RUNNING'', wi_CurrentPhase = wd_Start def,
                  wi_DimensionalState = input, wi_Version = 0, wi_CreatedAt = now,
                  wi_UpdatedAt = now\<rparr>
      in case CreateWorkflowInstance E inst w2 of
           (Inl e, w3) \<Rightarrow> (Inl (Wrap ''create instance'' e), w3)
         | (Inr _, w3) \<Rightarrow>
             let event = \<lparr>he_SequenceNum = 1, he_EventType = ''WorkflowStarted'',
                          he_Payload = Some [(''definition_id'', JStr (wd_ID def)),
                                             (''tenant'', JStr tenant),
                                             (''input'', json_of_map input)],
                          he_RecordedAt = now\<rparr>
             in case AppendEvents E instanceID 0 [event] w3 of
                  (Inl e, w4) \<Rightarrow> (Inl (Wrap ''append start event'' e), w4)
                | (Inr _, w4) \<Rightarrow> (Inr instanceID, w4))"

section \<open>The state machine\<close>

text \<open>\<open>findState\<close>: the first state with the name.\<close>

definition findState :: "WorkflowDefinition \<Rightarrow> string \<Rightarrow> state option" where
  "findState def name = find (\<lambda>s. GetName s = name) (wd_States def)"

definition publishTask :: "'n environment \<Rightarrow> task \<Rightarrow> 'z world_scheme \<Rightarrow> 'z world_scheme" where
  "publishTask E task w =
     (case json_Marshal (Some [(''task_id'', JStr (uuid_String E (tk_ID task))),
                               (''workflow_id'', JStr (uuid_String E (tk_WorkflowInstanceID task))),
                               (''activity'', JStr (tk_ActivityName task)),
                               (''capabilities'', json_of_strings (tk_Capabilities task)),
                               (''roles'', json_of_strings (tk_Roles task)),
                               (''input'', json_of_map (tk_Input task))]) of
        Inl e \<Rightarrow> w
      | Inr body \<Rightarrow>
          let routingKey = (case tk_Capabilities task of
                              Some (c # _) \<Rightarrow> ''task.'' @ c
                            | _ \<Rightarrow> ''task.generic'')
          in if publish_ok E (tick w)
             then next_tick (w\<lparr>broker := broker w @ [(''awm.tasks'', routingKey, body)]\<rparr>)
             else next_tick w)"

text \<open>\<open>if len(x) == 0 { x = []string{} }\<close>\<close>

definition non_nil :: "string list option \<Rightarrow> string list option" where
  "non_nil xs = (if xs = None \<or> xs = Some [] then Some [] else xs)"

definition task_of_action :: "uuid \<Rightarrow> uuid \<Rightarrow> BaseState \<Rightarrow> Action \<Rightarrow> task" where
  "task_of_action taskID iid b action =
     \<lparr>tk_ID = taskID, tk_WorkflowInstanceID = iid, tk_StateName = bs_Name b,
      tk_ActivityName = ac_Name action, tk_Capabilities = non_nil (ac_Capabilities action),
      tk_Roles = non_nil (ac_Roles action), tk_Input = ac_Arguments action, tk_Output = None,
      tk_Evidence = None, tk_Status = ''PENDING'', tk_AssignedAgentID = None, tk_Deadline = None,
      tk_ParentTaskID = None, tk_CreatedAt = 0, tk_UpdatedAt = 0\<rparr>"

definition scheduled_event :: "string \<Rightarrow> int \<Rightarrow> BaseState \<Rightarrow> Action \<Rightarrow> time \<Rightarrow> HistoryEvent" where
  "scheduled_event taskText seq b action now =
     \<lparr>he_SequenceNum = seq, he_EventType = ''TaskScheduled'',
      he_Payload = Some [(''task_id'', JStr taskText), (''activity'', JStr (ac_Name action)),
                         (''capabilities'', json_of_strings (ac_Capabilities action)),
                         (''roles'', json_of_strings (ac_Roles action)),
                         (''state'', JStr (bs_Name b))],
      he_RecordedAt = now\<rparr>"

text \<open>
  The loop over the actions of an operation state, from index \<open>i\<close>. \<open>False\<close> is the early
  return after a failed \<open>CreateTask\<close>. The result of \<open>AppendEvents\<close> is dropped.
\<close>

fun schedule_actions ::
  "'n environment \<Rightarrow> gomap WorkflowInstance \<Rightarrow> nat \<Rightarrow> BaseState \<Rightarrow> nat \<Rightarrow> Action list \<Rightarrow>
   'z world_scheme \<Rightarrow> bool \<times> 'z world_scheme" where
  "schedule_actions E inst nevents b i [] w = (True, w)"
| "schedule_actions E inst nevents b i (action # actions) w =
     (let (taskID, w1) = uuid_New E w;
          task = task_of_action taskID (wi_ID inst) b action
      in case CreateTask E task w1 of
           (Inl e, w2) \<Rightarrow> (False, snd (UpdateWorkflowStatus E (wi_ID inst) ''FAILED'' w2))
         | (Inr _, w2) \<Rightarrow>
             let (now, w3) = time_Now E w2;
                 event = scheduled_event (uuid_String E taskID) (int (nevents + i + 1)) b action now;
                 (_, w4) = AppendEvents E (wi_ID inst) (wi_Version inst) [event] w3;
                 w5 = (if rabbit_channel E then publishTask E task w4 else w4)
             in schedule_actions E inst nevents b (Suc i) actions w5)"

definition engine_event :: "int \<Rightarrow> string \<Rightarrow> (string \<times> json) list \<Rightarrow> time \<Rightarrow> HistoryEvent" where
  "engine_event seq typ payload now =
     \<lparr>he_SequenceNum = seq, he_EventType = typ, he_Payload = Some payload, he_RecordedAt = now\<rparr>"

text \<open>
  \<open>advanceFromState\<close> up to its call of \<open>executeWorkflow\<close>: \<open>Inr True\<close> says that the call
  follows. A failed \<open>AppendEvents\<close> is logged only.
\<close>

definition advance_step ::
  "'n environment \<Rightarrow> gomap WorkflowInstance \<Rightarrow> HistoryEvent list \<Rightarrow> state \<Rightarrow> 'z world_scheme \<Rightarrow>
   (go_error + bool) \<times> 'z world_scheme" where
  "advance_step E inst evs st w =
     (if End st then
        let (now, w1) = time_Now E w;
            completed = engine_event (int (length evs) + 1) ''WorkflowCompleted''
                          [(''state'', JStr (GetName st))] now;
            (_, w2) = AppendEvents E (wi_ID inst) (wi_Version inst) [completed] w1
        in case UpdateWorkflowStatus E (wi_ID inst) ''COMPLETED'' w2 of
             (Inl e, w3) \<Rightarrow> (Inl (Wrap ''mark COMPLETED'' e), w3)
           | (Inr _, w3) \<Rightarrow> (Inr False, w3)
      else if GetTransition st = [] then
        (case UpdateWorkflowStatus E (wi_ID inst) ''FAILED'' w of
           (Inl e, w1) \<Rightarrow> (Inl e, w1)
         | (Inr _, w1) \<Rightarrow> (Inr False, w1))
      else
        let (now, w1) = time_Now E w;
            transition = engine_event (int (length evs) + 1) ''StateTransitioned''
                           [(''from'', JStr (GetName st)), (''to'', JStr (GetTransition st))] now;
            (_, w2) = AppendEvents E (wi_ID inst) (wi_Version inst) [transition] w1
        in case UpdateCurrentPhase E (wi_ID inst) (GetTransition st) w2 of
             (Inl e, w3) \<Rightarrow> (Inl (Wrap ''update current phase'' e), w3)
           | (Inr _, w3) \<Rightarrow> (Inr True, w3))"

text \<open>
  The state handlers; the boolean says whether \<open>executeWorkflow\<close> is entered again. An error
  of \<open>advanceFromState\<close> is logged only.
\<close>

definition processOperationState ::
  "'n environment \<Rightarrow> gomap WorkflowInstance \<Rightarrow> HistoryEvent list \<Rightarrow> BaseState \<Rightarrow> Action list \<Rightarrow>
   'z world_scheme \<Rightarrow> bool \<times> 'z world_scheme" where
  "processOperationState E inst evs b actions w =
     (case schedule_actions E inst (length evs) b 0 actions w of
        (False, w1) \<Rightarrow> (False, w1)
      | (True, w1) \<Rightarrow>
          if actions = [] then
            (case advance_step E inst evs (OperationState b actions) w1 of
               (Inl e, w2) \<Rightarrow> (False, w2)
             | (Inr again, w2) \<Rightarrow> (again, w2))
          else (False, w1))"

definition processDelayState ::
  "'n environment \<Rightarrow> gomap WorkflowInstance \<Rightarrow> HistoryEvent list \<Rightarrow> BaseState \<Rightarrow> string \<Rightarrow>
   'z world_scheme \<Rightarrow> 'z world_scheme" where
  "processDelayState E inst evs b duration w =
     (case ParseDuration (float_oob E) duration of
        Inl e \<Rightarrow> snd (UpdateWorkflowStatus E (wi_ID inst) ''FAILED'' w)
      | Inr d \<Rightarrow>
          let (now, w1) = time_Now E w;
              fireAt = now + sint d
          in case CreateTimer E (wi_ID inst) fireAt ''delay''
                    (Some [(''next_state'', JStr (bs_Transition b))]) w1 of
               (Inl e, w2) \<Rightarrow> snd (UpdateWorkflowStatus E (wi_ID inst) ''FAILED'' w2)
             | (Inr _, w2) \<Rightarrow>
                 let (now', w3) = time_Now E w2;
                     event = engine_event (int (length evs) + 1) ''TimerScheduled''
                               [(''fire_at'', JStr (time_text E fireAt)),
                                (''next_state'', JStr (bs_Transition b))] now'
                 in snd (AppendEvents E (wi_ID inst) (wi_Version inst) [event] w3))"

definition processState ::
  "'n environment \<Rightarrow> gomap WorkflowInstance \<Rightarrow> HistoryEvent list \<Rightarrow> state \<Rightarrow> 'z world_scheme \<Rightarrow>
   bool \<times> 'z world_scheme" where
  "processState E inst evs st w =
     (case st of
        OperationState b actions \<Rightarrow> processOperationState E inst evs b actions w
      | DelayState b duration \<Rightarrow> (False, processDelayState E inst evs b duration w)
      | OtherState b \<Rightarrow> (False, snd (UpdateWorkflowStatus E (wi_ID inst) ''FAILED'' w)))"

text \<open>One round of \<open>executeWorkflow\<close>.\<close>

definition execute_step ::
  "'n environment \<Rightarrow> uuid \<Rightarrow> WorkflowDefinition \<Rightarrow> 'z world_scheme \<Rightarrow> bool \<times> 'z world_scheme" where
  "execute_step E iid def w =
     (case LoadInstance E iid w of
        (Inl e, w1) \<Rightarrow> (False, w1)
      | (Inr (inst, evs), w1) \<Rightarrow>
          if wi_CurrentPhase inst = [] then (False, snd (UpdateWorkflowStatus E iid ''FAILED'' w1))
          else (case findState def (wi_CurrentPhase inst) of
                  None \<Rightarrow> (False, snd (UpdateWorkflowStatus E iid ''FAILED'' w1))
                | Some st \<Rightarrow> processState E inst evs st w1))"

text \<open>
  \<open>executeWorkflow\<close> re-enters itself through states without actions; nothing bounds that, so
  the model is partial: \<open>None\<close> is a run that never returns.
\<close>

partial_function (option) executeWorkflow ::
  "'n environment \<Rightarrow> uuid \<Rightarrow> WorkflowDefinition \<Rightarrow> 'z world_scheme \<Rightarrow> 'z world_scheme option" where
  "executeWorkflow E iid def w =
     (case execute_step E iid def w of
        (again, w1) \<Rightarrow> if again then executeWorkflow E iid def w1 else Some w1)"

definition advanceFromState ::
  "'n environment \<Rightarrow> gomap WorkflowInstance \<Rightarrow> HistoryEvent list \<Rightarrow> state \<Rightarrow> WorkflowDefinition \<Rightarrow>
   'z world_scheme \<Rightarrow> ((go_error + unit) \<times> 'z world_scheme) option" where
  "advanceFromState E inst evs st def w =
     (case advance_step E inst evs st w of
        (Inl e, w1) \<Rightarrow> Some (Inl e, w1)
      | (Inr again, w1) \<Rightarrow>
          if again then map_option (Pair (Inr ())) (executeWorkflow E (wi_ID inst) def w1)
          else Some (Inr (), w1))"

definition ResumeWorkflow ::
  "'n environment \<Rightarrow> uuid \<Rightarrow> WorkflowDefinition \<Rightarrow> 'z world_scheme \<Rightarrow>
   ((go_error + unit) \<times> 'z world_scheme) option" where
  "ResumeWorkflow E iid def w = map_option (Pair (Inr ())) (executeWorkflow E iid def w)"

section \<open>Resuming after timers and tasks\<close>

text \<open>\<open>x, _ := m[k].(string)\<close>\<close>

definition string_entry :: "gomap \<Rightarrow> string \<Rightarrow> string" where
  "string_entry m k = (case map_get m k of Some (JStr s) \<Rightarrow> s | _ \<Rightarrow> [])"

definition ResumeAfterTimer ::
  "'n environment \<Rightarrow> gomap Timer \<Rightarrow> 'z engine_world_scheme \<Rightarrow>
   (go_error + unit) \<times> 'z engine_world_scheme" where
  "ResumeAfterTimer E timer w =
     (case LoadInstance E (tm_WorkflowInstanceID timer) w of
        (Inl e, w1) \<Rightarrow> (Inl e, w1)
      | (Inr (inst, evs), w1) \<Rightarrow>
          (case reg_Get E (wi_WorkflowDefinitionID inst) w1 of
             (Inl e, w2) \<Rightarrow> (Inl e, w2)
           | (Inr def, w2) \<Rightarrow>
               let named = string_entry (tm_Payload timer) ''next_state'';
                   next_state = (if named = [] then wd_Start def else named);
                   (now, w3) = time_Now E w2;
                   event = engine_event (int (length evs) + 1) ''TimerFired''
                             [(''timer_id'', JStr (uuid_String E (tm_ID timer))),
                              (''next_state'', JStr next_state)] now;
                   (_, w4) = AppendEvents E (wi_ID inst) (wi_Version inst) [event] w3
               in case UpdateCurrentPhase E (wi_ID inst) next_state w4 of
                    (Inl e, w5) \<Rightarrow> (Inl e, w5)
                  | (Inr _, w5) \<Rightarrow> (Inr (), go (Job_executeWorkflow (wi_ID inst) def) w5)))"

definition CompleteTask ::
  "'n environment \<Rightarrow> uuid \<Rightarrow> gomap \<Rightarrow> 'z engine_world_scheme \<Rightarrow>
   (go_error + unit) \<times> 'z engine_world_scheme" where
  "CompleteTask E taskID result w =
     (case GetTask E taskID w of
        (Inl e, w1) \<Rightarrow> (Inl e, w1)
      | (Inr task, w1) \<Rightarrow>
          (case store_CompleteTask E taskID result w1 of
             (Inl e, w2) \<Rightarrow> (Inl e, w2)
           | (Inr _, w2) \<Rightarrow> (Inr (), go (Job_resumeWorkflowAfterTask (tk_WorkflowInstanceID task)) w2)))"

datatype TaskAdvancementEffect =
    EffectTasksPending
  | EffectAdvanced
  | EffectCompleted
  | EffectFailed
  | EffectRetrying
  | EffectWaiting

text \<open>
  \<open>SubmitTaskResult\<close> returns an effect together with an error; an error always comes with
  \<open>EffectFailed\<close>, so the model returns the one or the other.
\<close>

definition SubmitTaskResult ::
  "'n environment \<Rightarrow> uuid \<Rightarrow> gomap \<Rightarrow> gomap \<Rightarrow> 'z engine_world_scheme \<Rightarrow>
   (go_error + TaskAdvancementEffect) \<times> 'z engine_world_scheme" where
  "SubmitTaskResult E taskID result evidence w =
     (case GetTask E taskID w of
        (Inl e, w1) \<Rightarrow> (Inl e, w1)
      | (Inr task, w1) \<Rightarrow>
          (case CompleteTaskWithEvidence E taskID result evidence w1 of
             (Inl e, w2) \<Rightarrow> (Inl e, w2)
           | (Inr _, w2) \<Rightarrow>
               (case CountPendingTasks E (tk_WorkflowInstanceID task) w2 of
                  (Inl e, w3) \<Rightarrow> (Inl e, w3)
                | (Inr pending, w3) \<Rightarrow>
                    if pending > 0 then
                      (Inr EffectTasksPending, go (Job_resumeWorkflowAfterTask (tk_WorkflowInstanceID task)) w3)
                    else
                      (case LoadInstance E (tk_WorkflowInstanceID task) w3 of
                         (Inl e, w4) \<Rightarrow> (Inl e, w4)
                       | (Inr (inst, evs), w4) \<Rightarrow>
                           (case reg_Get E (wi_WorkflowDefinitionID inst) w4 of
                              (Inl e, w5) \<Rightarrow> (Inl e, w5)
                            | (Inr def, w5) \<Rightarrow>
                                (case findState def (wi_CurrentPhase inst) of
                                   None \<Rightarrow> (Inr EffectFailed,
                                     snd (UpdateWorkflowStatus E (tk_WorkflowInstanceID task) ''FAILED'' w5))
                                 | Some st \<Rightarrow>
                                     (Inr (if End st then EffectCompleted else EffectAdvanced),
                                      go (Job_advanceFromState inst evs st def) w5)))))))"

text \<open>\<open>errorDetails\<close> is dropped: the store gets \<open>nil\<close>.\<close>

definition FailTask ::
  "'n environment \<Rightarrow> uuid \<Rightarrow> 'd \<Rightarrow> 'z engine_world_scheme \<Rightarrow>
   (go_error + unit) \<times> 'z engine_world_scheme" where
  "FailTask E taskID errorDetails w =
     (case GetTask E taskID w of
        (Inl e, w1) \<Rightarrow> (Inl e, w1)
      | (Inr task, w1) \<Rightarrow>
          (case store_FailTask E taskID None w1 of
             (Inl e, w2) \<Rightarrow> (Inl e, w2)
           | (Inr _, w2) \<Rightarrow> (Inr (), go (Job_resumeWorkflowAfterTask (tk_WorkflowInstanceID task)) w2)))"

definition resumeWorkflowAfterTask ::
  "'n environment \<Rightarrow> uuid \<Rightarrow> 'z registry_world_scheme \<Rightarrow>
   ((go_error + unit) \<times> 'z registry_world_scheme) option" where
  "resumeWorkflowAfterTask E iid w =
     (case CountPendingTasks E iid w of
        (Inl e, w1) \<Rightarrow> Some (Inl (Wrap ''count pending tasks'' e), w1)
      | (Inr pending, w1) \<Rightarrow>
          if pending > 0 then Some (Inr (), w1)
          else
            (case LoadInstance E iid w1 of
               (Inl e, w2) \<Rightarrow> Some (Inl e, w2)
             | (Inr (inst, evs), w2) \<Rightarrow>
                 (case reg_Get E (wi_WorkflowDefinitionID inst) w2 of
                    (Inl e, w3) \<Rightarrow> Some (Inl e, w3)
                  | (Inr def, w3) \<Rightarrow>
                      (case findState def (wi_CurrentPhase inst) of
                         None \<Rightarrow> Some (UpdateWorkflowStatus E iid ''FAILED'' w3)
                       | Some st \<Rightarrow> advanceFromState E inst evs st def w3))))"

section \<open>Claims, snapshots, recovery\<close>

text \<open>A claimed task is returned as it was read, before the assignment.\<close>

definition ClaimPendingTask ::
  "'n environment \<Rightarrow> string list \<Rightarrow> string \<Rightarrow> 'z world_scheme \<Rightarrow>
   (go_error + task option) \<times> 'z world_scheme" where
  "ClaimPendingTask E capabilities agentID w =
     (case GetPendingTasks E capabilities 1 w of
        (Inl e, w1) \<Rightarrow> (Inl e, w1)
      | (Inr [], w1) \<Rightarrow> (Inr None, w1)
      | (Inr (task # _), w1) \<Rightarrow>
          let (now, w2) = time_Now E w1
          in case AssignTask E (tk_ID task) agentID (now + five_minutes) w2 of
               (Inl e, w3) \<Rightarrow> (Inl e, w3)
             | (Inr _, w3) \<Rightarrow> (Inr (Some task), w3))"

definition GetWorkflowState ::
  "'n environment \<Rightarrow> uuid \<Rightarrow> 'z world_scheme \<Rightarrow>
   (go_error + gomap WorkflowInstance) \<times> 'z world_scheme" where
  "GetWorkflowState E iid w =
     (case LoadInstance E iid w of
        (Inl e, w1) \<Rightarrow> (Inl e, w1)
      | (Inr (inst, _), w1) \<Rightarrow> (Inr inst, w1))"

fun recover_instances ::
  "'n environment \<Rightarrow> gomap WorkflowInstance list \<Rightarrow> 'z engine_world_scheme \<Rightarrow> 'z engine_world_scheme" where
  "recover_instances E [] w = w"
| "recover_instances E (inst # insts) w =
     (case reg_Get E (wi_WorkflowDefinitionID inst) w of
        (Inl e, w1) \<Rightarrow> recover_instances E insts w1
      | (Inr def, w1) \<Rightarrow> recover_instances E insts (go (Job_executeWorkflow (wi_ID inst) def) w1))"

definition RecoverIncompleteWorkflows ::
  "'n environment \<Rightarrow> 'z engine_world_scheme \<Rightarrow> (go_error + unit) \<times> 'z engine_world_scheme" where
  "RecoverIncompleteWorkflows E w =
     (case ListActiveInstances E w of
        (Inl e, w1) \<Rightarrow> (Inl e, w1)
      | (Inr insts, w1) \<Rightarrow> (Inr (), recover_instances E insts w1))"

text \<open>Running a goroutine to its end; what it returns is logged only.\<close>

definition run_job :: "'n environment \<Rightarrow> job \<Rightarrow> 'z engine_world_scheme \<Rightarrow> 'z engine_world_scheme option" where
  "run_job E j w =
     (case j of
        Job_executeWorkflow iid def \<Rightarrow> executeWorkflow E iid def w
      | Job_resumeWorkflowAfterTask iid \<Rightarrow> map_option snd (resumeWorkflowAfterTask E iid w)
      | Job_advanceFromState inst evs st def \<Rightarrow> map_option snd (advanceFromState E inst evs st def w))"

end
