(* ===== verification/Timer_Service.thy ===== *)
theory Timer_Service
  imports Engine
begin

text \<open>
  \<^verbatim>\<open>internal/timer/service.go\<close>: the loop that polls the timers table once a second.
\<close>

text \<open>
  The body of \<open>checkTimers\<close> over the timers found. A timer that cannot be marked is left for
  the next poll; an error of \<open>ResumeAfterTimer\<close> is logged only.
\<close>

fun fire_timers :: "'n environment \<Rightarrow> gomap Timer list \<Rightarrow> 'z engine_world_scheme \<Rightarrow> 'z engine_world_scheme" where
  "fire_timers E [] w = w"
| "fire_timers E (t # ts) w =
     (case MarkTimerFired E (tm_ID t) w of
        (Inl e, w1) \<Rightarrow> fire_timers E ts w1
      | (Inr _, w1) \<Rightarrow> fire_timers E ts (snd (ResumeAfterTimer E t w1)))"

definition checkTimers :: "'n environment \<Rightarrow> 'z engine_world_scheme \<Rightarrow> 'z engine_world_scheme" where
  "checkTimers E w =
     (let (now, w1) = time_Now E w
      in case GetPendingTimers E now w1 of
           (Inl e, w2) \<Rightarrow> w2
         | (Inr ts, w2) \<Rightarrow> fire_timers E ts w2)"

text \<open>
  \<open>Start\<close> over the sequence of cases its \<open>select\<close> takes: a tick of the ticker runs a poll,
  the closed channel \<open>stopCh\<close> ends the loop.
\<close>

datatype select_case = TickerC | StopCh

fun timer_Start :: "'n environment \<Rightarrow> select_case list \<Rightarrow> 'z engine_world_scheme \<Rightarrow> 'z engine_world_scheme" where
  "timer_Start E [] w = w"
| "timer_Start E (StopCh # cs) w = w"
| "timer_Start E (TickerC # cs) w = timer_Start E cs (checkTimers E w)"

end
