(* ===== verification/Store_Steps.thy ===== *)
theory Store_Steps
  imports Definition_Registry
begin

text \<open>
  What the statements of the store can commit, as a step relation on databases, and the
  contract its clients rely on: a property of the database that every step keeps is kept by
  every operation, whatever fails and whatever the other clients do within the property. The
  clients' lemmas are proved once, in the locale \<open>db_invariant\<close>, for every such property.
\<close>

named_theorems evolve \<open>how operations evolve the database\<close>

section \<open>Steps\<close>

text \<open>The \<open>UPDATE\<close> statements on \<open>tasks\<close>: condition and change.\<close>

inductive task_update :: "(task_row \<Rightarrow> bool) \<Rightarrow> (task_row \<Rightarrow> task_row) \<Rightarrow> bool" where
  assigned: "task_update (\<lambda>r. tk_ID r = t \<and> tk_Status r = ''PENDING'') (assigned_row a dl now)"
| released: "task_update (\<lambda>r. tk_ID r = t \<and> tk_AssignedAgentID r = Some a \<and> tk_Status r = ''ASSIGNED'')
    (released_row now)"
| completed: "task_update (\<lambda>r. tk_ID r = t) (completed_row out now)"
| evidenced: "task_update (\<lambda>r. tk_ID r = t) (evidenced_row out ev now)"
| failed: "task_update (\<lambda>r. tk_ID r = t) (failed_row now)"
| extended: "task_update (\<lambda>r. tk_ID r = t \<and> tk_Status r = ''ASSIGNED'') (deadline_row dl now)"
| returned: "task_update (\<lambda>r. tk_ID r = t \<and> tk_AssignedAgentID r = Some a) (released_row now)"
| handed: "task_update (\<lambda>r. tk_ID r = t \<and> tk_AssignedAgentID r = Some a) (agent_row b now)"

text \<open>A task as the engine creates it.\<close>

definition new_task :: "('j, 'o, 'a) Task \<Rightarrow> bool" where
  "new_task r \<longleftrightarrow> tk_Status r = ''PENDING'' \<and> tk_AssignedAgentID r = None \<and> tk_Deadline r = None \<and>
     tk_ParentTaskID r = None"

text \<open>The statuses the code ever writes to an instance.\<close>

definition written_statuses :: "string set" where
  "written_statuses = {''RUNNING'', ''COMPLETED'', ''FAILED'', ''CANCELED'', ''DEGRADED'', ''STOPPED'', ''ARCHIVED''}"

lemma written_statuses_members [simp]:
  "''RUNNING'' \<in> written_statuses" "''COMPLETED'' \<in> written_statuses" "''FAILED'' \<in> written_statuses"
  "''CANCELED'' \<in> written_statuses" "''DEGRADED'' \<in> written_statuses" "''STOPPED'' \<in> written_statuses"
  "''ARCHIVED'' \<in> written_statuses"
  by (simp_all add: written_statuses_def)

inductive store_step :: "bool \<Rightarrow> database \<Rightarrow> database \<Rightarrow> bool" for A where
  append: "A \<Longrightarrow> 0 < rows_affected (version_matches iid v) (workflow_instances d) \<Longrightarrow>
    accepts_events iid evs d \<Longrightarrow> store_step A d (append_effect iid v now evs d)"
| new_instance: "wi_Version r = 0 \<Longrightarrow> wi_Status r \<in> written_statuses \<Longrightarrow>
    sql_insert wi_ID c r (workflow_instances d) = Inr rows \<Longrightarrow>
    store_step A d (d\<lparr>workflow_instances := rows\<rparr>)"
| status: "st \<in> written_statuses \<Longrightarrow> store_step A d (d\<lparr>workflow_instances :=
    sql_update (\<lambda>r. wi_ID r = iid) (status_row st now) (workflow_instances d)\<rparr>)"
| phase: "store_step A d (d\<lparr>workflow_instances :=
    sql_update (\<lambda>r. wi_ID r = iid) (phase_row ph now) (workflow_instances d)\<rparr>)"
| lock: "store_step A d (d\<lparr>advisory_locks := ks # advisory_locks d\<rparr>)"
| new_timer: "tm_WorkflowInstanceID (tr_Timer r) \<in> wi_ID ` set (workflow_instances d) \<Longrightarrow>
    \<not> tr_Fired r \<Longrightarrow> sql_insert (\<lambda>t. tm_ID (tr_Timer t)) c r (timers d) = Inr rows \<Longrightarrow>
    store_step A d (d\<lparr>timers := rows\<rparr>)"
| fired: "store_step A d (d\<lparr>timers :=
    sql_update (\<lambda>t. tm_ID (tr_Timer t) = i) fired_row (timers d)\<rparr>)"
| new_task_row: "new_task r \<Longrightarrow> tk_Output r = None \<Longrightarrow> tk_Evidence r = None \<Longrightarrow>
    tk_WorkflowInstanceID r \<in> wi_ID ` set (workflow_instances d) \<Longrightarrow>
    sql_insert tk_ID c r (tasks d) = Inr rows \<Longrightarrow> store_step A d (d\<lparr>tasks := rows\<rparr>)"
| task_row_update: "task_update P f \<Longrightarrow> store_step A d (d\<lparr>tasks := sql_update P f (tasks d)\<rparr>)"
| audit: "ae_TaskID r \<in> tk_ID ` set (tasks d) \<Longrightarrow>
    sql_insert ae_ID c r (task_audit_log d) = Inr rows \<Longrightarrow> store_step A d (d\<lparr>task_audit_log := rows\<rparr>)"
| definition_upsert: "upsert_definition i def now d = Inr ((), d') \<Longrightarrow> store_step A d d'"
| definition_delete: "store_step A d (d\<lparr>workflow_definitions := sql_delete P (workflow_definitions d)\<rparr>)"
| definition_yaml: "rows = sql_update (\<lambda>r. dr_ID r = i) (yaml_row content now) (workflow_definitions d) \<Longrightarrow>
    distinct (map version_key rows) \<Longrightarrow> store_step A d (d\<lparr>workflow_definitions := rows\<rparr>)"

text \<open>
  The databases an operation of this process can leave behind: its own steps, interleaved
  with the commits of the other clients. \<open>A\<close> says whether it appends to the history.
\<close>

inductive evolves :: "bool \<Rightarrow> 'n environment \<Rightarrow> database \<Rightarrow> database \<Rightarrow> bool" for A E where
  stays [intro, simp]: "evolves A E d d"
| others: "evolves A E d d1 \<Longrightarrow> evolves A E d (others E n d1)"
| step: "evolves A E d d1 \<Longrightarrow> store_step A d1 d2 \<Longrightarrow> evolves A E d d2"

section \<open>Invariants of the database\<close>

locale db_invariant =
  fixes A :: bool and I :: "database \<Rightarrow> bool"
  assumes step: "store_step A d d' \<Longrightarrow> I d \<Longrightarrow> I d'"
begin

lemma evolves_keeps: "evolves A E d d' \<Longrightarrow> rely E I \<Longrightarrow> I d \<Longrightarrow> I d'"
  by (induction rule: evolves.induct) (auto simp: rely_def intro: step)

end

section \<open>The operations evolve the database\<close>

lemma db_exec_evolves:
  assumes "db_exec E stmt w = (r, w')" and "evolves A E d (db w)"
    and "\<And>n d1 a d2. stmt n d1 = Inr (a, d2) \<Longrightarrow> d2 = d1 \<or> store_step A d1 d2"
  shows "evolves A E d (db w')"
proof -
  let ?d = "others E (tick w) (db w)"
  have d: "evolves A E d ?d" using assms(2) by (rule evolves.others)
  have "db w' = ?d \<or> (\<exists>a. stmt (tick w) ?d = Inr (a, db w'))"
    using assms(1) by (auto simp: db_exec_def Let_def split: if_splits sum.splits prod.splits)
  then show ?thesis using assms(3) d by (metis evolves.step)
qed

lemma db_query_evolves: "db_query E q w = (r, w') \<Longrightarrow> evolves A E d (db w) \<Longrightarrow> evolves A E d (db w')"
  unfolding db_query_def by (erule db_exec_evolves) (auto split: sum.splits)

lemma time_Now_evolves [evolve]: "time_Now E w = (r, w') \<Longrightarrow> evolves A E d (db w) \<Longrightarrow> evolves A E d (db w')"
  by (auto simp: time_Now_def)

lemma uuid_New_evolves [evolve]: "uuid_New E w = (r, w') \<Longrightarrow> evolves A E d (db w) \<Longrightarrow> evolves A E d (db w')"
  by (auto simp: uuid_New_def)

text \<open>A query whose rows are then converted.\<close>

lemma query_result_evolves:
  assumes "(case db_rows E q w of (s, w1) \<Rightarrow> F s w1) = (r, w')" and "evolves A E d (db w)"
    and "\<And>s w1. snd (F s w1) = w1"
  shows "evolves A E d (db w')"
proof -
  obtain s w1 where q: "db_rows E q w = (s, w1)" by fastforce
  with assms(1) assms(3) [of s w1] have "w' = w1" by simp
  with q assms(2) show ?thesis unfolding db_rows_def by (auto dest: db_query_evolves)
qed

lemma queryHistory_evolves [evolve]:
  "queryHistory E iid s w = (r, w') \<Longrightarrow> evolves A E d (db w) \<Longrightarrow> evolves A E d (db w')"
  unfolding queryHistory_def by (erule query_result_evolves) (auto split: sum.split)

lemma GetHistoryEvents_evolves [evolve]:
  "GetHistoryEvents E iid s w = (r, w') \<Longrightarrow> evolves A E d (db w) \<Longrightarrow> evolves A E d (db w')"
  unfolding GetHistoryEvents_def by (rule queryHistory_evolves)

lemma LoadInstance_evolves [evolve]:
  "LoadInstance E iid w = (r, w') \<Longrightarrow> evolves A E d (db w) \<Longrightarrow> evolves A E d (db w')"
  by (auto simp: LoadInstance_def Let_def split: prod.splits sum.splits dest!: db_query_evolves evolve)

lemma queryInstances_evolves [evolve]:
  "queryInstances E q w = (r, w') \<Longrightarrow> evolves A E d (db w) \<Longrightarrow> evolves A E d (db w')"
  unfolding queryInstances_def by (erule query_result_evolves) (auto split: sum.split)

lemma ListActiveInstances_evolves [evolve]:
  "ListActiveInstances E w = (r, w') \<Longrightarrow> evolves A E d (db w) \<Longrightarrow> evolves A E d (db w')"
  unfolding ListActiveInstances_def by (rule queryInstances_evolves)

lemma ListWorkflowInstances_evolves [evolve]:
  "ListWorkflowInstances E f w = (r, w') \<Longrightarrow> evolves A E d (db w) \<Longrightarrow> evolves A E d (db w')"
  unfolding ListWorkflowInstances_def by (rule queryInstances_evolves)

lemma GetPendingTimers_evolves [evolve]:
  "GetPendingTimers E t w = (r, w') \<Longrightarrow> evolves A E d (db w) \<Longrightarrow> evolves A E d (db w')"
  unfolding GetPendingTimers_def by (erule query_result_evolves) (auto split: sum.split)

lemma GetTask_evolves [evolve]:
  "GetTask E i w = (r, w') \<Longrightarrow> evolves A E d (db w) \<Longrightarrow> evolves A E d (db w')"
  unfolding GetTask_def by (erule query_result_evolves) (auto split: sum.split list.split)

lemma GetPendingTasks_evolves [evolve]:
  "GetPendingTasks E caps m w = (r, w') \<Longrightarrow> evolves A E d (db w) \<Longrightarrow> evolves A E d (db w')"
  unfolding GetPendingTasks_def by (erule query_result_evolves) (auto split: sum.split)

lemma ListTasksForInstance_evolves [evolve]:
  "ListTasksForInstance E iid s m off w = (r, w') \<Longrightarrow> evolves A E d (db w) \<Longrightarrow> evolves A E d (db w')"
  unfolding ListTasksForInstance_def by (erule query_result_evolves) (auto split: sum.split)

lemma ListTasksForAgent_evolves [evolve]:
  "ListTasksForAgent E a ten s w = (r, w') \<Longrightarrow> evolves A E d (db w) \<Longrightarrow> evolves A E d (db w')"
  unfolding ListTasksForAgent_def by (erule query_result_evolves) (auto split: sum.split)

lemma CountPendingTasks_evolves [evolve]:
  "CountPendingTasks E iid w = (r, w') \<Longrightarrow> evolves A E d (db w) \<Longrightarrow> evolves A E d (db w')"
  unfolding CountPendingTasks_def by (rule db_query_evolves)

lemma GetTaskAuditLog_evolves [evolve]:
  "GetTaskAuditLog E i w = (r, w') \<Longrightarrow> evolves A E d (db w) \<Longrightarrow> evolves A E d (db w')"
  unfolding GetTaskAuditLog_def by (erule query_result_evolves) (auto split: sum.split)

lemma ListWorkflowDefinitions_evolves [evolve]:
  "ListWorkflowDefinitions E g w = (r, w') \<Longrightarrow> evolves A E d (db w) \<Longrightarrow> evolves A E d (db w')"
  unfolding ListWorkflowDefinitions_def by (erule query_result_evolves) (auto split: sum.split)

lemma AppendEvents_evolves [evolve]:
  assumes "AppendEvents E iid v evs w = (r, w')" and "evolves True E d (db w)"
  shows "evolves True E d (db w')"
  using assms(1)
proof (cases rule: AppendEvents_cases)
  case (nothing e n n')
  with evolves.others [OF assms(2), of n] show ?thesis by (auto intro: evolves.others)
next
  case commits
  then show ?thesis
    by (auto simp: appended_def intro!: evolves.step [OF _ store_step.append [OF TrueI]] evolves.others assms(2))
qed

lemma instance_updates_evolve [evolve]:
  "CreateWorkflowInstance E inst w = (r1, w') \<Longrightarrow> wi_Version inst = 0 \<Longrightarrow> wi_Status inst \<in> written_statuses \<Longrightarrow>
    evolves A E d (db w) \<Longrightarrow> evolves A E d (db w')"
  "UpdateWorkflowStatus E iid st w = (r1, w') \<Longrightarrow> st \<in> written_statuses \<Longrightarrow> evolves A E d (db w) \<Longrightarrow> evolves A E d (db w')"
  "UpdateCurrentPhase E iid ph w = (r1, w') \<Longrightarrow> evolves A E d (db w) \<Longrightarrow> evolves A E d (db w')"
  by (auto simp: CreateWorkflowInstance_def UpdateWorkflowStatus_def UpdateCurrentPhase_def
      split: sum.splits elim!: db_exec_evolves intro!: disjI2
      elim!: store_step.new_instance [rotated 2] intro: store_step.status store_step.phase)

lemma new_timer_step:
  "sql_insert (\<lambda>t. tm_ID (tr_Timer t)) c
     \<lparr>tr_Timer = \<lparr>tm_ID = i, tm_WorkflowInstanceID = iid, tm_FireAt = t, tm_TimerType = ty, tm_Payload = p\<rparr>,
      tr_Fired = False\<rparr> (timers d) = Inr rows \<Longrightarrow>
   iid \<in> wi_ID ` set (workflow_instances d) \<Longrightarrow> store_step A d (d\<lparr>timers := rows\<rparr>)"
  by (erule store_step.new_timer [rotated 2]) auto

lemma CreateTimer_evolves [evolve]:
  assumes "CreateTimer E iid t ty m w = (r, w')" and "evolves A E d (db w)"
  shows "evolves A E d (db w')"
proof -
  obtain i w1 where u: "uuid_New E w = (i, w1)" by fastforce
  then have w1: "evolves A E d (db w1)" using assms(2) by (rule uuid_New_evolves)
  show ?thesis
  proof (cases "json_Marshal m")
    case (Inl e)
    with assms(1) u w1 show ?thesis by (simp add: CreateTimer_def)
  next
    case (Inr p)
    from assms(1) show ?thesis unfolding CreateTimer_def Let_def u Inr prod.case sum.case
      by (rule db_exec_evolves [OF _ w1]) (auto split: if_splits sum.splits intro!: disjI2 elim!: new_timer_step)
  qed
qed

lemma MarkTimerFired_evolves [evolve]:
  "MarkTimerFired E i w = (r, w') \<Longrightarrow> evolves A E d (db w) \<Longrightarrow> evolves A E d (db w')"
  by (auto simp: MarkTimerFired_def elim!: db_exec_evolves intro: store_step.fired)

lemma CreateTask_evolves [evolve]:
  assumes "CreateTask E task w = (r, w')" and "new_task task" and "evolves A E d (db w)"
  shows "evolves A E d (db w')"
proof (cases "json_Marshal (tk_Input task)")
  case (Inl e)
  with assms show ?thesis by (simp add: CreateTask_def)
next
  case (Inr input)
  from assms(1) show ?thesis unfolding CreateTask_def Inr sum.case
  proof (rule db_exec_evolves [OF _ assms(3)])
    fix n a and d1 d2 :: database
    assume "(case (tk_Capabilities task, tk_Roles task) of
        (Some caps, Some roles) \<Rightarrow>
          if tk_WorkflowInstanceID task \<notin> wi_ID ` set (workflow_instances d1)
          then Inl (ConstraintError ''tasks_fkey'')
          else if (case tk_ParentTaskID task of None \<Rightarrow> False | Some p \<Rightarrow> p \<notin> tk_ID ` set (tasks d1))
          then Inl (ConstraintError ''tasks_parent_fkey'')
          else (case sql_insert tk_ID ''tasks_pkey''
                  \<lparr>tk_ID = tk_ID task, tk_WorkflowInstanceID = tk_WorkflowInstanceID task,
                   tk_StateName = tk_StateName task, tk_ActivityName = tk_ActivityName task,
                   tk_Capabilities = caps, tk_Roles = roles, tk_Input = input,
                   tk_Output = None, tk_Evidence = None, tk_Status = tk_Status task,
                   tk_AssignedAgentID = None, tk_Deadline = map_option (timestamptz E) (tk_Deadline task),
                   tk_ParentTaskID = tk_ParentTaskID task, tk_CreatedAt = clock E n,
                   tk_UpdatedAt = clock E n\<rparr> (tasks d1) of
                  Inl e \<Rightarrow> Inl e
                | Inr rows \<Rightarrow> Inr ((), d1\<lparr>tasks := rows\<rparr>))
      | _ \<Rightarrow> Inl (ConstraintError ''tasks_not_null'')) = Inr (a, d2)"
    then show "d2 = d1 \<or> store_step A d1 d2"
      using assms(2) by (auto simp: new_task_def split: option.splits if_splits sum.splits
          intro!: store_step.new_task_row)
  qed
qed

lemma exec_tasks_evolves:
  assumes "exec_tasks E P upd w = (r, w')" and "evolves A E d (db w)" and "\<And>now. task_update P (upd now)"
  shows "evolves A E d (db w')"
  using assms(1,2) unfolding exec_tasks_def
  by (rule db_exec_evolves) (auto intro: store_step.task_row_update assms(3))

text \<open>The wrappers around an update pass its world on.\<close>

lemma wrapper_snd:
  "ignore_rows p = (r1, w') \<Longrightarrow> snd p = w'" "require_rows e q = (r2, w') \<Longrightarrow> snd q = w'"
  "wrap_err m s = (r3, w') \<Longrightarrow> snd s = w'"
  by (auto simp: ignore_rows_def require_rows_def wrap_err_def split: prod.splits sum.splits)

lemma exec_tasks_snd:
  "evolves A E d (db w) \<Longrightarrow> (\<And>now. task_update P (upd now)) \<Longrightarrow>
   evolves A E d (db (snd (exec_tasks E P upd w)))"
  by (rule exec_tasks_evolves [OF surjective_pairing])

lemma task_updates_evolve [evolve]:
  "AssignTask E i a dl w = (r1, w') \<Longrightarrow> evolves A E d (db w) \<Longrightarrow> evolves A E d (db w')"
  "ClaimTask E i a dl w = (r1, w') \<Longrightarrow> evolves A E d (db w) \<Longrightarrow> evolves A E d (db w')"
  "ReleaseTask E i a w = (r1, w') \<Longrightarrow> evolves A E d (db w) \<Longrightarrow> evolves A E d (db w')"
  "store_CompleteTask E i m w = (r1, w') \<Longrightarrow> evolves A E d (db w) \<Longrightarrow> evolves A E d (db w')"
  "CompleteTaskWithEvidence E i m m' w = (r1, w') \<Longrightarrow> evolves A E d (db w) \<Longrightarrow> evolves A E d (db w')"
  "store_FailTask E i m w = (r1, w') \<Longrightarrow> evolves A E d (db w) \<Longrightarrow> evolves A E d (db w')"
  "ExtendTaskDeadline E i dl w = (r1, w') \<Longrightarrow> evolves A E d (db w) \<Longrightarrow> evolves A E d (db w')"
  "ReassignTask E i a b w = (r1, w') \<Longrightarrow> evolves A E d (db w) \<Longrightarrow> evolves A E d (db w')"
  by (auto simp: AssignTask_def ClaimTask_def ReleaseTask_def store_CompleteTask_def
      CompleteTaskWithEvidence_def store_FailTask_def ExtendTaskDeadline_def ReassignTask_def
      split: sum.splits if_splits dest!: wrapper_snd
      intro!: exec_tasks_snd intro: task_update.intros)

lemma AppendTaskAudit_evolves [evolve]:
  "AppendTaskAudit E entry w = (r, w') \<Longrightarrow> evolves A E d (db w) \<Longrightarrow> evolves A E d (db w')"
  by (auto simp: AppendTaskAudit_def split: sum.splits if_splits elim!: db_exec_evolves
      intro!: disjI2 elim!: store_step.audit [rotated])

section \<open>Definitions and the registry\<close>

lemma db_exec_snd:
  assumes "evolves A E d (db w)"
    and "\<And>n d1 a d2. stmt n d1 = Inr (a, d2) \<Longrightarrow> d2 = d1 \<or> store_step A d1 d2"
  shows "evolves A E d (db (snd (db_exec E stmt w)))"
  using assms by (rule db_exec_evolves [OF surjective_pairing])

lemma DeleteWorkflowDefinition_evolves [evolve]:
  "DeleteWorkflowDefinition E i w = (r, w') \<Longrightarrow> evolves A E d (db w) \<Longrightarrow> evolves A E d (db w')"
  by (auto simp: DeleteWorkflowDefinition_def dest!: wrapper_snd intro!: db_exec_snd
      intro: store_step.definition_delete)

lemma UpdateWorkflowDefinitionYAML_evolves [evolve]:
  "UpdateWorkflowDefinitionYAML E i y w = (r, w') \<Longrightarrow> evolves A E d (db w) \<Longrightarrow> evolves A E d (db w')"
  by (auto simp: UpdateWorkflowDefinitionYAML_def Let_def elim!: db_exec_evolves split: if_splits
      intro!: store_step.definition_yaml)

lemma upsert_evolves:
  "db_exec E (\<lambda>n. upsert_definition i def (clock E n)) w = (r, w') \<Longrightarrow> evolves A E d (db w) \<Longrightarrow>
   evolves A E d (db w')"
  by (erule db_exec_evolves) (auto intro: store_step.definition_upsert)

lemma reg_Store_evolves [evolve]:
  "reg_Store E def w = (r, w') \<Longrightarrow> evolves A E d (db w) \<Longrightarrow> evolves A E d (db w')"
  by (auto simp: reg_Store_def split: if_splits prod.splits sum.splits dest!: upsert_evolves evolve)

lemma getFromFile_evolves [evolve]:
  "getFromFile E i w = (r, w') \<Longrightarrow> evolves A E d (db w) \<Longrightarrow> evolves A E d (db w')"
  by (auto simp: getFromFile_def Let_def split: sum.splits
      intro: reg_Store_evolves [OF surjective_pairing])

lemma reg_load_evolves [evolve]:
  "reg_load E i w = (r, w') \<Longrightarrow> evolves A E d (db w) \<Longrightarrow> evolves A E d (db w')"
  by (auto simp: reg_load_def split: prod.splits sum.splits if_splits
      dest!: db_query_evolves evolve)

lemma reg_Get_evolves [evolve]:
  "reg_Get E i w = (r, w') \<Longrightarrow> evolves A E d (db w) \<Longrightarrow> evolves A E d (db w')"
  by (auto simp: reg_Get_def Let_def time_Now_def split: option.splits if_splits
      elim!: reg_load_evolves)

end
