(* ===== verification/Db_Invariants.thy ===== *)
theory Db_Invariants
  imports Store_Steps
begin

text \<open>
  Invariants of the database, as interpretations of \<open>db_invariant\<close>: the constraints of the
  schema with the life cycle of a task (\<open>wf_db\<close>), and the growth of the tables (\<open>extends\<close>).
\<close>

section \<open>Well-formedness\<close>

definition instance_ids :: "database \<Rightarrow> uuid set" where
  "instance_ids d = wi_ID ` set (workflow_instances d)"

definition wf_events :: "database \<Rightarrow> bool" where
  "wf_events d \<longleftrightarrow> unique_key wi_ID (workflow_instances d) \<and>
     unique_key history_key (workflow_history d) \<and>
     (\<forall>h \<in> set (workflow_history d). hr_Instance h \<in> instance_ids d)"

definition wf_timers :: "database \<Rightarrow> bool" where
  "wf_timers d \<longleftrightarrow> unique_key (\<lambda>t. tm_ID (tr_Timer t)) (timers d) \<and>
     (\<forall>t \<in> set (timers d). tm_WorkflowInstanceID (tr_Timer t) \<in> instance_ids d)"

text \<open>A pending task belongs to nobody; an assigned one has an agent and a deadline.\<close>

definition task_ok :: "task_row \<Rightarrow> bool" where
  "task_ok r \<longleftrightarrow>
     tk_Status r \<in> {''PENDING'', ''ASSIGNED'', ''COMPLETED'', ''FAILED''} \<and>
     (tk_Status r = ''PENDING'' \<longrightarrow> tk_AssignedAgentID r = None \<and> tk_Deadline r = None) \<and>
     (tk_Status r = ''ASSIGNED'' \<longrightarrow> tk_AssignedAgentID r \<noteq> None \<and> tk_Deadline r \<noteq> None)"

definition wf_tasks :: "database \<Rightarrow> bool" where
  "wf_tasks d \<longleftrightarrow> unique_key tk_ID (tasks d) \<and>
     (\<forall>r \<in> set (tasks d). tk_WorkflowInstanceID r \<in> instance_ids d \<and> task_ok r)"

definition wf_audit :: "database \<Rightarrow> bool" where
  "wf_audit d \<longleftrightarrow> unique_key ae_ID (task_audit_log d) \<and>
     (\<forall>a \<in> set (task_audit_log d). ae_TaskID a \<in> tk_ID ` set (tasks d))"

definition wf_definitions :: "database \<Rightarrow> bool" where
  "wf_definitions d \<longleftrightarrow> unique_key dr_ID (workflow_definitions d) \<and>
     unique_key version_key (workflow_definitions d) \<and>
     (\<forall>r \<in> set (workflow_definitions d). dr_TenantID r \<in> te_ID ` set (tenants d))"

definition wf_db :: "database \<Rightarrow> bool" where
  "wf_db d \<longleftrightarrow> wf_events d \<and> wf_timers d \<and> wf_tasks d \<and> wf_audit d \<and> wf_definitions d"

lemmas wf_defs = wf_events_def wf_timers_def wf_tasks_def wf_audit_def wf_definitions_def

lemma wf_db_empty: "wf_db empty_database"
  by (simp add: wf_db_def wf_defs empty_database_def unique_key_def)

subsection \<open>The updates of the tasks\<close>

lemma task_update_identity:
  "task_update P f \<Longrightarrow> tk_ID (f r) = tk_ID r \<and> tk_WorkflowInstanceID (f r) = tk_WorkflowInstanceID r \<and>
     tk_StateName (f r) = tk_StateName r \<and> tk_ActivityName (f r) = tk_ActivityName r \<and>
     tk_Capabilities (f r) = tk_Capabilities r \<and> tk_Roles (f r) = tk_Roles r \<and>
     tk_Input (f r) = tk_Input r \<and> tk_ParentTaskID (f r) = tk_ParentTaskID r \<and>
     tk_CreatedAt (f r) = tk_CreatedAt r"
  by (erule task_update.cases) (simp_all add: row_defs)

lemma task_update_ok: "task_update P f \<Longrightarrow> P r \<Longrightarrow> task_ok r \<Longrightarrow> task_ok (f r)"
  by (erule task_update.cases) (auto simp: row_defs task_ok_def)

lemma task_update_ids: "task_update P f \<Longrightarrow> map tk_ID (sql_update P f rows) = map tk_ID rows"
  by (rule map_sql_update_same) (simp add: task_update_identity)

subsection \<open>Every step keeps it\<close>

lemma instance_ids_update [simp]:
  "instance_ids (d\<lparr>workflow_instances := sql_update P (version_row now) (workflow_instances d)\<rparr>) = instance_ids d"
  "instance_ids (d\<lparr>workflow_instances := sql_update P (status_row st now) (workflow_instances d)\<rparr>) = instance_ids d"
  "instance_ids (d\<lparr>workflow_instances := sql_update P (phase_row ph now) (workflow_instances d)\<rparr>) = instance_ids d"
  "instance_ids (append_effect iid v now evs d) = instance_ids d"
  by (simp_all add: instance_ids_def append_effect_def version.key_set_update status.key_set_update
      phase.key_set_update)

lemma instance_ids_other [simp]:
  "instance_ids (d\<lparr>workflow_history := h\<rparr>) = instance_ids d"
  "instance_ids (d\<lparr>advisory_locks := l\<rparr>) = instance_ids d"
  "instance_ids (d\<lparr>timers := t\<rparr>) = instance_ids d"
  "instance_ids (d\<lparr>tasks := k\<rparr>) = instance_ids d"
  "instance_ids (d\<lparr>task_audit_log := a\<rparr>) = instance_ids d"
  "instance_ids (d\<lparr>workflow_definitions := f\<rparr>) = instance_ids d"
  by (simp_all add: instance_ids_def)

lemma upsert_cases:
  assumes "upsert_definition i def now d = Inr ((), d')"
  obtains rows where "d' = d\<lparr>workflow_definitions := rows\<rparr>"
    and "wf_definitions d \<Longrightarrow> wf_definitions d'"
proof -
  from assms obtain v where v: "int4_of_text (wd_Version def) = Some v"
    and ten: "wd_Tenant def \<in> te_ID ` set (tenants d)"
    by (auto simp: upsert_definition_def split: option.splits if_splits)
  define hit where "hit = (\<lambda>r :: string option WorkflowDefinitionRow.
    version_key r = (wd_Tenant def, wd_ID def, v))"
  show thesis
  proof (cases "rows_affected hit (workflow_definitions d) = 0")
    case False
    with assms v ten have d': "d' = d\<lparr>workflow_definitions :=
        sql_update hit (upsert_row def now) (workflow_definitions d)\<rparr>"
      by (simp add: upsert_definition_def hit_def Let_def)
    have key: "map version_key (sql_update hit (upsert_row def now) rows) = map version_key rows" for rows
      by (rule map_sql_update_same) (simp add: row_defs version_key_def)
    show thesis
      by (rule that [OF d'])
        (auto simp: d' wf_definitions_def upsert.unique_update unique_key_def key set_sql_update row_defs
          upsert.keys_update)
  next
    case True
    with assms v ten obtain r rows where
        ins: "sql_insert dr_ID ''workflow_definitions_pkey'' r (workflow_definitions d) = Inr rows"
      and d': "d' = d\<lparr>workflow_definitions := rows\<rparr>"
      and r: "version_key r = (wd_Tenant def, wd_ID def, v)" "dr_TenantID r = wd_Tenant def"
      by (auto simp: upsert_definition_def hit_def Let_def version_key_def split: sum.splits)
    from True r have "version_key r \<notin> version_key ` set (workflow_definitions d)"
      by (auto simp: rows_affected_zero_iff hit_def)
    then show thesis
      using ten r by (intro that [OF d'])
        (auto simp: d' wf_definitions_def unique_key_def dest!: ins [unfolded sql_insert_Inr, THEN conjunct1, THEN notE]
          simp: ins [unfolded sql_insert_Inr, THEN conjunct2])
  qed
qed

lemma step_instance_ids: "store_step A d d' \<Longrightarrow> instance_ids d \<subseteq> instance_ids d'"
proof (induction rule: store_step.induct)
  case (definition_upsert i def now d d')
  then show ?case by (rule upsert_cases) simp
qed (auto simp: sql_insert_Inr instance_ids_def append_effect_def version.key_set_update
    status.key_set_update phase.key_set_update)

lemma step_task_ids: "store_step A d d' \<Longrightarrow> tk_ID ` set (tasks d) \<subseteq> tk_ID ` set (tasks d')"
proof (induction rule: store_step.induct)
  case (task_row_update P f d)
  then have "tk_ID ` set (sql_update P f (tasks d)) = tk_ID ` set (tasks d)"
    by (metis task_update_ids list.set_map)
  then show ?case by simp
next
  case (definition_upsert i def now d d')
  then show ?case by (rule upsert_cases) simp
qed (auto simp: sql_insert_Inr append_effect_def)

lemma append_effect_wf:
  assumes "accepts_events iid evs d" and "0 < rows_affected (version_matches iid v) (workflow_instances d)"
    and "wf_events d"
  shows "wf_events (append_effect iid v now evs d)"
proof -
  have "iid \<in> instance_ids d" using version_matches_ids [OF assms(2)] by (simp add: instance_ids_def)
  moreover have "distinct (map (\<lambda>ev. (iid, he_SequenceNum ev)) evs)"
    using assms(1) by (auto simp: accepts_events_def distinct_map inj_on_def)
  moreover have "unique_key wi_ID (workflow_instances (append_effect iid v now evs d))"
    using assms(3) by (simp add: append_effect_def wf_events_def version.unique_update)
  moreover have "set (workflow_history (append_effect iid v now evs d)) =
      set (workflow_history d) \<union> set (history_rows iid now evs)"
    and "map history_key (workflow_history (append_effect iid v now evs d)) =
      map history_key (workflow_history d) @ map (\<lambda>ev. (iid, he_SequenceNum ev)) evs"
    by (simp_all add: append_effect_def history_rows_keys)
  ultimately show ?thesis
    using assms(1,3) by (auto simp: wf_events_def unique_key_def accepts_events_def
        dest!: history_rows_instance)
qed

lemma step_wf_events: "store_step A d d' \<Longrightarrow> wf_events d \<Longrightarrow> wf_events d'"
proof (induction rule: store_step.induct)
  case (append iid v d evs now)
  then show ?case by (simp add: append_effect_wf)
next
  case (new_instance r c d rows)
  then show ?case
    by (auto simp: wf_events_def instance_ids_def sql_insert_Inr unique_key_def)
next
  case (definition_upsert i def now d d')
  then show ?case by (elim upsert_cases) (simp add: wf_events_def)
qed (simp_all add: wf_events_def status.unique_update phase.unique_update)

lemma step_wf_timers: "store_step A d d' \<Longrightarrow> wf_timers d \<Longrightarrow> wf_timers d'"
proof (induction rule: store_step.induct)
  case (new_instance r c d rows)
  then show ?case by (auto simp: wf_timers_def instance_ids_def sql_insert_Inr)
next
  case (new_timer r d c rows)
  then show ?case by (auto simp: wf_timers_def instance_ids_def sql_insert_Inr unique_key_def)
next
  case (fired i d)
  then show ?case
    by (auto simp: wf_timers_def fired.unique_update set_sql_update row_defs)
next
  case (definition_upsert i def now d d')
  then show ?case by (elim upsert_cases) (simp add: wf_timers_def)
qed (auto simp: wf_timers_def append_effect_def)

lemma step_wf_tasks: "store_step A d d' \<Longrightarrow> wf_tasks d \<Longrightarrow> wf_tasks d'"
proof (induction rule: store_step.induct)
  case (new_instance r c d rows)
  then show ?case by (auto simp: wf_tasks_def instance_ids_def sql_insert_Inr)
next
  case (new_task_row r d c rows)
  then show ?case
    by (auto simp: wf_tasks_def instance_ids_def sql_insert_Inr unique_key_def new_task_def task_ok_def)
next
  case (task_row_update P f d)
  then have "unique_key tk_ID (sql_update P f (tasks d))"
    by (simp add: wf_tasks_def unique_key_def task_update_ids)
  with task_row_update show ?case
    by (auto simp: wf_tasks_def set_sql_update task_update_identity task_update_ok)
next
  case (definition_upsert i def now d d')
  then show ?case by (elim upsert_cases) (simp add: wf_tasks_def)
qed (auto simp: wf_tasks_def append_effect_def)

lemma step_wf_audit: "store_step A d d' \<Longrightarrow> wf_audit d \<Longrightarrow> wf_audit d'"
proof (induction rule: store_step.induct)
  case (new_task_row r d c rows)
  then show ?case by (auto simp: wf_audit_def sql_insert_Inr)
next
  case (task_row_update P f d)
  then have "tk_ID ` set (sql_update P f (tasks d)) = tk_ID ` set (tasks d)"
    by (metis task_update_ids list.set_map)
  with task_row_update show ?case by (simp add: wf_audit_def)
next
  case (audit r d c rows)
  then show ?case by (auto simp: wf_audit_def sql_insert_Inr unique_key_def)
next
  case (definition_upsert i def now d d')
  then show ?case by (elim upsert_cases) (simp add: wf_audit_def)
qed (simp_all add: wf_audit_def append_effect_def)

lemma step_wf_definitions: "store_step A d d' \<Longrightarrow> wf_definitions d \<Longrightarrow> wf_definitions d'"
proof (induction rule: store_step.induct)
  case (definition_upsert i def now d d')
  then show ?case by (elim upsert_cases) simp
next
  case (definition_delete d P)
  then show ?case
    by (auto simp: wf_definitions_def sql_delete_unique) (simp add: sql_delete_def)
next
  case (definition_yaml rows i content now d)
  then show ?case
    by (auto simp: wf_definitions_def unique_key_def yaml_text.keys_update set_sql_update)
      (simp_all add: row_defs)
qed (simp_all add: wf_definitions_def append_effect_def)

interpretation wf: db_invariant A wf_db for A
  by unfold_locales
    (simp add: wf_db_def step_wf_events step_wf_timers step_wf_tasks step_wf_audit step_wf_definitions)

section \<open>The statuses of instances\<close>

definition statuses_written :: "database \<Rightarrow> bool" where
  "statuses_written d \<longleftrightarrow> (\<forall>r \<in> set (workflow_instances d). wi_Status r \<in> written_statuses)"

lemma statuses_step: "store_step A d d' \<Longrightarrow> statuses_written d \<Longrightarrow> statuses_written d'"
proof (induction rule: store_step.induct)
  case (definition_upsert i def now d d')
  then show ?case by (auto simp: statuses_written_def elim: upsert_cases)
qed (auto simp: statuses_written_def append_effect_def set_sql_update sql_insert_Inr row_defs split: if_splits)

interpretation statuses: db_invariant A statuses_written for A
  by unfold_locales (rule statuses_step)

section \<open>Growth\<close>

text \<open>
  What no operation ever undoes: history and audit rows are never changed or removed, an
  instance keeps its identity, tenant, definition and state and its version never falls, a
  timer never un-fires, a task keeps everything the engine created it with.
\<close>

definition instance_le :: "json WorkflowInstance \<Rightarrow> json WorkflowInstance \<Rightarrow> bool" where
  "instance_le r r' \<longleftrightarrow> wi_ID r' = wi_ID r \<and> wi_Version r \<le> wi_Version r' \<and>
     wi_WorkflowDefinitionID r' = wi_WorkflowDefinitionID r \<and> wi_Tenant r' = wi_Tenant r \<and>
     wi_DimensionalState r' = wi_DimensionalState r \<and> wi_CreatedAt r' = wi_CreatedAt r"

definition timer_le :: "timer_row \<Rightarrow> timer_row \<Rightarrow> bool" where
  "timer_le t t' \<longleftrightarrow> tr_Timer t' = tr_Timer t \<and> (tr_Fired t \<longrightarrow> tr_Fired t')"

definition task_le :: "task_row \<Rightarrow> task_row \<Rightarrow> bool" where
  "task_le r r' \<longleftrightarrow> tk_ID r' = tk_ID r \<and> tk_WorkflowInstanceID r' = tk_WorkflowInstanceID r \<and>
     tk_StateName r' = tk_StateName r \<and> tk_ActivityName r' = tk_ActivityName r \<and>
     tk_Capabilities r' = tk_Capabilities r \<and> tk_Roles r' = tk_Roles r \<and>
     tk_Input r' = tk_Input r \<and> tk_ParentTaskID r' = tk_ParentTaskID r \<and>
     tk_CreatedAt r' = tk_CreatedAt r"

definition extends :: "database \<Rightarrow> database \<Rightarrow> bool" where
  "extends d d' \<longleftrightarrow>
     grows instance_le (workflow_instances d) (workflow_instances d') \<and>
     grows (=) (workflow_history d) (workflow_history d') \<and>
     grows timer_le (timers d) (timers d') \<and>
     grows task_le (tasks d) (tasks d') \<and>
     grows (=) (task_audit_log d) (task_audit_log d')"

lemmas row_les = instance_le_def timer_le_def task_le_def

lemma extends_refl: "extends d d"
  by (simp add: extends_def grows_refl row_les)

lemma extends_trans: "extends d d1 \<Longrightarrow> extends d1 d2 \<Longrightarrow> extends d d2"
  unfolding extends_def
  by (intro conjI; (erule conjE)+; erule (1) grows_trans [rotated]) (auto simp: row_les)

lemma step_extends: "store_step A d d' \<Longrightarrow> extends d d'"
proof (induction rule: store_step.induct)
  case (task_row_update P f d)
  then have "grows task_le (tasks d) (sql_update P f (tasks d))"
    by (intro grows_update) (simp_all add: task_le_def task_update_identity)
  then show ?case by (simp add: extends_def grows_refl row_les)
next
  case (definition_upsert i def now d d')
  then show ?case by (rule upsert_cases) (simp add: extends_def grows_refl row_les)
qed (auto simp: extends_def append_effect_def row_les row_defs
    intro!: grows_refl grows_update grows_append elim!: grows_insert [rotated])

interpretation extends: db_invariant A "extends d0" for A d0
  by unfold_locales (blast intro: extends_trans step_extends)

text \<open>
  The effects that sequences of the program's own statements have, the statements of unfinished
  handlers included.
\<close>

definition statements :: "database \<Rightarrow> database \<Rightarrow> bool" where
  "statements = (store_step True)\<^sup>*\<^sup>*"

lemma statements_keep:
  assumes "statements d d'" and "\<And>d d'. store_step True d d' \<Longrightarrow> I d \<Longrightarrow> I d'" and "I d"
  shows "I d'"
  using assms(1) [unfolded statements_def] assms(3) by (induction rule: rtranclp_induct) (auto intro: assms(2))

lemma statements_wf: "statements d d' \<Longrightarrow> wf_db d \<Longrightarrow> wf_db d'"
  by (erule statements_keep) (rule wf.step)

lemma statements_extends: "statements d d' \<Longrightarrow> extends d d'"
  by (erule statements_keep [where I = "extends d" for d]) (auto intro: extends.step extends_refl)

text \<open>Both together, for the rows of a table with their keys.\<close>

lemma extends_instance:
  assumes "extends d d'" and "wf_db d'" and "row_at wi_ID (workflow_instances d) iid = Some r"
  obtains r' where "row_at wi_ID (workflow_instances d') iid = Some r'" and "instance_le r r'"
  using assms
  by (auto simp: extends_def wf_db_def wf_events_def instance_le_def elim: grows_row_at)

lemma extends_task:
  assumes "extends d d'" and "wf_db d'" and "row_at tk_ID (tasks d) i = Some r"
  obtains r' where "row_at tk_ID (tasks d') i = Some r'" and "task_le r r'"
  using assms
  by (auto simp: extends_def wf_db_def wf_tasks_def task_le_def elim: grows_row_at)

lemma version_row_hit:
  "unique_key wi_ID rows \<Longrightarrow> 0 < rows_affected (version_matches iid v) rows \<longleftrightarrow>
   (\<exists>r. row_at wi_ID rows iid = Some r \<and> wi_Version r = v)"
proof -
  assume u: "unique_key wi_ID rows"
  have "rows_affected (version_matches iid v) rows =
      rows_affected (\<lambda>r. wi_ID r = iid \<and> wi_Version r = v) rows"
    by (simp add: version_matches_def [abs_def])
  then show ?thesis
    using rows_affected_key [OF u, of iid "\<lambda>r. wi_Version r = v"] by (auto split: option.splits)
qed

end
