(* ===== verification/Engine_Steps.thy ===== *)
theory Engine_Steps
  imports Timer_Service Db_Invariants
begin

text \<open>
  The engine and the timer service as clients of the store: each of their operations evolves
  the database by steps of the store, whatever fails in between. With the interpretations of
  \<open>db_invariant\<close> this gives the invariants of the database for all of them.
\<close>

lemmas UpdateWorkflowStatus_snd = instance_updates_evolve(2) [OF surjective_pairing]
lemmas AppendEvents_snd = AppendEvents_evolves [OF surjective_pairing]

lemma new_task_of_action: "new_task (task_of_action i iid b a)"
  by (simp add: new_task_def task_of_action_def)

lemma publishTask_db [simp]: "db (publishTask E t w) = db w"
  by (auto simp: publishTask_def Let_def split: sum.splits)

lemma go_db [simp]: "db (go j w) = db w"
  by (simp add: go_def)

lemma StartWorkflow_evolves [evolve]:
  "StartWorkflow E def ten input w = (r, w') \<Longrightarrow> evolves True E d (db w) \<Longrightarrow> evolves True E d (db w')"
  by (auto simp: StartWorkflow_def Let_def split: prod.splits sum.splits
      dest!: uuid_New_evolves [where d = d] time_Now_evolves [where d = d]
        instance_updates_evolve(1) [where d = d] AppendEvents_evolves [where d = d])

lemma schedule_actions_evolves [evolve]:
  "schedule_actions E inst k b i acts w = (r, w') \<Longrightarrow> evolves True E d (db w) \<Longrightarrow> evolves True E d (db w')"
proof (induction acts arbitrary: i w)
  case Nil
  then show ?case by simp
next
  case (Cons a acts)
  obtain t w1 where u: "uuid_New E w = (t, w1)" by fastforce
  obtain c w2 where c: "CreateTask E (task_of_action t (wi_ID inst) b a) w1 = (c, w2)" by fastforce
  have w2: "evolves True E d (db w2)"
    using CreateTask_evolves [OF c new_task_of_action] uuid_New_evolves [OF u] Cons.prems(2) by blast
  show ?case
  proof (cases c)
    case (Inl e)
    with Cons.prems(1) u c w2 show ?thesis by (auto intro: UpdateWorkflowStatus_snd)
  next
    case (Inr x)
    obtain now w3 where n: "time_Now E w2 = (now, w3)" by fastforce
    obtain y w4 where ap: "AppendEvents E (wi_ID inst) (wi_Version inst)
        [scheduled_event (uuid_String E t) (int (k + i + 1)) b a now] w3 = (y, w4)" by fastforce
    have "evolves True E d (db w4)" using n ap w2 by (auto dest!: evolve)
    with Cons.prems(1) u c n ap Inr show ?thesis
      by (intro Cons.IH [of "Suc i" "if rabbit_channel E
            then publishTask E (task_of_action t (wi_ID inst) b a) w4 else w4"]) (auto simp: algebra_simps)
  qed
qed

lemma advance_step_evolves [evolve]:
  "advance_step E inst evs st w = (r, w') \<Longrightarrow> evolves True E d (db w) \<Longrightarrow> evolves True E d (db w')"
  by (auto simp: advance_step_def Let_def split: prod.splits sum.splits if_splits dest!: evolve)

lemma processOperationState_evolves [evolve]:
  "processOperationState E inst evs b acts w = (r, w') \<Longrightarrow> evolves True E d (db w) \<Longrightarrow> evolves True E d (db w')"
  by (auto simp: processOperationState_def split: prod.splits sum.splits bool.splits if_splits dest!: evolve)

lemma processDelayState_evolves:
  "evolves True E d (db w) \<Longrightarrow> evolves True E d (db (processDelayState E inst evs b dur w))"
  by (auto simp: processDelayState_def Let_def split: prod.splits sum.splits dest!: evolve
      intro!: UpdateWorkflowStatus_snd AppendEvents_snd)

lemma processState_evolves [evolve]:
  "processState E inst evs st w = (r, w') \<Longrightarrow> evolves True E d (db w) \<Longrightarrow> evolves True E d (db w')"
  by (auto simp: processState_def split: state.splits dest!: evolve
      intro: UpdateWorkflowStatus_snd processDelayState_evolves)

lemma execute_step_evolves [evolve]:
  "execute_step E iid def w = (r, w') \<Longrightarrow> evolves True E d (db w) \<Longrightarrow> evolves True E d (db w')"
  by (auto simp: execute_step_def split: prod.splits sum.splits if_splits option.splits dest!: evolve
      intro: UpdateWorkflowStatus_snd)

lemma executeWorkflow_evolves_imp:
  "executeWorkflow E iid def w = Some w' \<Longrightarrow> evolves True E d (db w) \<longrightarrow> evolves True E d (db w')"
proof (induction rule: executeWorkflow.raw_induct [rotated, consumes 1, case_names step])
  case (step exec E iid def w w')
  obtain again w1 where s: "execute_step E iid def w = (again, w1)" by fastforce
  then have "evolves True E d (db w) \<Longrightarrow> evolves True E d (db w1)" by (rule execute_step_evolves)
  with step s show ?case by (auto split: if_splits)
qed

lemma executeWorkflow_evolves [evolve]:
  "executeWorkflow E iid def w = Some w' \<Longrightarrow> evolves True E d (db w) \<Longrightarrow> evolves True E d (db w')"
  using executeWorkflow_evolves_imp by blast

lemma advanceFromState_evolves [evolve]:
  "advanceFromState E inst evs st def w = Some (r, w') \<Longrightarrow> evolves True E d (db w) \<Longrightarrow> evolves True E d (db w')"
  by (auto simp: advanceFromState_def split: prod.splits sum.splits if_splits dest!: evolve)

lemma ResumeWorkflow_evolves [evolve]:
  "ResumeWorkflow E iid def w = Some (r, w') \<Longrightarrow> evolves True E d (db w) \<Longrightarrow> evolves True E d (db w')"
  by (auto simp: ResumeWorkflow_def dest!: evolve)

lemma ResumeAfterTimer_evolves [evolve]:
  "ResumeAfterTimer E t w = (r, w') \<Longrightarrow> evolves True E d (db w) \<Longrightarrow> evolves True E d (db w')"
  by (auto simp: ResumeAfterTimer_def Let_def split: prod.splits sum.splits dest!: evolve)

lemma CompleteTask_evolves [evolve]:
  "CompleteTask E i m w = (r, w') \<Longrightarrow> evolves A E d (db w) \<Longrightarrow> evolves A E d (db w')"
  by (auto simp: CompleteTask_def split: prod.splits sum.splits dest!: evolve)

lemma FailTask_evolves [evolve]:
  "FailTask E i m w = (r, w') \<Longrightarrow> evolves A E d (db w) \<Longrightarrow> evolves A E d (db w')"
  by (auto simp: FailTask_def split: prod.splits sum.splits dest!: evolve)

lemma SubmitTaskResult_evolves [evolve]:
  "SubmitTaskResult E i m m' w = (r, w') \<Longrightarrow> evolves A E d (db w) \<Longrightarrow> evolves A E d (db w')"
  by (auto simp: SubmitTaskResult_def split: prod.splits sum.splits if_splits option.splits dest!: evolve
      intro: UpdateWorkflowStatus_snd)

lemma resumeWorkflowAfterTask_evolves [evolve]:
  "resumeWorkflowAfterTask E iid w = Some (r, w') \<Longrightarrow> evolves True E d (db w) \<Longrightarrow> evolves True E d (db w')"
  by (auto simp: resumeWorkflowAfterTask_def split: prod.splits sum.splits if_splits option.splits dest!: evolve)

lemma ClaimPendingTask_evolves [evolve]:
  "ClaimPendingTask E caps a w = (r, w') \<Longrightarrow> evolves A E d (db w) \<Longrightarrow> evolves A E d (db w')"
  by (auto simp: ClaimPendingTask_def Let_def split: prod.splits sum.splits list.splits dest!: evolve)

lemma GetWorkflowState_evolves [evolve]:
  "GetWorkflowState E iid w = (r, w') \<Longrightarrow> evolves A E d (db w) \<Longrightarrow> evolves A E d (db w')"
  by (auto simp: GetWorkflowState_def split: prod.splits sum.splits dest!: evolve)

lemma recover_instances_evolves:
  "evolves A E d (db w) \<Longrightarrow> evolves A E d (db (recover_instances E insts w))"
  by (induction insts arbitrary: w) (auto split: prod.splits sum.splits dest!: evolve)

lemma RecoverIncompleteWorkflows_evolves [evolve]:
  "RecoverIncompleteWorkflows E w = (r, w') \<Longrightarrow> evolves A E d (db w) \<Longrightarrow> evolves A E d (db w')"
  by (auto simp: RecoverIncompleteWorkflows_def split: prod.splits sum.splits dest!: evolve
      intro: recover_instances_evolves)

lemma run_job_evolves [evolve]:
  "run_job E j w = Some w' \<Longrightarrow> evolves True E d (db w) \<Longrightarrow> evolves True E d (db w')"
  by (auto simp: run_job_def split: job.splits dest!: evolve)

lemma fire_timers_evolves: "evolves True E d (db w) \<Longrightarrow> evolves True E d (db (fire_timers E ts w))"
  by (induction ts arbitrary: w)
    (auto split: prod.splits sum.splits dest!: evolve intro: ResumeAfterTimer_evolves [OF surjective_pairing])

lemma checkTimers_evolves: "evolves True E d (db w) \<Longrightarrow> evolves True E d (db (checkTimers E w))"
  by (auto simp: checkTimers_def Let_def split: prod.splits sum.splits dest!: evolve
      intro: fire_timers_evolves)

lemma timer_Start_evolves: "evolves True E d (db w) \<Longrightarrow> evolves True E d (db (timer_Start E cs w))"
  by (induction E cs w rule: timer_Start.induct) (auto intro: checkTimers_evolves)

end
