(* ===== verification/Supervisor.thy ===== *)
theory Supervisor
  imports Engine
begin

text \<open>
  \<^verbatim>\<open>internal/supervisor/supervisor.go\<close>: worker subprocesses. A \<open>*WorkerProcess\<close> is an
  address in \<open>sup_procs\<close>, because the goroutine \<open>monitorWorker\<close> keeps the pointer it was
  started with while the map may hold another one. Every access to the map is made under the
  mutex, once in each method, so each method is one atomic step: \<open>StopWorker\<close> gives the mutex back
  before it signals the process and waits for it, but what follows touches nothing the other
  methods read. The moment a process exits is a step of its own, \<open>monitorWorker\<close>.
\<close>

record WorkerProcess =
  wp_WorkflowInstanceID :: uuid
  wp_PID :: int
  wp_Status :: string
  wp_StartTime :: time
  wp_RestartCount :: int

datatype signal = SIGTERM | SIGKILL

text \<open>
  \<open>sup_workers\<close> is the map \<open>s.workers\<close> (an enumeration of it), \<open>sup_monitors\<close> the monitors
  still waiting for their process, \<open>sup_commands\<close> the command lines started and
  \<open>sup_signals\<close> the signals sent to process groups.
\<close>

record supervisor_world = engine_world +
  sup_binary :: string
  sup_maxRestarts :: int
  sup_workers :: "(uuid \<times> nat) list"
  sup_procs :: "nat \<Rightarrow> WorkerProcess option"
  sup_next :: nat
  sup_monitors :: "(uuid \<times> nat) list"
  sup_commands :: "string list list"
  sup_signals :: "(int \<times> signal) list"

definition NewSupervisor :: "string \<Rightarrow> 'z supervisor_world_scheme \<Rightarrow> 'z supervisor_world_scheme" where
  "NewSupervisor workerBinary w =
     w\<lparr>sup_binary := workerBinary, sup_maxRestarts := 3, sup_workers := [], sup_procs := Map.empty,
       sup_next := 0, sup_monitors := [], sup_commands := [], sup_signals := []\<rparr>"

definition delete_worker :: "uuid \<Rightarrow> (uuid \<times> nat) list \<Rightarrow> (uuid \<times> nat) list" where
  "delete_worker iid ws = filter (\<lambda>p. fst p \<noteq> iid) ws"

definition worker_args :: "'n environment \<Rightarrow> string \<Rightarrow> uuid \<Rightarrow> string \<Rightarrow> string \<Rightarrow> string list" where
  "worker_args E binary iid workflowDefID tenant =
     [binary, ''--instance-id'', uuid_String E iid, ''--workflow-def-id'', workflowDefID,
      ''--tenant'', tenant]"

definition StartWorker ::
  "'n environment \<Rightarrow> uuid \<Rightarrow> string \<Rightarrow> string \<Rightarrow> 'z supervisor_world_scheme \<Rightarrow>
   (go_error + unit) \<times> 'z supervisor_world_scheme" where
  "StartWorker E iid workflowDefID tenant w =
     (if map_of (sup_workers w) iid \<noteq> None
      then (Inl (ErrorText (''worker for workflow '' @ uuid_String E iid @ '' already exists'')), w)
      else let args = worker_args E (sup_binary w) iid workflowDefID tenant
           in case proc_Start E (tick w) args of
                Inl e \<Rightarrow> (Inl (Wrap ''failed to start worker'' e), next_tick w)
              | Inr pid \<Rightarrow>
                  let (now, w1) = time_Now E (next_tick w);
                      p = sup_next w1;
                      wp = \<lparr>wp_WorkflowInstanceID = iid, wp_PID = pid, wp_Status = ''running'',
                            wp_StartTime = now, wp_RestartCount = 0\<rparr>
                  in (Inr (),
                      w1\<lparr>sup_workers := sup_workers w1 @ [(iid, p)],
                         sup_procs := (sup_procs w1)(p \<mapsto> wp), sup_next := Suc p,
                         sup_monitors := sup_monitors w1 @ [(iid, p)],
                         sup_commands := sup_commands w1 @ [args]\<rparr>))"

definition pid_of :: "nat \<Rightarrow> 'z supervisor_world_scheme \<Rightarrow> int" where
  "pid_of p w = (case sup_procs w p of None \<Rightarrow> 0 | Some wp \<Rightarrow> wp_PID wp)"

definition StopWorker ::
  "'n environment \<Rightarrow> uuid \<Rightarrow> 'z supervisor_world_scheme \<Rightarrow>
   (go_error + unit) \<times> 'z supervisor_world_scheme" where
  "StopWorker E iid w =
     (case map_of (sup_workers w) iid of
        None \<Rightarrow> (Inl (ErrorText (''worker for workflow '' @ uuid_String E iid @ '' not found'')), w)
      | Some p \<Rightarrow>
          let w1 = w\<lparr>sup_workers := delete_worker iid (sup_workers w),
                     sup_signals := sup_signals w @ [(pid_of p w, SIGTERM)]\<rparr>
          in (Inr (),
              next_tick (if exit_timeout E (tick w1)
                         then w1\<lparr>sup_signals := sup_signals w1 @ [(pid_of p w, SIGKILL)]\<rparr>
                         else w1)))"

text \<open>
  \<open>monitorWorker\<close> after its \<open>Wait\<close> returned \<open>exit\<close> (\<open>None\<close> is a nil error). The monitor
  looks its instance up in the map, not its own process.
\<close>

definition crashed :: "WorkerProcess \<Rightarrow> WorkerProcess" where
  "crashed wp = wp\<lparr>wp_Status := ''crashed'', wp_RestartCount := wp_RestartCount wp + 1\<rparr>"

definition monitorWorker ::
  "uuid \<Rightarrow> nat \<Rightarrow> go_error option \<Rightarrow> 'z supervisor_world_scheme \<Rightarrow> 'z supervisor_world_scheme" where
  "monitorWorker iid p exit w =
     (let w0 = w\<lparr>sup_monitors := remove1 (iid, p) (sup_monitors w)\<rparr>
      in if map_of (sup_workers w0) iid = None then w0
         else case exit of
           None \<Rightarrow> w0\<lparr>sup_workers := delete_worker iid (sup_workers w0)\<rparr>
         | Some e \<Rightarrow>
             let w1 = w0\<lparr>sup_procs := (sup_procs w0)(p := map_option crashed (sup_procs w0 p))\<rparr>
             in if (case sup_procs w1 p of None \<Rightarrow> 0 | Some wp \<Rightarrow> wp_RestartCount wp) \<le> sup_maxRestarts w1
                then w1\<lparr>sup_workers := delete_worker iid (sup_workers w1)\<rparr>
                else w1\<lparr>sup_workers := delete_worker iid (sup_workers w1)\<rparr>)"

definition ListWorkers :: "'z supervisor_world_scheme \<Rightarrow> (uuid \<times> nat) list" where
  "ListWorkers w = sup_workers w"

definition StopAll :: "'z supervisor_world_scheme \<Rightarrow> 'z supervisor_world_scheme" where
  "StopAll w =
     w\<lparr>sup_signals := sup_signals w @ map (\<lambda>(iid, p). (pid_of p w, SIGTERM)) (sup_workers w),
       sup_workers := []\<rparr>"

end
