(* ===== verification/Proto.thy ===== *)
theory Proto
  imports Store_Types
begin

text \<open>
  The messages of \<^verbatim>\<open>internal/proto/awm/v1/*.pb.go\<close> the two servers read and write, with
  the fields they use. A pointer to a message, a \<open>*structpb.Struct\<close> and a
  \<open>*timestamppb.Timestamp\<close> are options; \<open>int32\<close> fields are 32-bit words read with \<open>sint\<close>.
  The conversions of \<^verbatim>\<open>structpb\<close>, a third-party package, are the parameter \<open>struct_lib\<close>.
\<close>

type_synonym struct = "(string \<times> json) list option"
type_synonym timestamp = "time option"
type_synonym int32 = "32 word"

record struct_lib =
  AsMap :: "struct \<Rightarrow> gomap"
  NewStruct :: "gomap \<Rightarrow> struct" \<comment> \<open>nil when a value has no counterpart\<close>

section \<open>gRPC status\<close>

datatype code = InvalidArgument | NotFound | Internal

text \<open>\<open>status.Errorf\<close>, or an error returned as it is.\<close>

datatype rpc_error = Status code string | Plain go_error

section \<open>Enumerations\<close>

datatype WorkflowAdvancementEffect =
    WORKFLOW_ADVANCEMENT_EFFECT_UNSPECIFIED
  | WORKFLOW_ADVANCEMENT_EFFECT_TASKS_PENDING
  | WORKFLOW_ADVANCEMENT_EFFECT_ADVANCED
  | WORKFLOW_ADVANCEMENT_EFFECT_COMPLETED
  | WORKFLOW_ADVANCEMENT_EFFECT_FAILED
  | WORKFLOW_ADVANCEMENT_EFFECT_RETRYING
  | WORKFLOW_ADVANCEMENT_EFFECT_WAITING

datatype WorkflowStatus =
    WORKFLOW_STATUS_UNSPECIFIED
  | WORKFLOW_STATUS_RUNNING
  | WORKFLOW_STATUS_SUSPENDED
  | WORKFLOW_STATUS_COMPLETED
  | WORKFLOW_STATUS_FAILED
  | WORKFLOW_STATUS_CANCELED
  | WORKFLOW_STATUS_WAITING

datatype InstanceStatus =
    INSTANCE_STATUS_UNSPECIFIED
  | INSTANCE_STATUS_PROVISIONING
  | INSTANCE_STATUS_ACTIVE
  | INSTANCE_STATUS_DEGRADED
  | INSTANCE_STATUS_STOPPED
  | INSTANCE_STATUS_ARCHIVED

section \<open>Messages of the public service\<close>

record WorkflowDefinitionMsg =
  wm_Id :: string
  wm_Tenant :: string
  wm_Name :: string
  wm_DefinitionId :: string
  wm_Version :: int32
  wm_YamlContent :: string
  wm_CreatedBy :: string
  wm_CreatedAt :: timestamp
  wm_UpdatedAt :: timestamp

record CreateWorkflowDefinitionRequest =
  cwd_Tenant :: string
  cwd_Name :: string
  cwd_YamlContent :: string
  cwd_CreatedBy :: string

record UpdateWorkflowDefinitionRequest =
  uwd_Id :: string
  uwd_YamlContent :: string

record ListWorkflowDefinitionsRequest =
  lwd_Tenant :: string
  lwd_NameFilter :: string
  lwd_PageSize :: int32

record InstanceEndpoints =
  ep_Grpc :: string
  ep_Health :: string

record OrchestratorInstance =
  oi_Id :: string
  oi_WorkflowDefinitionId :: string
  oi_Status :: InstanceStatus
  oi_Endpoints :: "InstanceEndpoints option"
  oi_CreatedAt :: timestamp

record DeployWorkflowResponse =
  dwr_InstanceId :: string
  dwr_Instance :: OrchestratorInstance

record ListInstancesRequest =
  lir_WorkflowDefinitionId :: string
  lir_StatusFilter :: InstanceStatus
  lir_PageSize :: int32

record StopInstanceRequest =
  sir_Id :: string
  sir_Archive :: bool

record StartWorkflowRequest =
  swr_WorkflowDefinitionId :: string
  swr_Tenant :: string
  swr_Input :: struct

record StartWorkflowResponse =
  sws_WorkflowInstanceId :: string
  sws_OrchestratorEndpoint :: string

record SignalWorkflowRequest =
  sig_WorkflowInstanceId :: string
  sig_SignalName :: string
  sig_Payload :: struct

section \<open>Messages of the orchestrator service\<close>

record TaskError =
  tx_Code :: string
  tx_Message :: string
  tx_Details :: struct
  tx_Retryable :: bool

record RegisterAgent =
  ra_AgentId :: string
  ra_Tenant :: string
  ra_Capabilities :: "string list"

datatype TaskOutcome = TaskResult_Success struct | TaskResult_Error "TaskError option" | TaskResult_None

record TaskResult =
  tres_TaskId :: string
  tres_Outcome :: TaskOutcome

datatype AgentToServer =
    AgentToServer_Register RegisterAgent
  | AgentToServer_TaskResult TaskResult
  | AgentToServer_Heartbeat
  | AgentToServer_Disconnect

record TaskAssignment =
  ta_TaskId :: string
  ta_WorkflowInstanceId :: string
  ta_ActivityName :: string
  ta_Input :: struct
  ta_Deadline :: timestamp

datatype ServerToAgent = ServerToAgent_TaskAssignment TaskAssignment | ServerToAgent_Ack bool

record ArtifactRef =
  ar_Type :: string
  ar_Uri :: string
  ar_Label :: string

record TaskEvidence =
  ev_Summary :: string
  ev_Data :: struct
  ev_Artifacts :: "ArtifactRef list"
  ev_AgentId :: string

record ListTasksRequest =
  ltr_WorkflowInstanceId :: string
  ltr_StatusFilter :: string
  ltr_PageSize :: int32

record TaskSummary =
  tsum_TaskId :: string
  tsum_WorkflowInstanceId :: string
  tsum_StateName :: string
  tsum_ActivityName :: string
  tsum_Status :: string
  tsum_AssignedAgentId :: string
  tsum_Deadline :: timestamp
  tsum_CreatedAt :: timestamp

record GetTaskResponse =
  gtr_TaskId :: string
  gtr_WorkflowInstanceId :: string
  gtr_StateName :: string
  gtr_ActivityName :: string
  gtr_Capabilities :: "string list option"
  gtr_Roles :: "string list option"
  gtr_Input :: struct
  gtr_Output :: struct
  gtr_Status :: string
  gtr_AssignedAgentId :: string
  gtr_Deadline :: timestamp
  gtr_CreatedAt :: timestamp
  gtr_UpdatedAt :: timestamp

record ListMyTasksRequest =
  lmt_AgentId :: string
  lmt_Tenant :: string
  lmt_StatusFilter :: string

record ClaimTaskResponse =
  ctr_Claimed :: bool
  ctr_Task :: "TaskAssignment option"
  ctr_Reason :: string

record TaskAuditMsg =
  am_Timestamp :: timestamp
  am_EventType :: string
  am_AgentId :: string
  am_Message :: string
  am_Data :: struct

record TaskStatusEvent =
  tse_TaskId :: string
  tse_Status :: string
  tse_AgentId :: string
  tse_Message :: string
  tse_OccurredAt :: timestamp

record GetWorkflowStateResponse =
  gws_WorkflowInstanceId :: string
  gws_WorkflowDefinitionId :: string
  gws_Status :: WorkflowStatus
  gws_CurrentState :: string
  gws_ContextData :: struct
  gws_CreatedAt :: timestamp
  gws_UpdatedAt :: timestamp

record ListWorkflowsRequest =
  lwr_WorkflowDefinitionId :: string
  lwr_StatusFilter :: WorkflowStatus
  lwr_PageSize :: int32

record WorkflowSummary =
  wsum_WorkflowInstanceId :: string
  wsum_WorkflowDefinitionId :: string
  wsum_Status :: WorkflowStatus
  wsum_CurrentState :: string
  wsum_CreatedAt :: timestamp

record WorkflowEvent =
  we_SequenceNum :: int
  we_Timestamp :: timestamp
  we_EventType :: string
  we_Payload :: struct

text \<open>\<open>limit := int(req.PageSize); if limit <= 0 { limit = 50 }\<close>, shared by the list handlers.\<close>

definition page_limit :: "int32 \<Rightarrow> int" where
  "page_limit s = (if sint s \<le> 0 then 50 else sint s)"

lemma page_limit_pos: "0 < page_limit s"
  by (simp add: page_limit_def)

end
