(* ===== verification/Public_Server.thy ===== *)
theory Public_Server
  imports Supervisor Proto
begin

text \<open>
  \<^verbatim>\<open>internal/api/public_server.go\<close>: workflow definitions, the life cycle of instances and
  queries on them. Every handler returns a response or a status, and the new world.
\<close>

section \<open>Helpers\<close>

definition workflowStatusToInstanceStatus :: "string \<Rightarrow> InstanceStatus" where
  "workflowStatusToInstanceStatus s =
     (if s = ''PROVISIONING'' then INSTANCE_STATUS_PROVISIONING
      else if s = ''RUNNING'' then INSTANCE_STATUS_ACTIVE
      else if s = ''DEGRADED'' then INSTANCE_STATUS_DEGRADED
      else if s = ''STOPPED'' \<or> s = ''CANCELED'' then INSTANCE_STATUS_STOPPED
      else if s = ''ARCHIVED'' then INSTANCE_STATUS_ARCHIVED
      else INSTANCE_STATUS_UNSPECIFIED)"

fun protoInstanceStatusToString :: "InstanceStatus \<Rightarrow> string" where
  "protoInstanceStatusToString INSTANCE_STATUS_PROVISIONING = ''PROVISIONING''"
| "protoInstanceStatusToString INSTANCE_STATUS_ACTIVE = ''RUNNING''"
| "protoInstanceStatusToString INSTANCE_STATUS_DEGRADED = ''DEGRADED''"
| "protoInstanceStatusToString INSTANCE_STATUS_STOPPED = ''STOPPED''"
| "protoInstanceStatusToString INSTANCE_STATUS_ARCHIVED = ''ARCHIVED''"
| "protoInstanceStatusToString INSTANCE_STATUS_UNSPECIFIED = ''''"

definition local_endpoints :: InstanceEndpoints where
  "local_endpoints = \<lparr>ep_Grpc = ''localhost:9091'', ep_Health = ''http://localhost:8080/healthz''\<rparr>"

definition instanceToProto :: "'n environment \<Rightarrow> gomap WorkflowInstance \<Rightarrow> OrchestratorInstance" where
  "instanceToProto E inst =
     \<lparr>oi_Id = uuid_String E (wi_ID inst), oi_WorkflowDefinitionId = wi_WorkflowDefinitionID inst,
      oi_Status = workflowStatusToInstanceStatus (wi_Status inst),
      oi_Endpoints = Some local_endpoints, oi_CreatedAt = Some (wi_CreatedAt inst)\<rparr>"

definition definitionRowToProto :: "'n environment \<Rightarrow> string WorkflowDefinitionRow \<Rightarrow> WorkflowDefinitionMsg" where
  "definitionRowToProto E row =
     \<lparr>wm_Id = uuid_String E (dr_ID row), wm_Tenant = dr_TenantID row, wm_Name = dr_Name row,
      wm_DefinitionId = dr_DefinitionID row, wm_Version = word_of_int (dr_Version row),
      wm_YamlContent = dr_YAMLContent row, wm_CreatedBy = dr_CreatedBy row,
      wm_CreatedAt = Some (dr_CreatedAt row), wm_UpdatedAt = Some (dr_UpdatedAt row)\<rparr>"

text \<open>\<open>SELECT id FROM tenants WHERE name = $1\<close>\<close>

definition tenant_id :: "'n environment \<Rightarrow> string \<Rightarrow> 'z world_scheme \<Rightarrow> (go_error + string) \<times> 'z world_scheme" where
  "tenant_id E name =
     db_query E (\<lambda>n d. case first_row (filter (\<lambda>t. te_Name t = name) (tenants d)) of
                         Inl e \<Rightarrow> Inl e | Inr t \<Rightarrow> Inr (te_ID t))"

section \<open>Workflow definition management\<close>

definition CreateWorkflowDefinition ::
  "'n environment \<Rightarrow> CreateWorkflowDefinitionRequest \<Rightarrow> 'z registry_world_scheme \<Rightarrow>
   (rpc_error + WorkflowDefinitionMsg) \<times> 'z registry_world_scheme" where
  "CreateWorkflowDefinition E req w =
     (if cwd_YamlContent req = [] then (Inl (Status InvalidArgument ''yaml_content is required''), w)
      else case Parse (yaml E) (cwd_YamlContent req) of
        Inl e \<Rightarrow> (Inl (Status InvalidArgument ''invalid YAML''), w)
      | Inr def \<Rightarrow>
          (case tenant_id E (cwd_Tenant req) w of
             (Inl e, w1) \<Rightarrow>
               if errors_Is e ErrNoRows then (Inl (Status NotFound ''tenant not found''), w1)
               else (Inl (Status Internal ''failed to resolve tenant''), w1)
           | (Inr tid, w1) \<Rightarrow>
               let (i, w2) = (if wd_ID def = []
                              then let (u, w2) = uuid_New E w1 in (uuid_String E u, w2)
                              else (wd_ID def, w1));
                   def' = def\<lparr>wd_ID := i, wd_Tenant := tid, wd_Name := cwd_Name req,
                              wd_Version := ''1'', wd_YAML := cwd_YamlContent req\<rparr>
               in case reg_Store E def' w2 of
                    (Inl e, w3) \<Rightarrow> (Inl (Status Internal ''failed to store definition''), w3)
                  | (Inr _, w3) \<Rightarrow>
                      (Inr \<lparr>wm_Id = i, wm_Tenant = cwd_Tenant req, wm_Name = wd_Name def',
                            wm_DefinitionId = i, wm_Version = 1, wm_YamlContent = wd_YAML def',
                            wm_CreatedBy = cwd_CreatedBy req, wm_CreatedAt = None,
                            wm_UpdatedAt = None\<rparr>, w3)))"

definition GetWorkflowDefinition ::
  "'n environment \<Rightarrow> string \<Rightarrow> 'z registry_world_scheme \<Rightarrow>
   (rpc_error + WorkflowDefinitionMsg) \<times> 'z registry_world_scheme" where
  "GetWorkflowDefinition E i w =
     (case reg_Get E i w of
        (Inl e, w1) \<Rightarrow> (Inl (Status NotFound ''workflow definition not found''), w1)
      | (Inr def, w1) \<Rightarrow>
          (Inr \<lparr>wm_Id = wd_ID def, wm_Tenant = wd_Tenant def, wm_Name = wd_Name def,
                wm_DefinitionId = wd_ID def, wm_Version = 1, wm_YamlContent = wd_YAML def,
                wm_CreatedBy = [], wm_CreatedAt = None, wm_UpdatedAt = None\<rparr>, w1))"

definition UpdateWorkflowDefinition ::
  "'n environment \<Rightarrow> UpdateWorkflowDefinitionRequest \<Rightarrow> 'z registry_world_scheme \<Rightarrow>
   (rpc_error + WorkflowDefinitionMsg) \<times> 'z registry_world_scheme" where
  "UpdateWorkflowDefinition E req w =
     (if uwd_Id req = [] \<or> uwd_YamlContent req = []
      then (Inl (Status InvalidArgument ''id and yaml_content are required''), w)
      else case uuid_Parse E (uwd_Id req) of
        Inl e \<Rightarrow> (Inl (Status InvalidArgument ''invalid id''), w)
      | Inr i \<Rightarrow>
          (case Parse (yaml E) (uwd_YamlContent req) of
             Inl e \<Rightarrow> (Inl (Status InvalidArgument ''invalid YAML''), w)
           | Inr _ \<Rightarrow>
               (case UpdateWorkflowDefinitionYAML E i (uwd_YamlContent req) w of
                  (Inl e, w1) \<Rightarrow> (Inl (Status Internal ''update failed''), w1)
                | (Inr _, w1) \<Rightarrow>
                    (case db_query E (\<lambda>n d. first_row (filter (\<lambda>r. dr_ID r = i) (workflow_definitions d))) w1 of
                       (Inl e, w2) \<Rightarrow> (Inl (Status Internal ''failed to reload definition''), w2)
                     | (Inr row, w2) \<Rightarrow> (Inr (definitionRowToProto E (scan_definition row)), w2)))))"

text \<open>Also named \<open>DeleteWorkflowDefinition\<close> in the source, as the store's method.\<close>

definition api_DeleteWorkflowDefinition ::
  "'n environment \<Rightarrow> string \<Rightarrow> 'z world_scheme \<Rightarrow> (rpc_error + bool) \<times> 'z world_scheme" where
  "api_DeleteWorkflowDefinition E reqId w =
     (if reqId = [] then (Inl (Status InvalidArgument ''id is required''), w)
      else case uuid_Parse E reqId of
        Inl e \<Rightarrow> (Inl (Status InvalidArgument ''invalid id''), w)
      | Inr i \<Rightarrow>
          (case DeleteWorkflowDefinition E i w of
             (Inl e, w1) \<Rightarrow> (Inl (Status Internal ''delete failed''), w1)
           | (Inr _, w1) \<Rightarrow> (Inr True, w1)))"

definition api_ListWorkflowDefinitions ::
  "'n environment \<Rightarrow> ListWorkflowDefinitionsRequest \<Rightarrow> 'z world_scheme \<Rightarrow>
   (rpc_error + WorkflowDefinitionMsg list) \<times> 'z world_scheme" where
  "api_ListWorkflowDefinitions E req w =
     (let (resolved, w1) =
            (if lwd_Tenant req \<noteq> [] then
               (case tenant_id E (lwd_Tenant req) w of
                  (Inl e, w1) \<Rightarrow> if errors_Is e ErrNoRows then (Inr [], w1) else (Inl e, w1)
                | (Inr tid, w1) \<Rightarrow> (Inr tid, w1))
             else (Inr [], w))
      in case resolved of
           Inl e \<Rightarrow> (Inl (Status Internal ''failed to resolve tenant''), w1)
         | Inr tid \<Rightarrow>
             (case ListWorkflowDefinitions E
                     \<lparr>ldf_TenantID = tid, ldf_NameFilter = lwd_NameFilter req,
                      ldf_Limit = page_limit (lwd_PageSize req), ldf_Offset = 0\<rparr> w1 of
                (Inl e, w2) \<Rightarrow> (Inl (Status Internal ''list failed''), w2)
              | (Inr rows, w2) \<Rightarrow> (Inr (map (definitionRowToProto E) rows), w2)))"

section \<open>Workflow lifecycle\<close>

text \<open>
  \<open>DeployWorkflow\<close> and \<open>StartWorkflow\<close> share the start of the instance and of its worker.
  The inner function is their common part; the tenant and the input differ.
\<close>

definition start_instance ::
  "'n environment \<Rightarrow> WorkflowDefinition \<Rightarrow> string \<Rightarrow> gomap \<Rightarrow> string \<Rightarrow> 'z supervisor_world_scheme \<Rightarrow>
   (rpc_error + uuid) \<times> 'z supervisor_world_scheme" where
  "start_instance E def tenant input failure w =
     (case StartWorkflow E def tenant input w of
        (Inl e, w1) \<Rightarrow> (Inl (Status Internal failure), w1)
      | (Inr iid, w1) \<Rightarrow>
          (case StartWorker E iid (wd_ID def) tenant w1 of
             (Inl e, w2) \<Rightarrow>
               (Inl (Status Internal ''failed to start worker''), snd (UpdateWorkflowStatus E iid ''DEGRADED'' w2))
           | (Inr _, w2) \<Rightarrow> (Inr iid, w2)))"

definition DeployWorkflow ::
  "'n environment \<Rightarrow> string \<Rightarrow> 'z supervisor_world_scheme \<Rightarrow>
   (rpc_error + DeployWorkflowResponse) \<times> 'z supervisor_world_scheme" where
  "DeployWorkflow E defId w =
     (case reg_Get E defId w of
        (Inl e, w1) \<Rightarrow> (Inl (Status NotFound ''workflow definition not found''), w1)
      | (Inr def, w1) \<Rightarrow>
          (case start_instance E def (wd_Tenant def) None ''failed to create workflow instance'' w1 of
             (Inl e, w2) \<Rightarrow> (Inl e, w2)
           | (Inr iid, w2) \<Rightarrow>
               (Inr \<lparr>dwr_InstanceId = uuid_String E iid,
                     dwr_Instance = \<lparr>oi_Id = uuid_String E iid, oi_WorkflowDefinitionId = wd_ID def,
                       oi_Status = INSTANCE_STATUS_PROVISIONING, oi_Endpoints = Some local_endpoints,
                       oi_CreatedAt = None\<rparr>\<rparr>, w2)))"

definition api_StartWorkflow ::
  "'n environment \<Rightarrow> struct_lib \<Rightarrow> StartWorkflowRequest \<Rightarrow> 'z supervisor_world_scheme \<Rightarrow>
   (rpc_error + StartWorkflowResponse) \<times> 'z supervisor_world_scheme" where
  "api_StartWorkflow E S req w =
     (case reg_Get E (swr_WorkflowDefinitionId req) w of
        (Inl e, w1) \<Rightarrow> (Inl (Status NotFound ''workflow definition not found''), w1)
      | (Inr def, w1) \<Rightarrow>
          (case start_instance E def (swr_Tenant req) (AsMap S (swr_Input req)) ''failed to start workflow'' w1 of
             (Inl e, w2) \<Rightarrow> (Inl e, w2)
           | (Inr iid, w2) \<Rightarrow>
               (Inr \<lparr>sws_WorkflowInstanceId = uuid_String E iid,
                     sws_OrchestratorEndpoint = ''localhost:9091''\<rparr>, w2)))"

definition CancelWorkflow ::
  "'n environment \<Rightarrow> string \<Rightarrow> 'z supervisor_world_scheme \<Rightarrow>
   (rpc_error + bool) \<times> 'z supervisor_world_scheme" where
  "CancelWorkflow E reqId w =
     (case uuid_Parse E reqId of
        Inl e \<Rightarrow> (Inl (Status InvalidArgument ''invalid workflow_instance_id''), w)
      | Inr iid \<Rightarrow>
          (case StopWorker E iid w of
             (Inl e, w1) \<Rightarrow> (Inl (Status Internal ''failed to stop worker''), w1)
           | (Inr _, w1) \<Rightarrow>
               (case UpdateWorkflowStatus E iid ''CANCELED'' w1 of
                  (Inl e, w2) \<Rightarrow> (Inl (Plain e), w2)
                | (Inr _, w2) \<Rightarrow> (Inr True, w2))))"

text \<open>The event has no sequence number: the field keeps its zero value.\<close>

definition SignalWorkflow ::
  "'n environment \<Rightarrow> struct_lib \<Rightarrow> SignalWorkflowRequest \<Rightarrow> 'z world_scheme \<Rightarrow>
   (rpc_error + bool) \<times> 'z world_scheme" where
  "SignalWorkflow E S req w =
     (if sig_WorkflowInstanceId req = [] \<or> sig_SignalName req = []
      then (Inl (Status InvalidArgument ''workflow_instance_id and signal_name are required''), w)
      else case uuid_Parse E (sig_WorkflowInstanceId req) of
        Inl e \<Rightarrow> (Inl (Status InvalidArgument ''invalid workflow_instance_id''), w)
      | Inr iid \<Rightarrow>
          (case LoadInstance E iid w of
             (Inl e, w1) \<Rightarrow>
               if errors_Is e ErrInstanceNotFound then (Inl (Status NotFound ''instance not found''), w1)
               else (Inl (Status Internal ''failed to load instance''), w1)
           | (Inr (inst, _), w1) \<Rightarrow>
               let payload = (if sig_Payload req = None then Some [] else AsMap S (sig_Payload req));
                   event = \<lparr>he_SequenceNum = 0, he_EventType = ''SIGNAL_RECEIVED'',
                            he_Payload = Some [(''signal_name'', JStr (sig_SignalName req)),
                                               (''data'', json_of_map payload)],
                            he_RecordedAt = 0\<rparr>
               in case AppendEvents E iid (wi_Version inst) [event] w1 of
                    (Inl e, w2) \<Rightarrow> (Inl (Status Internal ''failed to append signal event''), w2)
                  | (Inr _, w2) \<Rightarrow> (Inr True, w2)))"

section \<open>Instance queries\<close>

definition GetInstance ::
  "'n environment \<Rightarrow> string \<Rightarrow> 'z world_scheme \<Rightarrow> (rpc_error + OrchestratorInstance) \<times> 'z world_scheme" where
  "GetInstance E reqId w =
     (if reqId = [] then (Inl (Status InvalidArgument ''id is required''), w)
      else case uuid_Parse E reqId of
        Inl e \<Rightarrow> (Inl (Status InvalidArgument ''invalid id''), w)
      | Inr iid \<Rightarrow>
          (case LoadInstance E iid w of
             (Inl e, w1) \<Rightarrow>
               if errors_Is e ErrInstanceNotFound then (Inl (Status NotFound ''instance not found''), w1)
               else (Inl (Status Internal ''failed to load instance''), w1)
           | (Inr (inst, _), w1) \<Rightarrow> (Inr (instanceToProto E inst), w1)))"

definition ListInstances ::
  "'n environment \<Rightarrow> ListInstancesRequest \<Rightarrow> 'z world_scheme \<Rightarrow>
   (rpc_error + OrchestratorInstance list) \<times> 'z world_scheme" where
  "ListInstances E req w =
     (case ListWorkflowInstances E
             \<lparr>lif_WorkflowDefinitionID = lir_WorkflowDefinitionId req,
              lif_Status = protoInstanceStatusToString (lir_StatusFilter req),
              lif_Limit = page_limit (lir_PageSize req), lif_Offset = 0\<rparr> w of
        (Inl e, w1) \<Rightarrow> (Inl (Status Internal ''list failed''), w1)
      | (Inr insts, w1) \<Rightarrow> (Inr (map (instanceToProto E) insts), w1))"

definition StopInstance ::
  "'n environment \<Rightarrow> StopInstanceRequest \<Rightarrow> 'z supervisor_world_scheme \<Rightarrow>
   (rpc_error + bool) \<times> 'z supervisor_world_scheme" where
  "StopInstance E req w =
     (if sir_Id req = [] then (Inl (Status InvalidArgument ''id is required''), w)
      else case uuid_Parse E (sir_Id req) of
        Inl e \<Rightarrow> (Inl (Status InvalidArgument ''invalid id''), w)
      | Inr iid \<Rightarrow>
          let w1 = snd (StopWorker E iid w)
          in case UpdateWorkflowStatus E iid (if sir_Archive req then ''ARCHIVED'' else ''STOPPED'') w1 of
               (Inl e, w2) \<Rightarrow> (Inl (Status Internal ''failed to update instance status''), w2)
             | (Inr _, w2) \<Rightarrow> (Inr True, w2))"

end
