(* ===== verification/Orchestrator_Server.thy ===== *)
theory Orchestrator_Server
  imports Supervisor Proto
begin

text \<open>
  \<^verbatim>\<open>internal/api/orchestrator_server.go\<close>: the service agents talk to. The parameter \<open>S\<close> is
  the third-party conversion of structs.
\<close>

section \<open>Helpers\<close>

definition taskToSummary :: "'n environment \<Rightarrow> task \<Rightarrow> TaskSummary" where
  "taskToSummary E t =
     \<lparr>tsum_TaskId = uuid_String E (tk_ID t),
      tsum_WorkflowInstanceId = uuid_String E (tk_WorkflowInstanceID t),
      tsum_StateName = tk_StateName t, tsum_ActivityName = tk_ActivityName t,
      tsum_Status = tk_Status t,
      tsum_AssignedAgentId = (case tk_AssignedAgentID t of None \<Rightarrow> [] | Some a \<Rightarrow> a),
      tsum_Deadline = tk_Deadline t, tsum_CreatedAt = Some (tk_CreatedAt t)\<rparr>"

definition artifact_value :: "ArtifactRef \<Rightarrow> json" where
  "artifact_value a = JObj [(''type'', JStr (ar_Type a)), (''uri'', JStr (ar_Uri a)), (''label'', JStr (ar_Label a))]"

definition evidenceToMaps :: "struct_lib \<Rightarrow> TaskEvidence option \<Rightarrow> gomap \<times> gomap" where
  "evidenceToMaps S ev =
     (case ev of
        None \<Rightarrow> (Some [], Some [])
      | Some e \<Rightarrow>
          let base = [(''summary'', JStr (ev_Summary e)), (''agent_id'', JStr (ev_AgentId e))];
              data = (if ev_Data e = None then [] else [(''data'', json_of_map (AsMap S (ev_Data e)))]);
              result = (if ev_Data e = None then Some [] else AsMap S (ev_Data e))
          in (result, Some (base @ data @ [(''artifacts'', JArr (map artifact_value (ev_Artifacts e)))])))"

fun advancementEffectToProto :: "TaskAdvancementEffect \<Rightarrow> WorkflowAdvancementEffect" where
  "advancementEffectToProto EffectTasksPending = WORKFLOW_ADVANCEMENT_EFFECT_TASKS_PENDING"
| "advancementEffectToProto EffectAdvanced = WORKFLOW_ADVANCEMENT_EFFECT_ADVANCED"
| "advancementEffectToProto EffectCompleted = WORKFLOW_ADVANCEMENT_EFFECT_COMPLETED"
| "advancementEffectToProto EffectFailed = WORKFLOW_ADVANCEMENT_EFFECT_FAILED"
| "advancementEffectToProto EffectRetrying = WORKFLOW_ADVANCEMENT_EFFECT_RETRYING"
| "advancementEffectToProto EffectWaiting = WORKFLOW_ADVANCEMENT_EFFECT_WAITING"

definition workflowStatusFromString :: "string \<Rightarrow> WorkflowStatus" where
  "workflowStatusFromString s =
     (if s = ''RUNNING'' then WORKFLOW_STATUS_RUNNING
      else if s = ''COMPLETED'' then WORKFLOW_STATUS_COMPLETED
      else if s = ''FAILED'' then WORKFLOW_STATUS_FAILED
      else if s = ''CANCELED'' then WORKFLOW_STATUS_CANCELED
      else if s = ''SUSPENDED'' then WORKFLOW_STATUS_SUSPENDED
      else if s = ''WAITING'' then WORKFLOW_STATUS_WAITING
      else WORKFLOW_STATUS_UNSPECIFIED)"

fun workflowStatusToString :: "WorkflowStatus \<Rightarrow> string" where
  "workflowStatusToString WORKFLOW_STATUS_RUNNING = ''RUNNING''"
| "workflowStatusToString WORKFLOW_STATUS_COMPLETED = ''COMPLETED''"
| "workflowStatusToString WORKFLOW_STATUS_FAILED = ''FAILED''"
| "workflowStatusToString WORKFLOW_STATUS_CANCELED = ''CANCELED''"
| "workflowStatusToString WORKFLOW_STATUS_SUSPENDED = ''SUSPENDED''"
| "workflowStatusToString WORKFLOW_STATUS_WAITING = ''WAITING''"
| "workflowStatusToString WORKFLOW_STATUS_UNSPECIFIED = ''''"

text \<open>\<open>_ = s.store.AppendTaskAudit(ctx, ...)\<close>: the result is dropped.\<close>

definition audit ::
  "'n environment \<Rightarrow> uuid \<Rightarrow> string \<Rightarrow> string \<Rightarrow> string \<Rightarrow> gomap \<Rightarrow> 'z world_scheme \<Rightarrow> 'z world_scheme" where
  "audit E taskID typ agentID msg data w =
     (let (i, w1) = uuid_New E w
      in snd (AppendTaskAudit E \<lparr>ae_ID = i, ae_TaskID = taskID, ae_EventType = typ, ae_AgentID = agentID,
                               ae_Message = msg, ae_Data = data, ae_OccurredAt = 0\<rparr> w1))"

definition assignment_of :: "'n environment \<Rightarrow> struct_lib \<Rightarrow> timestamp \<Rightarrow> task \<Rightarrow> TaskAssignment" where
  "assignment_of E S deadline t =
     \<lparr>ta_TaskId = uuid_String E (tk_ID t), ta_WorkflowInstanceId = uuid_String E (tk_WorkflowInstanceID t),
      ta_ActivityName = tk_ActivityName t, ta_Input = NewStruct S (tk_Input t), ta_Deadline = deadline\<rparr>"

section \<open>The agent stream\<close>

text \<open>
  One connection: the variables of \<open>Connect\<close>, the messages sent on the stream and the
  \<open>pushTasks\<close> goroutines started (with the arguments they captured).
\<close>

record connection =
  cn_agentID :: string
  cn_tenant :: string
  cn_capabilities :: "string list"
  cn_sent :: "ServerToAgent list"
  cn_pushers :: "(string \<times> string \<times> string list) list"

definition new_connection :: connection where
  "new_connection = \<lparr>cn_agentID = [], cn_tenant = [], cn_capabilities = [], cn_sent = [], cn_pushers = []\<rparr>"

definition handle_message ::
  "'n environment \<Rightarrow> struct_lib \<Rightarrow> AgentToServer \<Rightarrow> connection \<Rightarrow> 'z engine_world_scheme \<Rightarrow>
   connection \<times> 'z engine_world_scheme" where
  "handle_message E S msg c w =
     (case msg of
        AgentToServer_Register r \<Rightarrow>
          (c\<lparr>cn_agentID := ra_AgentId r, cn_tenant := ra_Tenant r, cn_capabilities := ra_Capabilities r,
             cn_sent := cn_sent c @ [ServerToAgent_Ack True],
             cn_pushers := cn_pushers c @ [(ra_AgentId r, ra_Tenant r, ra_Capabilities r)]\<rparr>, w)
      | AgentToServer_TaskResult res \<Rightarrow>
          (case uuid_Parse E (tres_TaskId res) of
             Inl e \<Rightarrow> (c, w)
           | Inr taskID \<Rightarrow>
               (case tres_Outcome res of
                  TaskResult_Success s \<Rightarrow> (c, snd (CompleteTask E taskID (AsMap S s) w))
                | TaskResult_Error err \<Rightarrow> (c, snd (FailTask E taskID err w))
                | TaskResult_None \<Rightarrow> (c, w)))
      | AgentToServer_Heartbeat \<Rightarrow> (c, w)
      | AgentToServer_Disconnect \<Rightarrow> (c, w))"

datatype recv = RecvMsg AgentToServer | RecvEOF | RecvErr go_error

text \<open>
  The receive loop over what \<open>stream.Recv\<close> delivers; \<open>None\<close> is a handler still waiting for
  the next message.
\<close>

fun Connect ::
  "'n environment \<Rightarrow> struct_lib \<Rightarrow> recv list \<Rightarrow> connection \<Rightarrow> 'z engine_world_scheme \<Rightarrow>
   (go_error + unit) option \<times> connection \<times> 'z engine_world_scheme" where
  "Connect E S [] c w = (None, c, w)"
| "Connect E S (RecvEOF # rs) c w = (Some (Inr ()), c, w)"
| "Connect E S (RecvErr e # rs) c w = (Some (Inl e), c, w)"
| "Connect E S (RecvMsg m # rs) c w = (case handle_message E S m c w of (c', w') \<Rightarrow> Connect E S rs c' w')"

text \<open>
  One round of \<open>pushTasks\<close> with the captured agent and capabilities; \<open>True\<close> means that the
  loop goes on. \<open>done\<close> is the state of the stream's context, \<open>sends\<close> whether \<open>Send\<close> succeeds.
\<close>

definition pushTasks_round ::
  "'n environment \<Rightarrow> struct_lib \<Rightarrow> string \<Rightarrow> string list \<Rightarrow> bool \<Rightarrow> bool \<Rightarrow> connection \<Rightarrow>
   'z world_scheme \<Rightarrow> bool \<times> connection \<times> 'z world_scheme" where
  "pushTasks_round E S agentID capabilities ctx_done sends c w =
     (if ctx_done then (False, c, w)
      else case ClaimPendingTask E capabilities agentID w of
        (Inl e, w1) \<Rightarrow> (True, c, w1)
      | (Inr None, w1) \<Rightarrow> (True, c, w1)
      | (Inr (Some task), w1) \<Rightarrow>
          if sends then
            (True, c\<lparr>cn_sent := cn_sent c @
               [ServerToAgent_TaskAssignment (assignment_of E S (tk_Deadline task) task)]\<rparr>, w1)
          else (False, c, w1))"

section \<open>Unary task operations\<close>

definition PollTask ::
  "'n environment \<Rightarrow> struct_lib \<Rightarrow> string \<Rightarrow> 'z world_scheme \<Rightarrow>
   (rpc_error + TaskAssignment option) \<times> 'z world_scheme" where
  "PollTask E S agentId w =
     (case ClaimPendingTask E [] agentId w of
        (Inl e, w1) \<Rightarrow> (Inl (Plain e), w1)
      | (Inr None, w1) \<Rightarrow> (Inr None, w1)
      | (Inr (Some task), w1) \<Rightarrow> (Inr (Some (assignment_of E S None task)), w1))"

definition api_CompleteTask ::
  "'n environment \<Rightarrow> struct_lib \<Rightarrow> string \<Rightarrow> struct \<Rightarrow> 'z engine_world_scheme \<Rightarrow>
   (rpc_error + bool) \<times> 'z engine_world_scheme" where
  "api_CompleteTask E S reqTaskId result w =
     (case uuid_Parse E reqTaskId of
        Inl e \<Rightarrow> (Inl (Status InvalidArgument ''invalid task_id''), w)
      | Inr taskID \<Rightarrow>
          (case CompleteTask E taskID (AsMap S result) w of
             (Inl e, w1) \<Rightarrow> (Inl (Plain e), w1)
           | (Inr _, w1) \<Rightarrow> (Inr True, w1)))"

definition api_FailTask ::
  "'n environment \<Rightarrow> string \<Rightarrow> TaskError option \<Rightarrow> 'z engine_world_scheme \<Rightarrow>
   (rpc_error + bool) \<times> 'z engine_world_scheme" where
  "api_FailTask E reqTaskId err w =
     (case uuid_Parse E reqTaskId of
        Inl e \<Rightarrow> (Inl (Status InvalidArgument ''invalid task_id''), w)
      | Inr taskID \<Rightarrow>
          (case FailTask E taskID err w of
             (Inl e, w1) \<Rightarrow> (Inl (Plain e), w1)
           | (Inr _, w1) \<Rightarrow> (Inr True, w1)))"

definition api_Heartbeat :: "'w \<Rightarrow> (rpc_error + bool) \<times> 'w" where
  "api_Heartbeat w = (Inr True, w)"

section \<open>Workflow state and listing\<close>

definition api_GetWorkflowState ::
  "'n environment \<Rightarrow> struct_lib \<Rightarrow> string \<Rightarrow> 'z world_scheme \<Rightarrow>
   (rpc_error + GetWorkflowStateResponse) \<times> 'z world_scheme" where
  "api_GetWorkflowState E S reqId w =
     (case uuid_Parse E reqId of
        Inl e \<Rightarrow> (Inl (Status InvalidArgument ''invalid workflow_instance_id''), w)
      | Inr iid \<Rightarrow>
          (case GetWorkflowState E iid w of
             (Inl e, w1) \<Rightarrow> (Inl (Plain e), w1)
           | (Inr inst, w1) \<Rightarrow>
               (Inr \<lparr>gws_WorkflowInstanceId = uuid_String E (wi_ID inst),
                     gws_WorkflowDefinitionId = wi_WorkflowDefinitionID inst,
                     gws_Status = workflowStatusFromString (wi_Status inst),
                     gws_CurrentState = wi_CurrentPhase inst,
                     gws_ContextData = NewStruct S (wi_DimensionalState inst),
                     gws_CreatedAt = Some (wi_CreatedAt inst),
                     gws_UpdatedAt = Some (wi_UpdatedAt inst)\<rparr>, w1)))"

definition workflow_summary :: "'n environment \<Rightarrow> gomap WorkflowInstance \<Rightarrow> WorkflowSummary" where
  "workflow_summary E inst =
     \<lparr>wsum_WorkflowInstanceId = uuid_String E (wi_ID inst),
      wsum_WorkflowDefinitionId = wi_WorkflowDefinitionID inst,
      wsum_Status = workflowStatusFromString (wi_Status inst),
      wsum_CurrentState = wi_CurrentPhase inst, wsum_CreatedAt = Some (wi_CreatedAt inst)\<rparr>"

definition ListWorkflows ::
  "'n environment \<Rightarrow> ListWorkflowsRequest \<Rightarrow> 'z world_scheme \<Rightarrow>
   (rpc_error + WorkflowSummary list) \<times> 'z world_scheme" where
  "ListWorkflows E req w =
     (case ListWorkflowInstances E
             \<lparr>lif_WorkflowDefinitionID = lwr_WorkflowDefinitionId req,
              lif_Status = workflowStatusToString (lwr_StatusFilter req),
              lif_Limit = page_limit (lwr_PageSize req), lif_Offset = 0\<rparr> w of
        (Inl e, w1) \<Rightarrow> (Inl (Status Internal ''list workflows failed''), w1)
      | (Inr insts, w1) \<Rightarrow> (Inr (map (workflow_summary E) insts), w1))"

definition workflow_event :: "struct_lib \<Rightarrow> HistoryEvent \<Rightarrow> WorkflowEvent" where
  "workflow_event S e =
     \<lparr>we_SequenceNum = he_SequenceNum e, we_Timestamp = Some (he_RecordedAt e),
      we_EventType = he_EventType e, we_Payload = NewStruct S (he_Payload e)\<rparr>"

text \<open>\<open>stream.Send\<close> fails from the message \<open>failAt\<close> on, if at all.\<close>

definition StreamWorkflowEvents ::
  "'n environment \<Rightarrow> struct_lib \<Rightarrow> string \<Rightarrow> int \<Rightarrow> nat option \<Rightarrow> 'z world_scheme \<Rightarrow>
   (rpc_error + unit) \<times> WorkflowEvent list \<times> 'z world_scheme" where
  "StreamWorkflowEvents E S reqId afterSeq failAt w =
     (case uuid_Parse E reqId of
        Inl e \<Rightarrow> (Inl (Status InvalidArgument ''invalid workflow_instance_id''), [], w)
      | Inr iid \<Rightarrow>
          (case GetHistoryEvents E iid afterSeq w of
             (Inl e, w1) \<Rightarrow> (Inl (Status Internal ''failed to load events''), [], w1)
           | (Inr evs, w1) \<Rightarrow>
               (case failAt of
                  None \<Rightarrow> (Inr (), map (workflow_event S) evs, w1)
                | Some k \<Rightarrow>
                    if k < length evs then (Inl (Plain DriverError), map (workflow_event S) (take k evs), w1)
                    else (Inr (), map (workflow_event S) evs, w1))))"

section \<open>Task queries\<close>

definition ListTasks ::
  "'n environment \<Rightarrow> ListTasksRequest \<Rightarrow> 'z world_scheme \<Rightarrow>
   (rpc_error + TaskSummary list) \<times> 'z world_scheme" where
  "ListTasks E req w =
     (case uuid_Parse E (ltr_WorkflowInstanceId req) of
        Inl e \<Rightarrow> (Inl (Status InvalidArgument ''invalid workflow_instance_id''), w)
      | Inr iid \<Rightarrow>
          (case ListTasksForInstance E iid (ltr_StatusFilter req) (page_limit (ltr_PageSize req)) 0 w of
             (Inl e, w1) \<Rightarrow> (Inl (Status Internal ''list tasks failed''), w1)
           | (Inr ts, w1) \<Rightarrow> (Inr (map (taskToSummary E) ts), w1)))"

definition api_GetTask ::
  "'n environment \<Rightarrow> struct_lib \<Rightarrow> string \<Rightarrow> 'z world_scheme \<Rightarrow>
   (rpc_error + GetTaskResponse) \<times> 'z world_scheme" where
  "api_GetTask E S reqTaskId w =
     (case uuid_Parse E reqTaskId of
        Inl e \<Rightarrow> (Inl (Status InvalidArgument ''invalid task_id''), w)
      | Inr taskID \<Rightarrow>
          (case GetTask E taskID w of
             (Inl e, w1) \<Rightarrow>
               if errors_Is e ErrTaskNotFound then (Inl (Status NotFound ''task not found''), w1)
               else (Inl (Status Internal ''get task failed''), w1)
           | (Inr t, w1) \<Rightarrow>
               (Inr \<lparr>gtr_TaskId = uuid_String E (tk_ID t),
                     gtr_WorkflowInstanceId = uuid_String E (tk_WorkflowInstanceID t),
                     gtr_StateName = tk_StateName t, gtr_ActivityName = tk_ActivityName t,
                     gtr_Capabilities = tk_Capabilities t, gtr_Roles = tk_Roles t,
                     gtr_Input = NewStruct S (tk_Input t), gtr_Output = NewStruct S (tk_Output t),
                     gtr_Status = tk_Status t,
                     gtr_AssignedAgentId = (case tk_AssignedAgentID t of None \<Rightarrow> [] | Some a \<Rightarrow> a),
                     gtr_Deadline = tk_Deadline t, gtr_CreatedAt = Some (tk_CreatedAt t),
                     gtr_UpdatedAt = Some (tk_UpdatedAt t)\<rparr>, w1)))"

definition ListMyTasks ::
  "'n environment \<Rightarrow> ListMyTasksRequest \<Rightarrow> 'z world_scheme \<Rightarrow>
   (rpc_error + TaskSummary list) \<times> 'z world_scheme" where
  "ListMyTasks E req w =
     (if lmt_AgentId req = [] then (Inl (Status InvalidArgument ''agent_id is required''), w)
      else case ListTasksForAgent E (lmt_AgentId req) (lmt_Tenant req) (lmt_StatusFilter req) w of
        (Inl e, w1) \<Rightarrow> (Inl (Status Internal ''list tasks failed''), w1)
      | (Inr ts, w1) \<Rightarrow> (Inr (map (taskToSummary E) ts), w1))"

section \<open>Task resolution\<close>

definition thirty_minutes :: time where
  "thirty_minutes = 1800000000000"

definition api_ClaimTask ::
  "'n environment \<Rightarrow> struct_lib \<Rightarrow> string \<Rightarrow> string \<Rightarrow> 'z world_scheme \<Rightarrow>
   (rpc_error + ClaimTaskResponse) \<times> 'z world_scheme" where
  "api_ClaimTask E S reqTaskId agentId w =
     (if reqTaskId = [] \<or> agentId = []
      then (Inl (Status InvalidArgument ''task_id and agent_id are required''), w)
      else case uuid_Parse E reqTaskId of
        Inl e \<Rightarrow> (Inl (Status InvalidArgument ''invalid task_id''), w)
      | Inr taskID \<Rightarrow>
          let (now, w1) = time_Now E w; deadline = now + thirty_minutes
          in case ClaimTask E taskID agentId deadline w1 of
               (Inl e, w2) \<Rightarrow>
                 if errors_Is e ErrTaskNotFound
                 then (Inr \<lparr>ctr_Claimed = False, ctr_Task = None, ctr_Reason = ''task not found''\<rparr>, w2)
                 else if errors_Is e ErrTaskNotClaimable
                 then (Inr \<lparr>ctr_Claimed = False, ctr_Task = None, ctr_Reason = ''task is not claimable''\<rparr>, w2)
                 else (Inl (Status Internal ''claim failed''), w2)
             | (Inr _, w2) \<Rightarrow>
                 let w3 = audit E taskID ''CLAIMED'' agentId ''Task claimed'' None w2
                 in case GetTask E taskID w3 of
                      (Inl e, w4) \<Rightarrow> (Inr \<lparr>ctr_Claimed = True, ctr_Task = None, ctr_Reason = []\<rparr>, w4)
                    | (Inr t, w4) \<Rightarrow>
                        (Inr \<lparr>ctr_Claimed = True, ctr_Task = Some (assignment_of E S (Some deadline) t),
                              ctr_Reason = []\<rparr>, w4))"

definition api_ReleaseTask ::
  "'n environment \<Rightarrow> string \<Rightarrow> string \<Rightarrow> string \<Rightarrow> 'z world_scheme \<Rightarrow>
   (rpc_error + bool) \<times> 'z world_scheme" where
  "api_ReleaseTask E reqTaskId agentId reason w =
     (case uuid_Parse E reqTaskId of
        Inl e \<Rightarrow> (Inl (Status InvalidArgument ''invalid task_id''), w)
      | Inr taskID \<Rightarrow>
          (case ReleaseTask E taskID agentId w of
             (Inl e, w1) \<Rightarrow> (Inl (Status Internal ''release failed''), w1)
           | (Inr _, w1) \<Rightarrow> (Inr True, audit E taskID ''RELEASED'' agentId reason None w1)))"

definition api_SubmitTaskResult ::
  "'n environment \<Rightarrow> struct_lib \<Rightarrow> string \<Rightarrow> string \<Rightarrow> TaskEvidence option \<Rightarrow>
   'z engine_world_scheme \<Rightarrow>
   (rpc_error + bool \<times> WorkflowAdvancementEffect) \<times> 'z engine_world_scheme" where
  "api_SubmitTaskResult E S reqTaskId agentId ev w =
     (case uuid_Parse E reqTaskId of
        Inl e \<Rightarrow> (Inl (Status InvalidArgument ''invalid task_id''), w)
      | Inr taskID \<Rightarrow>
          let (result, evidence) = evidenceToMaps S ev
          in case SubmitTaskResult E taskID result evidence w of
               (Inl e, w1) \<Rightarrow> (Inl (Status Internal ''submit result failed''), w1)
             | (Inr effect, w1) \<Rightarrow>
                 (Inr (True, advancementEffectToProto effect),
                  audit E taskID ''COMPLETED'' agentId ''Task completed with evidence'' None w1))"

definition SubmitTaskFailure ::
  "'n environment \<Rightarrow> string \<Rightarrow> string \<Rightarrow> TaskError option \<Rightarrow> 'z engine_world_scheme \<Rightarrow>
   (rpc_error + bool \<times> WorkflowAdvancementEffect) \<times> 'z engine_world_scheme" where
  "SubmitTaskFailure E reqTaskId agentId err w =
     (case uuid_Parse E reqTaskId of
        Inl e \<Rightarrow> (Inl (Status InvalidArgument ''invalid task_id''), w)
      | Inr taskID \<Rightarrow>
          (case FailTask E taskID err w of
             (Inl e, w1) \<Rightarrow> (Inl (Status Internal ''submit failure failed''), w1)
           | (Inr _, w1) \<Rightarrow>
               let msg = (case err of None \<Rightarrow> [] | Some e \<Rightarrow> tx_Message e)
               in (Inr (True, WORKFLOW_ADVANCEMENT_EFFECT_FAILED),
                   audit E taskID ''FAILED'' agentId msg None w1)))"

text \<open>\<open>AsMap\<close> never returns a nil map, so the assignment of \<open>percent\<close> cannot panic.\<close>

definition UpdateTaskProgress ::
  "'n environment \<Rightarrow> struct_lib \<Rightarrow> string \<Rightarrow> string \<Rightarrow> string \<Rightarrow> struct \<Rightarrow> int32 \<Rightarrow> 'z world_scheme \<Rightarrow>
   (rpc_error + bool) \<times> 'z world_scheme" where
  "UpdateTaskProgress E S reqTaskId agentId msg reqData percent w =
     (case uuid_Parse E reqTaskId of
        Inl e \<Rightarrow> (Inl (Status InvalidArgument ''invalid task_id''), w)
      | Inr taskID \<Rightarrow>
          let data = (if reqData = None then [] else case AsMap S reqData of None \<Rightarrow> [] | Some kvs \<Rightarrow> kvs);
              data' = map_set data ''percent'' (JNum (of_int (sint percent)))
          in (Inr True, audit E taskID ''PROGRESS'' agentId msg (Some data') w))"

definition api_ReassignTask ::
  "'n environment \<Rightarrow> string \<Rightarrow> string \<Rightarrow> string \<Rightarrow> string \<Rightarrow> 'z world_scheme \<Rightarrow>
   (rpc_error + bool) \<times> 'z world_scheme" where
  "api_ReassignTask E reqTaskId fromAgent toAgent reason w =
     (case uuid_Parse E reqTaskId of
        Inl e \<Rightarrow> (Inl (Status InvalidArgument ''invalid task_id''), w)
      | Inr taskID \<Rightarrow>
          (case ReassignTask E taskID fromAgent toAgent w of
             (Inl e, w1) \<Rightarrow> (Inl (Status Internal ''reassign failed''), w1)
           | (Inr _, w1) \<Rightarrow>
               (Inr True, audit E taskID ''REASSIGNED'' fromAgent reason
                  (Some [(''to_agent_id'', JStr toAgent)]) w1)))"

definition audit_message :: "struct_lib \<Rightarrow> gomap TaskAuditEntry \<Rightarrow> TaskAuditMsg" where
  "audit_message S e =
     \<lparr>am_Timestamp = Some (ae_OccurredAt e), am_EventType = ae_EventType e, am_AgentId = ae_AgentID e,
      am_Message = ae_Message e, am_Data = NewStruct S (ae_Data e)\<rparr>"

definition GetTaskHistory ::
  "'n environment \<Rightarrow> struct_lib \<Rightarrow> string \<Rightarrow> 'z world_scheme \<Rightarrow>
   (rpc_error + string \<times> TaskAuditMsg list) \<times> 'z world_scheme" where
  "GetTaskHistory E S reqTaskId w =
     (case uuid_Parse E reqTaskId of
        Inl e \<Rightarrow> (Inl (Status InvalidArgument ''invalid task_id''), w)
      | Inr taskID \<Rightarrow>
          (case GetTaskAuditLog E taskID w of
             (Inl e, w1) \<Rightarrow> (Inl (Status Internal ''get history failed''), w1)
           | (Inr entries, w1) \<Rightarrow> (Inr (reqTaskId, map (audit_message S) entries), w1)))"

text \<open>
  \<open>WatchTask\<close>: each round polls the audit log and sends the entries from \<open>lastCount\<close> on. The
  list \<open>rounds\<close> tells, round by round, whether the context is done at the top of the loop, which
  of the messages of the round \<open>stream.Send\<close> fails on, if any, and whether the context ends during
  the pause; a list that runs out is a watch still going on (\<open>None\<close>).
\<close>

definition status_event :: "string \<Rightarrow> 'd TaskAuditEntry \<Rightarrow> TaskStatusEvent" where
  "status_event reqTaskId e =
     \<lparr>tse_TaskId = reqTaskId, tse_Status = ae_EventType e, tse_AgentId = ae_AgentID e,
      tse_Message = ae_Message e, tse_OccurredAt = Some (ae_OccurredAt e)\<rparr>"

fun watch_loop ::
  "'n environment \<Rightarrow> string \<Rightarrow> uuid \<Rightarrow> (bool \<times> nat option \<times> bool) list \<Rightarrow> nat \<Rightarrow> TaskStatusEvent list \<Rightarrow>
   'z world_scheme \<Rightarrow> (rpc_error + unit) option \<times> TaskStatusEvent list \<times> 'z world_scheme" where
  "watch_loop E reqTaskId taskID [] lastCount sent w = (None, sent, w)"
| "watch_loop E reqTaskId taskID ((done_now, failAt, done_later) # rounds) lastCount sent w =
     (if done_now then (Some (Inr ()), sent, w)
      else case GetTaskAuditLog E taskID w of
        (Inl e, w1) \<Rightarrow> (Some (Inl (Status Internal ''watch failed'')), sent, w1)
      | (Inr entries, w1) \<Rightarrow>
          let new = map (status_event reqTaskId) (drop lastCount entries)
          in if (case failAt of None \<Rightarrow> False | Some k \<Rightarrow> k < length new)
             then (Some (Inl (Plain DriverError)), sent @ take (the failAt) new, w1)
             else case GetTask E taskID w1 of
               (Inr t, w2) \<Rightarrow>
                 if tk_Status t = ''COMPLETED'' \<or> tk_Status t = ''FAILED'' \<or> done_later
                 then (Some (Inr ()), sent @ new, w2)
                 else watch_loop E reqTaskId taskID rounds (length entries) (sent @ new) w2
             | (Inl e, w2) \<Rightarrow>
                 if done_later then (Some (Inr ()), sent @ new, w2)
                 else watch_loop E reqTaskId taskID rounds (length entries) (sent @ new) w2)"

definition WatchTask ::
  "'n environment \<Rightarrow> string \<Rightarrow> (bool \<times> nat option \<times> bool) list \<Rightarrow> 'z world_scheme \<Rightarrow>
   (rpc_error + unit) option \<times> TaskStatusEvent list \<times> 'z world_scheme" where
  "WatchTask E reqTaskId rounds w =
     (case uuid_Parse E reqTaskId of
        Inl e \<Rightarrow> (Some (Inl (Status InvalidArgument ''invalid task_id'')), [], w)
      | Inr taskID \<Rightarrow> watch_loop E reqTaskId taskID rounds 0 [] w)"

definition ExtendTaskLease ::
  "'n environment \<Rightarrow> string \<Rightarrow> timestamp \<Rightarrow> 'z world_scheme \<Rightarrow>
   (rpc_error + bool \<times> timestamp) \<times> 'z world_scheme" where
  "ExtendTaskLease E reqTaskId newDeadline w =
     (case uuid_Parse E reqTaskId of
        Inl e \<Rightarrow> (Inl (Status InvalidArgument ''invalid task_id''), w)
      | Inr taskID \<Rightarrow>
          (case newDeadline of
             None \<Rightarrow> (Inl (Status InvalidArgument ''new_deadline is required''), w)
           | Some deadline \<Rightarrow>
               (case ExtendTaskDeadline E taskID deadline w of
                  (Inl e, w1) \<Rightarrow> (Inl (Status Internal ''extend lease failed''), w1)
                | (Inr _, w1) \<Rightarrow> (Inr (True, Some deadline), w1))))"

end
