(* ===== verification/System.thy ===== *)
theory System
  imports Engine_Steps Public_Server Orchestrator_Server Orchestrator_Main Worker
begin

text \<open>
  The whole orchestrator process: the handlers of both servers, the timer service, the worker
  monitors and the goroutines as steps of one relation, and the database evolving under each.
\<close>

section \<open>The servers evolve the database\<close>

lemma StartWorker_db: "StartWorker E iid def ten w = (r, w') \<Longrightarrow> db w' = db w"
  by (auto simp: StartWorker_def Let_def time_Now_def split: if_splits sum.splits)

lemma StopWorker_db: "StopWorker E iid w = (r, w') \<Longrightarrow> db w' = db w"
  by (auto simp: StopWorker_def Let_def split: option.splits if_splits)

lemma StopWorker_snd_db [simp]: "db (snd (StopWorker E iid w)) = db w"
  by (rule StopWorker_db [OF surjective_pairing])

lemma supervisor_evolves [evolve]:
  "StartWorker E iid def ten w = (r, w') \<Longrightarrow> evolves A E d (db w) \<Longrightarrow> evolves A E d (db w')"
  "StopWorker E iid w = (r, w') \<Longrightarrow> evolves A E d (db w) \<Longrightarrow> evolves A E d (db w')"
  by (simp_all add: StartWorker_db StopWorker_db)

lemma monitorWorker_db [simp]: "db (monitorWorker iid p ex w) = db w"
  by (auto simp: monitorWorker_def Let_def split: option.splits)

lemma StopAll_db [simp]: "db (StopAll w) = db w"
  by (simp add: StopAll_def)

lemma tenant_id_evolves [evolve]:
  "tenant_id E name w = (r, w') \<Longrightarrow> evolves A E d (db w) \<Longrightarrow> evolves A E d (db w')"
  unfolding tenant_id_def by (rule db_query_evolves)

lemma definition_handlers_evolve [evolve]:
  "CreateWorkflowDefinition E creq rw = (r1, rw') \<Longrightarrow> evolves A E d (db rw) \<Longrightarrow> evolves A E d (db rw')"
  "GetWorkflowDefinition E i rw = (r1, rw') \<Longrightarrow> evolves A E d (db rw) \<Longrightarrow> evolves A E d (db rw')"
  "UpdateWorkflowDefinition E ureq rw = (r1, rw') \<Longrightarrow> evolves A E d (db rw) \<Longrightarrow> evolves A E d (db rw')"
  "api_DeleteWorkflowDefinition E i w = (r2, w') \<Longrightarrow> evolves A E d (db w) \<Longrightarrow> evolves A E d (db w')"
  "api_ListWorkflowDefinitions E lreq w = (r3, w') \<Longrightarrow> evolves A E d (db w) \<Longrightarrow> evolves A E d (db w')"
  subgoal by (auto simp: CreateWorkflowDefinition_def Let_def split: if_splits prod.splits sum.splits dest!: evolve)
  subgoal by (auto simp: GetWorkflowDefinition_def split: prod.splits sum.splits dest!: evolve)
  subgoal by (auto simp: UpdateWorkflowDefinition_def split: if_splits prod.splits sum.splits
        dest!: evolve db_query_evolves)
  subgoal by (auto simp: api_DeleteWorkflowDefinition_def split: if_splits prod.splits sum.splits dest!: evolve)
  subgoal by (auto simp: api_ListWorkflowDefinitions_def Let_def split: if_splits prod.splits sum.splits dest!: evolve)
  done

lemma start_instance_evolves [evolve]:
  "start_instance E def ten input m w = (r, w') \<Longrightarrow> evolves True E d (db w) \<Longrightarrow> evolves True E d (db w')"
  by (auto simp: start_instance_def split: prod.splits sum.splits dest!: evolve intro: UpdateWorkflowStatus_snd)

lemma lifecycle_handlers_evolve [evolve]:
  "DeployWorkflow E i w = (r1, w') \<Longrightarrow> evolves True E d (db w) \<Longrightarrow> evolves True E d (db w')"
  "api_StartWorkflow E S sreq w = (r2, w') \<Longrightarrow> evolves True E d (db w) \<Longrightarrow> evolves True E d (db w')"
  "CancelWorkflow E i w = (r3, w') \<Longrightarrow> evolves A E d (db w) \<Longrightarrow> evolves A E d (db w')"
  "SignalWorkflow E S greq v = (r3, v') \<Longrightarrow> evolves True E d (db v) \<Longrightarrow> evolves True E d (db v')"
  "GetInstance E i v = (r4, v') \<Longrightarrow> evolves A E d (db v) \<Longrightarrow> evolves A E d (db v')"
  "ListInstances E ireq v = (r5, v') \<Longrightarrow> evolves A E d (db v) \<Longrightarrow> evolves A E d (db v')"
  "StopInstance E preq w = (r3, w') \<Longrightarrow> evolves A E d (db w) \<Longrightarrow> evolves A E d (db w')"
  subgoal by (auto simp: DeployWorkflow_def split: prod.splits sum.splits dest!: evolve)
  subgoal by (auto simp: api_StartWorkflow_def split: prod.splits sum.splits dest!: evolve)
  subgoal by (auto simp: CancelWorkflow_def split: prod.splits sum.splits dest!: evolve)
  subgoal by (auto simp: SignalWorkflow_def Let_def split: if_splits prod.splits sum.splits dest!: evolve)
  subgoal by (auto simp: GetInstance_def split: if_splits prod.splits sum.splits dest!: evolve)
  subgoal by (auto simp: ListInstances_def split: prod.splits sum.splits dest!: evolve)
  subgoal by (auto simp: StopInstance_def Let_def split: if_splits prod.splits sum.splits
        dest!: instance_updates_evolve(2) [where d = d])
  done

lemma audit_evolves: "evolves A E d (db w) \<Longrightarrow> evolves A E d (db (audit E i t a m x w))"
  by (auto simp: audit_def split: prod.splits intro!: AppendTaskAudit_evolves [OF surjective_pairing] dest!: evolve)

lemma handle_message_evolves [evolve]:
  "handle_message E S m c w = (c', w') \<Longrightarrow> evolves A E d (db w) \<Longrightarrow> evolves A E d (db w')"
  by (auto simp: handle_message_def split: AgentToServer.splits sum.splits TaskOutcome.splits
      intro: CompleteTask_evolves [OF surjective_pairing] FailTask_evolves [OF surjective_pairing])

lemma Connect_evolves [evolve]:
  "Connect E S rs c w = (r, c', w') \<Longrightarrow> evolves A E d (db w) \<Longrightarrow> evolves A E d (db w')"
  by (induction E S rs c w rule: Connect.induct) (auto split: prod.splits dest: evolve)

lemma pushTasks_round_evolves [evolve]:
  "pushTasks_round E S a caps ctx snds c w = (r, c', w') \<Longrightarrow> evolves A E d (db w) \<Longrightarrow> evolves A E d (db w')"
  by (auto simp: pushTasks_round_def split: if_splits prod.splits sum.splits option.splits dest!: evolve)

lemma task_handlers_evolve [evolve]:
  "PollTask E S a w = (r1, w') \<Longrightarrow> evolves A E d (db w) \<Longrightarrow> evolves A E d (db w')"
  "api_CompleteTask E S i st e = (r2, e') \<Longrightarrow> evolves A E d (db e) \<Longrightarrow> evolves A E d (db e')"
  "api_FailTask E i er e = (r2, e') \<Longrightarrow> evolves A E d (db e) \<Longrightarrow> evolves A E d (db e')"
  "api_GetWorkflowState E S i w = (r3, w') \<Longrightarrow> evolves A E d (db w) \<Longrightarrow> evolves A E d (db w')"
  "ListWorkflows E wreq w = (r4, w') \<Longrightarrow> evolves A E d (db w) \<Longrightarrow> evolves A E d (db w')"
  "StreamWorkflowEvents E S i n fa w = (r5, es, w') \<Longrightarrow> evolves A E d (db w) \<Longrightarrow> evolves A E d (db w')"
  "ListTasks E treq w = (r6, w') \<Longrightarrow> evolves A E d (db w) \<Longrightarrow> evolves A E d (db w')"
  "api_GetTask E S i w = (r7, w') \<Longrightarrow> evolves A E d (db w) \<Longrightarrow> evolves A E d (db w')"
  "ListMyTasks E mreq w = (r6, w') \<Longrightarrow> evolves A E d (db w) \<Longrightarrow> evolves A E d (db w')"
  subgoal by (auto simp: PollTask_def split: prod.splits sum.splits option.splits dest!: evolve)
  subgoal by (auto simp: api_CompleteTask_def split: prod.splits sum.splits dest!: evolve)
  subgoal by (auto simp: api_FailTask_def split: prod.splits sum.splits dest!: evolve)
  subgoal by (auto simp: api_GetWorkflowState_def split: prod.splits sum.splits dest!: evolve)
  subgoal by (auto simp: ListWorkflows_def split: prod.splits sum.splits dest!: evolve)
  subgoal by (auto simp: StreamWorkflowEvents_def split: if_splits prod.splits sum.splits option.splits dest!: evolve)
  subgoal by (auto simp: ListTasks_def split: prod.splits sum.splits dest!: evolve)
  subgoal by (auto simp: api_GetTask_def split: if_splits prod.splits sum.splits dest!: evolve)
  subgoal by (auto simp: ListMyTasks_def split: if_splits prod.splits sum.splits dest!: evolve)
  done

lemma resolution_handlers_evolve [evolve]:
  "api_ClaimTask E S i a w = (r1, w') \<Longrightarrow> evolves A E d (db w) \<Longrightarrow> evolves A E d (db w')"
  "api_ReleaseTask E i a m w = (r2, w') \<Longrightarrow> evolves A E d (db w) \<Longrightarrow> evolves A E d (db w')"
  "api_SubmitTaskResult E S i a ev e = (r3, e') \<Longrightarrow> evolves A E d (db e) \<Longrightarrow> evolves A E d (db e')"
  "SubmitTaskFailure E i a er e = (r3, e') \<Longrightarrow> evolves A E d (db e) \<Longrightarrow> evolves A E d (db e')"
  "UpdateTaskProgress E S i a m st pc w = (r2, w') \<Longrightarrow> evolves A E d (db w) \<Longrightarrow> evolves A E d (db w')"
  "api_ReassignTask E i a b m w = (r2, w') \<Longrightarrow> evolves A E d (db w) \<Longrightarrow> evolves A E d (db w')"
  "GetTaskHistory E S i w = (r4, w') \<Longrightarrow> evolves A E d (db w) \<Longrightarrow> evolves A E d (db w')"
  "ExtendTaskLease E i dl w = (r6, w') \<Longrightarrow> evolves A E d (db w) \<Longrightarrow> evolves A E d (db w')"
  subgoal by (auto simp: api_ClaimTask_def Let_def split: if_splits prod.splits sum.splits
        dest!: time_Now_evolves task_updates_evolve(2) GetTask_evolves [where d = d] intro: audit_evolves)
  subgoal by (auto simp: api_ReleaseTask_def split: prod.splits sum.splits dest!: evolve intro: audit_evolves)
  subgoal by (auto simp: api_SubmitTaskResult_def split: prod.splits sum.splits dest!: evolve intro: audit_evolves)
  subgoal by (auto simp: SubmitTaskFailure_def Let_def split: prod.splits sum.splits dest!: evolve intro: audit_evolves)
  subgoal by (auto simp: UpdateTaskProgress_def Let_def split: sum.splits intro: audit_evolves)
  subgoal by (auto simp: api_ReassignTask_def split: prod.splits sum.splits dest!: evolve intro: audit_evolves)
  subgoal by (auto simp: GetTaskHistory_def split: prod.splits sum.splits dest!: evolve)
  subgoal by (auto simp: ExtendTaskLease_def split: prod.splits sum.splits option.splits dest!: evolve)
  done

lemma watch_loop_evolves:
  "watch_loop E i t rounds k sent w = (r, es, w') \<Longrightarrow> evolves A E d (db w) \<Longrightarrow> evolves A E d (db w')"
  by (induction E i t rounds k sent w rule: watch_loop.induct)
    (auto simp: Let_def split: if_splits prod.splits sum.splits dest!: evolve)

lemma WatchTask_evolves [evolve]:
  "WatchTask E i rounds w = (r, es, w') \<Longrightarrow> evolves A E d (db w) \<Longrightarrow> evolves A E d (db w')"
  by (auto simp: WatchTask_def split: sum.splits elim: watch_loop_evolves)

lemma restart_workers_db [simp]: "db (restart_workers E insts w) = db w"
  by (induction insts arbitrary: w) (simp_all add: StartWorker_db [OF surjective_pairing])

lemma startup_recovery_evolves: "evolves A E d (db w) \<Longrightarrow> evolves A E d (db (startup_recovery E w))"
  by (auto simp: startup_recovery_def split: prod.splits sum.splits dest!: evolve)

section \<open>Steps of the process\<close>

text \<open>
  One step is a call of a handler, a message or a round of a stream, a poll of the timer
  service, the exit of a worker, or a goroutine run to its end. Within a step the commits of
  other goroutines and processes appear through \<open>others\<close>.
\<close>

inductive sys_step ::
  "'n environment \<Rightarrow> struct_lib \<Rightarrow> supervisor_world \<Rightarrow> supervisor_world \<Rightarrow> bool" for E S where
  "sys_step E S w (snd (CreateWorkflowDefinition E creq w))"
| "sys_step E S w (snd (GetWorkflowDefinition E i w))"
| "sys_step E S w (snd (UpdateWorkflowDefinition E ureq w))"
| "sys_step E S w (snd (api_DeleteWorkflowDefinition E i w))"
| "sys_step E S w (snd (api_ListWorkflowDefinitions E lreq w))"
| "sys_step E S w (snd (DeployWorkflow E i w))"
| "sys_step E S w (snd (api_StartWorkflow E S sreq w))"
| "sys_step E S w (snd (CancelWorkflow E i w))"
| "sys_step E S w (snd (SignalWorkflow E S greq w))"
| "sys_step E S w (snd (GetInstance E i w))"
| "sys_step E S w (snd (ListInstances E ireq w))"
| "sys_step E S w (snd (StopInstance E preq w))"
| "sys_step E S w (snd (snd (Connect E S [RecvMsg m] c w)))"
| "sys_step E S w (snd (snd (pushTasks_round E S a caps ctx_done sends c w)))"
| "sys_step E S w (snd (PollTask E S a w))"
| "sys_step E S w (snd (api_CompleteTask E S i result w))"
| "sys_step E S w (snd (api_FailTask E i err w))"
| "sys_step E S w (snd (api_GetWorkflowState E S i w))"
| "sys_step E S w (snd (ListWorkflows E wreq w))"
| "sys_step E S w (snd (snd (StreamWorkflowEvents E S i after_seq fails w)))"
| "sys_step E S w (snd (ListTasks E treq w))"
| "sys_step E S w (snd (api_GetTask E S i w))"
| "sys_step E S w (snd (ListMyTasks E mreq w))"
| "sys_step E S w (snd (api_ClaimTask E S i a w))"
| "sys_step E S w (snd (api_ReleaseTask E i a reason w))"
| "sys_step E S w (snd (api_SubmitTaskResult E S i a ev w))"
| "sys_step E S w (snd (SubmitTaskFailure E i a err w))"
| "sys_step E S w (snd (UpdateTaskProgress E S i a msg data percent w))"
| "sys_step E S w (snd (api_ReassignTask E i a a' reason w))"
| "sys_step E S w (snd (GetTaskHistory E S i w))"
| "sys_step E S w (snd (snd (WatchTask E i rounds w)))"
| "sys_step E S w (snd (ExtendTaskLease E i deadline w))"
| "sys_step E S w (startup_recovery E w)"
| "sys_step E S w (checkTimers E w)"
| "(iid, p) \<in> set (sup_monitors w) \<Longrightarrow> sys_step E S w (monitorWorker iid p exit w)"
| "goroutines w = js @ j # js' \<Longrightarrow> run_job E j (w\<lparr>goroutines := js @ js'\<rparr>) = Some w' \<Longrightarrow> sys_step E S w w'"
| "sys_step E S w (shutdown w)"

inductive reachable ::
  "'n environment \<Rightarrow> struct_lib \<Rightarrow> supervisor_world \<Rightarrow> supervisor_world \<Rightarrow> bool" for E S where
  start: "reachable E S w w"
| step: "reachable E S w w1 \<Longrightarrow> sys_step E S w1 w2 \<Longrightarrow> reachable E S w w2"

lemma triple: "t = (fst t, fst (snd t), snd (snd t))"
  by simp

lemma sys_step_evolves: "sys_step E S w w' \<Longrightarrow> evolves True E d (db w) \<Longrightarrow> evolves True E d (db w')"
proof (induction rule: sys_step.induct)
  case (36 w js j js' w')
  then show ?case by (auto intro: run_job_evolves)
qed (auto simp: shutdown_def simp del: Connect.simps intro: startup_recovery_evolves checkTimers_evolves
    definition_handlers_evolve [OF surjective_pairing] lifecycle_handlers_evolve [OF surjective_pairing]
    task_handlers_evolve(1-5,7-9) [OF surjective_pairing] resolution_handlers_evolve [OF surjective_pairing]
    task_handlers_evolve(6) [OF triple] Connect_evolves [OF triple] pushTasks_round_evolves [OF triple]
    WatchTask_evolves [OF triple])

lemma reachable_evolves: "reachable E S w w' \<Longrightarrow> evolves True E (db w) (db w')"
  by (induction rule: reachable.induct) (auto intro: sys_step_evolves)

end
