(* ===== verification/Example_Environment.thy ===== *)
theory Example_Environment
  imports Db_Invariants
begin

text \<open>
  A concrete environment in which every hypothesis of the theorems can hold: nothing fails,
  nobody else commits, the clock and the identifiers count interactions, identifiers are
  written in unary. Its YAML library knows the one workflow \<open>example_definition\<close>: a state with
  one action, then a state without actions that ends.
\<close>

definition example_action :: Action where
  "example_action = \<lparr>ac_Name = ''greet'', ac_FunctionRef = \<lparr>fr_RefName = [], fr_Arguments = None\<rparr>,
     ac_Arguments = Some [(''who'', JStr ''you'')], ac_Capabilities = Some [''cap''], ac_Roles = None\<rparr>"

definition example_start :: state where
  "example_start = OperationState
     \<lparr>bs_Name = ''one'', bs_Type = ''operation'', bs_Transition = ''two'', bs_EndFlag = False\<rparr>
     [example_action]"

definition example_end :: state where
  "example_end = OperationState
     \<lparr>bs_Name = ''two'', bs_Type = ''operation'', bs_Transition = [], bs_EndFlag = True\<rparr> []"

definition example_yaml :: "state yaml_lib" where
  "example_yaml =
     \<lparr>yaml_Unmarshal = (\<lambda>content. if content = ''wf'' then
          Inr \<lparr>raw_ID = ''wf'', raw_Name = ''Workflow'', raw_Version = ''1'', raw_Start = ''one'',
               raw_States = [example_start, example_end], raw_Metadata = None\<rparr>
        else Inl EncodingError),
      decode_base = (\<lambda>s. Inr (GetName s, GetType s)),
      decode_operation = (\<lambda>s. case s of OperationState b acts \<Rightarrow> Inr (b, acts) | _ \<Rightarrow> Inl EncodingError),
      decode_delay = (\<lambda>s. case s of DelayState b dur \<Rightarrow> Inr (b, dur) | _ \<Rightarrow> Inl EncodingError)\<rparr>"

definition example_definition :: WorkflowDefinition where
  "example_definition = \<lparr>wd_ID = ''wf'', wd_Name = ''Workflow'', wd_Version = ''1'', wd_Start = ''one'',
     wd_States = [example_start, example_end], wd_Metadata = None, wd_YAML = ''wf'', wd_Tenant = []\<rparr>"

lemma example_parse: "Parse example_yaml ''wf'' = Inr example_definition"
  by (simp add: Parse_def example_yaml_def parseState_def example_start_def example_end_def GetName_def
      GetType_def example_definition_def)

definition calm_env :: "state environment" where
  "calm_env =
     \<lparr>db_up = (\<lambda>_. True), db_ack = (\<lambda>_. True), rows_cut = (\<lambda>_. None), others = (\<lambda>_ d. d), clock = int,
      timestamptz = (\<lambda>t. t), fresh_uuid = (\<lambda>n. word_of_nat n), session = (\<lambda>n. n),
      uuid_Parse = (\<lambda>s. if s = [] then Inl EncodingError else Inr (word_of_nat (length s))),
      uuid_String = (\<lambda>u. replicate (unat u) CHR ''u''), yaml = example_yaml,
      read_file = (\<lambda>_ _. Inl EncodingError), time_text = (\<lambda>_. ''t''), float_oob = 0,
      publish_ok = (\<lambda>_. True), proc_Start = (\<lambda>n _. Inr (int n)), exit_timeout = (\<lambda>_. False),
      rabbit_channel = False\<rparr>"

lemma calm_env_calm [simp]: "calm calm_env"
  by (simp add: calm_def complete_rows_def calm_env_def)

lemma calm_env_rely [simp]: "rely calm_env I"
  by (rule calm_rely) simp

lemma calm_env_sel [simp]:
  "db_up calm_env n" "db_ack calm_env n" "others calm_env n d = d" "clock calm_env n = int n" "timestamptz calm_env t = t"
  "fresh_uuid calm_env n = word_of_nat n" "session calm_env n = n" "yaml calm_env = example_yaml"
  "uuid_Parse calm_env s = (if s = [] then Inl EncodingError else Inr (word_of_nat (length s)))"
  "uuid_String calm_env u = replicate (unat u) CHR ''u''"
  "proc_Start calm_env n a = Inr (int n)" "\<not> exit_timeout calm_env n" "\<not> rabbit_channel calm_env"
  "float_oob calm_env = 0"
  by (simp_all add: calm_env_def)

text \<open>A database with one running instance and one pending task.\<close>

definition example_instance :: "json WorkflowInstance" where
  "example_instance = \<lparr>wi_ID = 7, wi_WorkflowDefinitionID = ''wf'', wi_Tenant = ''t'', wi_Status = ''RUNNING'',
     wi_CurrentPhase = ''one'', wi_DimensionalState = JNull, wi_Version = 1, wi_CreatedAt = 0,
     wi_UpdatedAt = 0\<rparr>"

definition example_event_row :: history_row where
  "example_event_row = \<lparr>hr_Instance = 7, hr_SequenceNum = 1, hr_EventType = ''WorkflowStarted'',
     hr_Payload = JObj [], hr_RecordedAt = 0\<rparr>"

definition example_task :: task_row where
  "example_task = \<lparr>tk_ID = 9, tk_WorkflowInstanceID = 7, tk_StateName = ''one'', tk_ActivityName = ''greet'',
     tk_Capabilities = [''cap''], tk_Roles = [], tk_Input = JObj [(''who'', JStr ''you'')],
     tk_Output = None, tk_Evidence = None, tk_Status = ''PENDING'', tk_AssignedAgentID = None,
     tk_Deadline = None, tk_ParentTaskID = None, tk_CreatedAt = 0, tk_UpdatedAt = 0\<rparr>"

definition example_row :: "string option WorkflowDefinitionRow" where
  "example_row = \<lparr>dr_ID = 5, dr_TenantID = ''t'', dr_Name = ''Workflow'', dr_DefinitionID = ''wf'',
     dr_Version = 1, dr_YAMLContent = ''wf'', dr_CreatedBy = None, dr_CreatedAt = 0, dr_UpdatedAt = 0\<rparr>"

definition example_db :: database where
  "example_db = empty_database\<lparr>workflow_instances := [example_instance],
     workflow_history := [example_event_row], tasks := [example_task],
     workflow_definitions := [example_row], tenants := [\<lparr>te_ID = ''t'', te_Name = ''acme''\<rparr>]\<rparr>"

definition example_world :: world where
  "example_world = \<lparr>db = example_db, tick = 100, broker = []\<rparr>"

lemmas example_defs = example_world_def example_db_def empty_database_def example_instance_def
  example_event_row_def example_task_def example_row_def

lemma example_wf: "wf_db example_db"
  by (simp add: wf_db_def wf_defs example_defs unique_key_def instance_ids_def task_ok_def history_key_def
      version_key_def)

end
