(* ===== verification/Engine_Properties.thy ===== *)
theory Engine_Properties
  imports Engine_Steps Example_Environment
begin

text \<open>
  Properties of the engine: starting an instance, scheduling the tasks of a state, waiting for
  them, advancing, and the termination of \<open>executeWorkflow\<close>.
\<close>

section \<open>Starting an instance\<close>

lemma CreateWorkflowInstance_calm:
  assumes "calm E" and "marshalable (json_of_map (wi_DimensionalState inst))"
    and "wi_ID inst \<notin> wi_ID ` set (workflow_instances (db w))"
  shows "CreateWorkflowInstance E inst w =
    (Inr (), next_tick (w\<lparr>db := (db w)\<lparr>workflow_instances := workflow_instances (db w) @
       [\<lparr>wi_ID = wi_ID inst, wi_WorkflowDefinitionID = wi_WorkflowDefinitionID inst,
         wi_Tenant = wi_Tenant inst, wi_Status = wi_Status inst,
         wi_CurrentPhase = wi_CurrentPhase inst,
         wi_DimensionalState = json_of_map (wi_DimensionalState inst),
         wi_Version = wi_Version inst, wi_CreatedAt = timestamptz E (wi_CreatedAt inst),
         wi_UpdatedAt = timestamptz E (wi_UpdatedAt inst)\<rparr>]\<rparr>\<rparr>))"
  using assms by (simp add: CreateWorkflowInstance_def db_exec_calm sql_insert_def)

lemma uuid_New_simp: "uuid_New E w = (fresh_uuid E (tick w), next_tick w)"
  by (simp add: uuid_New_def)

lemma time_Now_simp: "time_Now E w = (clock E (tick w), next_tick w)"
  by (simp add: time_Now_def)

lemma version_update_fresh:
  assumes "iid \<notin> wi_ID ` set rows" and "wi_ID r = iid" and "wi_Version r = v"
  shows "sql_update (version_matches iid v) (version_row now) (rows @ [r]) = rows @ [version_row now r]"
proof -
  have "sql_update (version_matches iid v) (version_row now) rows = rows"
    using assms(1) by (intro sql_update_none) (auto simp: version_matches_def)
  with assms(2,3) show ?thesis by (simp add: version_matches_def)
qed

text \<open>The first append to an instance that was inserted last.\<close>

lemma first_append_calm:
  assumes "calm E" and "wf_db d" and "i \<notin> instance_ids d" and "wi_ID row = i" and "wi_Version row = 0"
    and "he_SequenceNum ev = k" and "marshalable (json_of_map (he_Payload ev))"
    and "db w = d\<lparr>workflow_instances := workflow_instances d @ [row]\<rparr>" and "t = clock E (tick w)"
  shows "fst (AppendEvents E i 0 [ev] w) = Inr ()"
    and "db (snd (AppendEvents E i 0 [ev] w)) =
      d\<lparr>workflow_instances := workflow_instances d @ [version_row t row],
        workflow_history := workflow_history d @ history_rows i t [ev]\<rparr>"
proof -
  have i: "i \<notin> wi_ID ` set (workflow_instances d)" using assms(3) by (simp add: instance_ids_def)
  have "(i, k) \<notin> history_key ` set (workflow_history d)"
    using assms(2,3) by (auto simp: wf_db_def wf_events_def history_key_def)
  then have "accepts_events i [ev] (db w)" using assms(6-8) by (simp add: accepts_events_def)
  moreover have "0 < rows_affected (version_matches i 0) (workflow_instances (db w))"
    using assms(4,5,8) by (simp add: version_matches_def)
  ultimately show app: "fst (AppendEvents E i 0 [ev] w) = Inr ()"
    by (simp add: AppendEvents_calm(1) [OF assms(1)])
  show "db (snd (AppendEvents E i 0 [ev] w)) =
      d\<lparr>workflow_instances := workflow_instances d @ [version_row t row],
        workflow_history := workflow_history d @ history_rows i t [ev]\<rparr>"
    using AppendEvents_calm(3) [OF assms(1), of i 0 "[ev]" w] app version_update_fresh [OF i assms(4,5), of t]
    by (simp add: append_effect_def assms(8,9))
qed

text \<open>
  C16. Starting a workflow with a fresh identifier creates exactly one instance, running, at version 1
  in the definition's start state with the given tenant and input, and records the event
  \<open>WorkflowStarted\<close> with sequence number 1; tasks, timers and other instances are untouched.
\<close>

theorem start_workflow_effect:
  assumes "calm E" and "wf_db (db w)" and "marshalable (json_of_map input)"
    and "fresh_uuid E (tick w) \<notin> instance_ids (db w)"
  shows "fst (StartWorkflow E def tenant input w) = Inr (fresh_uuid E (tick w)) \<and>
    (\<exists>r h. db (snd (StartWorkflow E def tenant input w)) =
       (db w)\<lparr>workflow_instances := workflow_instances (db w) @ [r],
              workflow_history := workflow_history (db w) @ [h]\<rparr> \<and>
     wi_ID r = fresh_uuid E (tick w) \<and> wi_Status r = ''RUNNING'' \<and> wi_Version r = 1 \<and>
     wi_CurrentPhase r = wd_Start def \<and> wi_WorkflowDefinitionID r = wd_ID def \<and> wi_Tenant r = tenant \<and>
     wi_DimensionalState r = json_of_map input \<and>
     hr_Instance h = fresh_uuid E (tick w) \<and> hr_SequenceNum h = 1 \<and> hr_EventType h = ''WorkflowStarted'')"
proof -
  let ?i = "fresh_uuid E (tick w)" and ?now = "clock E (Suc (tick w))"
  define inst where "inst = \<lparr>wi_ID = ?i, wi_WorkflowDefinitionID = wd_ID def, wi_Tenant = tenant,
     wi_Status = ''RUNNING'', wi_CurrentPhase = wd_Start def, wi_DimensionalState = input, wi_Version = 0,
     wi_CreatedAt = ?now, wi_UpdatedAt = ?now\<rparr>"
  define event where "event = \<lparr>he_SequenceNum = 1, he_EventType = ''WorkflowStarted'',
     he_Payload = Some [(''definition_id'', JStr (wd_ID def)), (''tenant'', JStr tenant),
                        (''input'', json_of_map input)], he_RecordedAt = ?now\<rparr>"
  define row where "row = \<lparr>wi_ID = ?i, wi_WorkflowDefinitionID = wd_ID def, wi_Tenant = tenant,
     wi_Status = ''RUNNING'', wi_CurrentPhase = wd_Start def, wi_DimensionalState = json_of_map input,
     wi_Version = 0, wi_CreatedAt = timestamptz E ?now, wi_UpdatedAt = timestamptz E ?now\<rparr>"
  define d3 where "d3 = (db w)\<lparr>workflow_instances := workflow_instances (db w) @ [row]\<rparr>"
  define w3 where "w3 = next_tick (next_tick (next_tick w)\<lparr>db := d3\<rparr>)"
  have i: "?i \<notin> wi_ID ` set (workflow_instances (db w))" using assms(4) by (simp add: instance_ids_def)
  have create: "CreateWorkflowInstance E inst (next_tick (next_tick w)) = (Inr (), w3)"
    using CreateWorkflowInstance_calm [OF assms(1), of inst "next_tick (next_tick w)"] i assms(3)
    by (simp add: inst_def w3_def d3_def row_def)
  note app = first_append_calm [OF assms(1,2,4), of row event 1 w3 "clock E (tick w3)"]
  have start: "StartWorkflow E def tenant input w = (Inr ?i, snd (AppendEvents E ?i 0 [event] w3))"
    using create app(1) assms(3) by (auto simp: StartWorkflow_def uuid_New_simp time_Now_simp Let_def inst_def
        event_def row_def w3_def d3_def split: prod.splits sum.splits)
  then show ?thesis
    using app(2) assms(3) by (fastforce simp: row_def row_defs event_def w3_def d3_def)
qed

theorem start_workflow_effect_witness:
  "fst (StartWorkflow calm_env example_definition ''t'' None example_world) = Inr 100"
proof -
  have "wf_db (db example_world)" and "fresh_uuid calm_env (tick example_world) \<notin> instance_ids (db example_world)"
    using example_wf by (simp_all add: example_defs instance_ids_def)
  from start_workflow_effect [OF calm_env_calm this(1), of None example_definition "''t''"] this(2)
  show ?thesis by (simp add: example_world_def)
qed

section \<open>Scheduling the tasks of a state\<close>

lemma AppendEvents_tick:
  "tick w \<le> tick (snd (AppendEvents E iid v evs w)) \<and>
   tick (snd (AppendEvents E iid v evs w)) \<le> tick w + length evs + 3"
proof -
  have ins: "insert_events E iid now evs d w0 = (r, w1) \<Longrightarrow>
      tick w0 \<le> tick w1 \<and> tick w1 \<le> tick w0 + length evs" for now d w0 r w1
    by (induction evs arbitrary: d w0) (fastforce split: sum.splits if_splits)+
  have ex: "db_exec E stmt w0 = (r, w1) \<Longrightarrow> tick w1 = Suc (tick w0)" for stmt w0 r w1
    using db_exec_frame(1) [of E stmt w0] by simp
  show ?thesis
    by (fastforce simp: AppendEvents_unfold split: prod.splits sum.splits if_splits dest!: ins ex)
qed

definition fresh_ids :: "'n environment \<Rightarrow> nat \<Rightarrow> nat \<Rightarrow> task_row list \<Rightarrow> bool" where
  "fresh_ids E t n rows \<longleftrightarrow> inj_on (fresh_uuid E) {t..<t + n} \<and>
     (\<forall>k \<in> {t..<t + n}. fresh_uuid E k \<notin> tk_ID ` set rows)"

definition created_row :: "uuid \<Rightarrow> uuid \<Rightarrow> BaseState \<Rightarrow> Action \<Rightarrow> time \<Rightarrow> task_row" where
  "created_row i iid b a now =
     \<lparr>tk_ID = i, tk_WorkflowInstanceID = iid, tk_StateName = bs_Name b, tk_ActivityName = ac_Name a,
      tk_Capabilities = (case ac_Capabilities a of None \<Rightarrow> [] | Some cs \<Rightarrow> cs),
      tk_Roles = (case ac_Roles a of None \<Rightarrow> [] | Some rs \<Rightarrow> rs),
      tk_Input = json_of_map (ac_Arguments a), tk_Output = None, tk_Evidence = None,
      tk_Status = ''PENDING'', tk_AssignedAgentID = None, tk_Deadline = None, tk_ParentTaskID = None,
      tk_CreatedAt = now, tk_UpdatedAt = now\<rparr>"

definition created_by :: "uuid \<Rightarrow> BaseState \<Rightarrow> Action \<Rightarrow> task_row \<Rightarrow> bool" where
  "created_by iid b a r \<longleftrightarrow> (\<exists>i now. r = created_row i iid b a now)"

lemma non_nil_Some: "non_nil xs = Some (case xs of None \<Rightarrow> [] | Some ys \<Rightarrow> ys)"
  by (auto simp: non_nil_def split: option.splits)

lemma CreateTask_action_calm:
  assumes "calm E" and "marshalable (json_of_map (ac_Arguments a))"
    and "iid \<in> wi_ID ` set (workflow_instances (db w))" and "i \<notin> tk_ID ` set (tasks (db w))"
  shows "CreateTask E (task_of_action i iid b a) w =
    (Inr (), next_tick (w\<lparr>db := (db w)\<lparr>tasks := tasks (db w) @
       [created_row i iid b a (clock E (tick w))]\<rparr>\<rparr>))"
  using assms by (simp add: CreateTask_def db_exec_calm task_of_action_def non_nil_Some sql_insert_def
      created_row_def)

text \<open>One round of the loop: the new row, the attempt to append, and the interactions used.\<close>

lemma schedule_step:
  fixes w :: "'z world_scheme"
  assumes "calm E" and "marshalable (json_of_map (ac_Arguments a))"
    and "iid = wi_ID inst" and "iid \<in> wi_ID ` set (workflow_instances (db w))"
    and "fresh_uuid E (tick w) \<notin> tk_ID ` set (tasks (db w))"
  obtains w3 w5 :: "'z world_scheme" and ev where
    "db w3 = (db w)\<lparr>tasks := tasks (db w) @ [created_row (fresh_uuid E (tick w)) iid b a (clock E (Suc (tick w)))]\<rparr>"
    and "ev = scheduled_event (uuid_String E (fresh_uuid E (tick w))) (int (k + i + 1)) b a (clock E (tick w + 2))"
    and "db w5 = db (snd (AppendEvents E iid (wi_Version inst) [ev] w3))"
    and "tick w < tick w5" and "tick w5 \<le> tick w + 8"
    and "schedule_actions E inst k b i (a # acts) w = schedule_actions E inst k b (Suc i) acts w5"
proof -
  define t where "t = fresh_uuid E (tick w)"
  define w2 where "w2 = next_tick (next_tick w\<lparr>db := (db w)\<lparr>tasks := tasks (db w) @
       [created_row t iid b a (clock E (Suc (tick w)))]\<rparr>\<rparr>)"
  define ev where "ev = scheduled_event (uuid_String E t) (int (k + i + 1)) b a (clock E (tick w + 2))"
  define w4 where "w4 = snd (AppendEvents E iid (wi_Version inst) [ev] (next_tick w2))"
  define w5 where "w5 = (if rabbit_channel E then publishTask E (task_of_action t iid b a) w4 else w4)"
  have c: "CreateTask E (task_of_action t iid b a) (next_tick w) = (Inr (), w2)"
    using CreateTask_action_calm [OF assms(1,2), of iid "next_tick w" t b] assms(4,5)
    by (simp add: t_def w2_def)
  have "schedule_actions E inst k b i (a # acts) w = schedule_actions E inst k b (Suc i) acts w5"
    using c by (simp add: uuid_New_simp time_Now_simp Let_def assms(3) [symmetric] t_def [symmetric] w5_def
        w4_def ev_def w2_def split: prod.split)
  moreover have "tick w4 \<le> tick w5 \<and> tick w5 \<le> Suc (tick w4)"
    by (auto simp: w5_def publishTask_def Let_def split: sum.split)
  moreover have "tick w < tick w4 \<and> tick w4 \<le> tick w + 7"
    using AppendEvents_tick [of "next_tick w2" E iid "wi_Version inst" "[ev]"] by (simp add: w4_def w2_def)
  moreover have "db w5 = db w4" by (simp add: w5_def)
  ultimately show thesis
    by (intro that [of "next_tick w2" ev w5]) (simp_all add: w2_def t_def ev_def w4_def)
qed

lemma fresh_ids_step:
  assumes fresh: "fresh_ids E t n rows" and "t' + n' \<le> t + n" and "t < t'" and "0 < n"
    and rows': "set rows' \<subseteq> insert r (set rows)" and r: "tk_ID r = fresh_uuid E t"
  shows "fresh_ids E t' n' rows'"
proof -
  have sub: "{t'..<t' + n'} \<subseteq> {t..<t + n}" using assms(2,3) by auto
  have inj: "inj_on (fresh_uuid E) {t..<t + n}" using fresh by (simp add: fresh_ids_def)
  have "fresh_uuid E k \<notin> tk_ID ` set rows'" if k: "k \<in> {t'..<t' + n'}" for k
  proof -
    have "k \<noteq> t" using k assms(3) by auto
    then have "fresh_uuid E k \<noteq> tk_ID r"
      using inj_onD [OF inj, of k t] k sub assms(4) r by auto
    moreover have "fresh_uuid E k \<notin> tk_ID ` set rows" using fresh k sub by (auto simp: fresh_ids_def)
    ultimately show ?thesis using rows' by auto
  qed
  then show ?thesis using inj_on_subset [OF inj sub] by (simp add: fresh_ids_def)
qed

lemma version_update_stale:
  "rows_affected (version_matches iid v) (sql_update (version_matches iid v) (version_row now) rows) = 0"
  by (induction rows) (auto simp: version_matches_def row_defs)

text \<open>The loop when the version read before is not the instance's: rows only.\<close>

lemma schedule_stale:
  assumes "calm E"
  shows "iid = wi_ID inst \<Longrightarrow> iid \<in> wi_ID ` set (workflow_instances (db w)) \<Longrightarrow>
    rows_affected (version_matches iid (wi_Version inst)) (workflow_instances (db w)) = 0 \<Longrightarrow>
    \<forall>a \<in> set acts. marshalable (json_of_map (ac_Arguments a)) \<Longrightarrow>
    fresh_ids E (tick w) (8 * length acts) (tasks (db w)) \<Longrightarrow>
    \<exists>rows w'. schedule_actions E inst k b i acts w = (True, w') \<and>
      db w' = (db w)\<lparr>tasks := tasks (db w) @ rows\<rparr> \<and> list_all2 (created_by iid b) acts rows"
proof (induction acts arbitrary: i w)
  case Nil
  then show ?case by (intro exI [of _ "[]"]) simp
next
  case (Cons a acts)
  have new: "fresh_uuid E (tick w) \<notin> tk_ID ` set (tasks (db w))"
    using Cons.prems(5) by (auto simp: fresh_ids_def)
  have m: "marshalable (json_of_map (ac_Arguments a))" using Cons.prems(4) by simp
  define r where "r = created_row (fresh_uuid E (tick w)) iid b a (clock E (Suc (tick w)))"
  obtain w3 w5 :: "'b world_scheme" and ev
    where w3: "db w3 = (db w)\<lparr>tasks := tasks (db w) @ [r]\<rparr>"
      and w5: "db w5 = db (snd (AppendEvents E iid (wi_Version inst) [ev] w3))"
      and t: "tick w < tick w5" "tick w5 \<le> tick w + 8"
      and eq: "schedule_actions E inst k b i (a # acts) w = schedule_actions E inst k b (Suc i) acts w5"
    using schedule_step [OF assms m Cons.prems(1,2) new, of b k i acts] unfolding r_def by metis
  have "fst (AppendEvents E iid (wi_Version inst) [ev] w3) \<noteq> Inr ()"
    unfolding AppendEvents_calm(1) [OF assms] using Cons.prems(3) by (simp add: w3)
  then have db5: "db w5 = (db w)\<lparr>tasks := tasks (db w) @ [r]\<rparr>"
    using AppendEvents_calm(3) [OF assms, of iid "wi_Version inst" "[ev]" w3] by (simp add: w5 w3)
  have fresh: "fresh_ids E (tick w5) (8 * length acts) (tasks (db w5))"
    by (rule fresh_ids_step [OF Cons.prems(5), where r = r]) (use t in \<open>auto simp: db5 r_def created_row_def\<close>)
  have "\<exists>rows w'. schedule_actions E inst k b (Suc i) acts w5 = (True, w') \<and>
      db w' = (db w5)\<lparr>tasks := tasks (db w5) @ rows\<rparr> \<and> list_all2 (created_by iid b) acts rows"
    by (rule Cons.IH) (use Cons.prems fresh in \<open>simp_all add: db5\<close>)
  then obtain rows w' where rows: "schedule_actions E inst k b (Suc i) acts w5 = (True, w')"
    "db w' = (db w5)\<lparr>tasks := tasks (db w5) @ rows\<rparr>" "list_all2 (created_by iid b) acts rows"
    by blast
  have "created_by iid b a r" by (auto simp: created_by_def r_def)
  with rows show ?case unfolding eq by (intro exI [of _ "r # rows"]) (simp add: db5)
qed

lemma schedule_tasks:
  assumes "calm E"
  shows "iid = wi_ID inst \<Longrightarrow> iid \<in> instance_ids (db w) \<Longrightarrow>
    \<forall>a \<in> set acts. marshalable (json_of_map (ac_Arguments a)) \<Longrightarrow>
    fresh_ids E (tick w) (8 * length acts) (tasks (db w)) \<Longrightarrow>
    \<exists>rows w'. schedule_actions E inst k b i acts w = (True, w') \<and>
      tasks (db w') = tasks (db w) @ rows \<and> list_all2 (created_by iid b) acts rows"
proof (induction acts arbitrary: i w)
  case Nil
  then show ?case by (intro exI [of _ "[]"]) simp
next
  case (Cons a acts)
  have new: "fresh_uuid E (tick w) \<notin> tk_ID ` set (tasks (db w))"
    using Cons.prems(4) by (auto simp: fresh_ids_def)
  have m: "marshalable (json_of_map (ac_Arguments a))" using Cons.prems(3) by simp
  define r where "r = created_row (fresh_uuid E (tick w)) iid b a (clock E (Suc (tick w)))"
  obtain w3 w5 :: "'b world_scheme" and ev
    where w3: "db w3 = (db w)\<lparr>tasks := tasks (db w) @ [r]\<rparr>"
      and w5: "db w5 = db (snd (AppendEvents E iid (wi_Version inst) [ev] w3))"
      and t: "tick w < tick w5" "tick w5 \<le> tick w + 8"
      and eq: "schedule_actions E inst k b i (a # acts) w = schedule_actions E inst k b (Suc i) acts w5"
    using schedule_step [OF assms m Cons.prems(1) _ new, of b k i acts] Cons.prems(2)
    unfolding r_def instance_ids_def by metis
  have t5: "tasks (db w5) = tasks (db w) @ [r]" and i5: "instance_ids (db w5) = instance_ids (db w)"
    using AppendEvents_calm(3) [OF assms, of iid "wi_Version inst" "[ev]" w3]
    by (simp_all add: w5 w3 append_effect_def instance_ids_def version.key_set_update)
  have fresh: "fresh_ids E (tick w5) (8 * length acts) (tasks (db w5))"
    by (rule fresh_ids_step [OF Cons.prems(4), where r = r]) (use t in \<open>auto simp: t5 r_def created_row_def\<close>)
  obtain rows w' where rows: "schedule_actions E inst k b (Suc i) acts w5 = (True, w')"
    "tasks (db w') = tasks (db w5) @ rows" "list_all2 (created_by iid b) acts rows"
    using Cons.IH [OF Cons.prems(1) _ _ fresh, of "Suc i"] Cons.prems(2,3) i5 by auto
  have "created_by iid b a r" by (auto simp: created_by_def r_def)
  with rows t5 show ?case unfolding eq by (intro exI [of _ "r # rows"]) simp
qed

text \<open>
  C17. Entering a state with actions creates one pending task per action, in their order, for the
  instance and the state, with the action's name, capabilities, roles and arguments.
\<close>

theorem one_task_per_action:
  assumes "calm E" and "wi_ID inst \<in> instance_ids (db w)"
    and "\<forall>a \<in> set acts. marshalable (json_of_map (ac_Arguments a))"
    and "fresh_ids E (tick w) (8 * length acts) (tasks (db w))"
  shows "\<exists>rows. fst (schedule_actions E inst nevents b 0 acts w) \<and>
    tasks (db (snd (schedule_actions E inst nevents b 0 acts w))) = tasks (db w) @ rows \<and>
    list_all2 (\<lambda>a r. tk_WorkflowInstanceID r = wi_ID inst \<and> tk_StateName r = bs_Name b \<and>
      tk_ActivityName r = ac_Name a \<and> tk_Status r = ''PENDING'' \<and> tk_AssignedAgentID r = None \<and>
      tk_Input r = json_of_map (ac_Arguments a) \<and>
      tk_Capabilities r = (case ac_Capabilities a of None \<Rightarrow> [] | Some cs \<Rightarrow> cs) \<and>
      tk_Roles r = (case ac_Roles a of None \<Rightarrow> [] | Some rs \<Rightarrow> rs)) acts rows"
proof -
  obtain rows w' where rows: "schedule_actions E inst nevents b 0 acts w = (True, w')"
    "tasks (db w') = tasks (db w) @ rows" "list_all2 (created_by (wi_ID inst) b) acts rows"
    using schedule_tasks [OF assms(1) refl assms(2-4)] by blast
  then show ?thesis
    by (intro exI [of _ rows]) (auto elim!: list_all2_mono simp: created_by_def created_row_def)
qed

definition loaded_instance :: "gomap WorkflowInstance" where
  "loaded_instance = \<lparr>wi_ID = 7, wi_WorkflowDefinitionID = ''wf'', wi_Tenant = ''t'', wi_Status = ''RUNNING'',
     wi_CurrentPhase = ''one'', wi_DimensionalState = None, wi_Version = 1, wi_CreatedAt = 0,
     wi_UpdatedAt = 0\<rparr>"

lemma calm_env_fresh:
  assumes "\<forall>r \<in> set rows. unat (tk_ID r) < t" and "t + n < 2 ^ 128"
  shows "fresh_ids calm_env t n rows"
  unfolding fresh_ids_def
proof
  have u: "unat (word_of_nat k :: uuid) = k" if "k < t + n" for k
    using that assms(2) by (simp add: unat_of_nat take_bit_nat_eq_self)
  show "inj_on (fresh_uuid calm_env) {t..<t + n}"
    by (rule inj_onI) (metis atLeastLessThan_iff calm_env_sel(6) u)
  show "\<forall>k \<in> {t..<t + n}. fresh_uuid calm_env k \<notin> tk_ID ` set rows"
    using assms(1) u by (auto simp: image_iff) (metis not_le)
qed

theorem one_task_per_action_witness:
  "\<exists>r1 r2. tasks (db (snd (schedule_actions calm_env loaded_instance 1 (base_of example_start) 0
     [example_action, example_action] example_world))) = [example_task, r1, r2]"
proof -
  have "fresh_ids calm_env (tick example_world) (8 * length [example_action, example_action]) (tasks (db example_world))"
    by (rule calm_env_fresh) (simp_all add: example_defs)
  moreover have "wi_ID loaded_instance \<in> instance_ids (db example_world)"
    and "\<forall>a \<in> set [example_action, example_action]. marshalable (json_of_map (ac_Arguments a))"
    by (simp_all add: loaded_instance_def instance_ids_def example_defs example_action_def)
  ultimately obtain rows where
    t: "tasks (db (snd (schedule_actions calm_env loaded_instance 1 (base_of example_start) 0
        [example_action, example_action] example_world))) = tasks (db example_world) @ rows"
    and l: "length [example_action, example_action] = length rows"
    using one_task_per_action [OF calm_env_calm, of loaded_instance example_world
        "[example_action, example_action]" 1 "base_of example_start"] by (auto dest: list_all2_lengthD)
  from l obtain r1 r2 where "rows = [r1, r2]" by (auto simp: length_Suc_conv Suc_length_conv)
  with t show ?thesis by (simp add: example_world_def example_db_def)
qed

text \<open>
  C18. Only the first of them is recorded: every append of the loop uses the version read before the
  loop, so after the first one has raised it the others fail, and their error is dropped. The
  history grows by one \<open>TaskScheduled\<close> event for any number of actions.
\<close>

theorem only_first_scheduling_recorded:
  assumes "calm E" and "wf_db (db w)"
    and "row_at wi_ID (workflow_instances (db w)) (wi_ID inst) = Some r" and "wi_Version r = wi_Version inst"
    and "(wi_ID inst, int nevents + 1) \<notin> history_key ` set (workflow_history (db w))"
    and "\<forall>a \<in> set (a1 # acts). marshalable (json_of_map (ac_Arguments a))"
    and "fresh_ids E (tick w) (8 * length (a1 # acts)) (tasks (db w))"
  shows "\<exists>h. workflow_history (db (snd (schedule_actions E inst nevents b 0 (a1 # acts) w))) =
      workflow_history (db w) @ [h] \<and>
    hr_EventType h = ''TaskScheduled'' \<and> hr_SequenceNum h = int nevents + 1 \<and> hr_Instance h = wi_ID inst \<and>
    length (tasks (db (snd (schedule_actions E inst nevents b 0 (a1 # acts) w)))) =
      length (tasks (db w)) + length (a1 # acts)"
proof -
  let ?i = "wi_ID inst" and ?v = "wi_Version inst"
  have u: "unique_key wi_ID (workflow_instances (db w))" using assms(2) by (simp add: wf_db_def wf_events_def)
  have hit: "0 < rows_affected (version_matches ?i ?v) (workflow_instances (db w))"
    using version_row_hit [OF u] assms(3,4) by auto
  have ids: "?i \<in> wi_ID ` set (workflow_instances (db w))" by (rule version_matches_ids [OF hit])
  have new: "fresh_uuid E (tick w) \<notin> tk_ID ` set (tasks (db w))" using assms(7) by (auto simp: fresh_ids_def)
  have m: "marshalable (json_of_map (ac_Arguments a1))" using assms(6) by simp
  define t where "t = created_row (fresh_uuid E (tick w)) ?i b a1 (clock E (Suc (tick w)))"
  obtain w3 w5 :: "'b world_scheme" and ev
    where w3: "db w3 = (db w)\<lparr>tasks := tasks (db w) @ [t]\<rparr>"
      and ev: "ev = scheduled_event (uuid_String E (fresh_uuid E (tick w))) (int (nevents + 0 + 1)) b a1 (clock E (tick w + 2))"
      and w5: "db w5 = db (snd (AppendEvents E ?i ?v [ev] w3))"
      and tk: "tick w < tick w5" "tick w5 \<le> tick w + 8"
      and eq: "schedule_actions E inst nevents b 0 (a1 # acts) w = schedule_actions E inst nevents b (Suc 0) acts w5"
    using schedule_step [OF assms(1) m refl ids new, of b nevents 0 acts] unfolding t_def by metis
  have ok: "fst (AppendEvents E ?i ?v [ev] w3) = Inr ()"
    unfolding AppendEvents_calm(1) [OF assms(1)]
    using hit assms(5) by (simp add: w3 accepts_events_def ev scheduled_event_def add.commute)
  then have db5: "db w5 = append_effect ?i ?v (clock E (tick w3)) [ev] (db w3)"
    using AppendEvents_calm(3) [OF assms(1), of ?i ?v "[ev]" w3] by (simp add: w5)
  have stale: "rows_affected (version_matches ?i ?v) (workflow_instances (db w5)) = 0"
    using version_update_stale [of ?i ?v "clock E (tick w3)" "workflow_instances (db w)"]
    by (simp add: db5 append_effect_def w3)
  have ids5: "?i \<in> wi_ID ` set (workflow_instances (db w5))"
    using ids by (simp add: db5 append_effect_def w3 version.key_set_update)
  have fresh: "fresh_ids E (tick w5) (8 * length acts) (tasks (db w5))"
    by (rule fresh_ids_step [OF assms(7), where r = t])
      (use tk in \<open>auto simp: db5 w3 append_effect_def t_def created_row_def\<close>)
  obtain rows w' where rows: "schedule_actions E inst nevents b (Suc 0) acts w5 = (True, w')"
    "db w' = (db w5)\<lparr>tasks := tasks (db w5) @ rows\<rparr>" "list_all2 (created_by ?i b) acts rows"
    using schedule_stale [OF assms(1) refl ids5 stale _ fresh] assms(6) by fastforce
  then show ?thesis
    unfolding eq rows(1) snd_conv
    using list_all2_lengthD [OF rows(3)]
    by (simp add: db5 append_effect_def w3 ev scheduled_event_def)
qed

theorem only_first_scheduling_recorded_witness:
  "\<exists>h. workflow_history (db (snd (schedule_actions calm_env loaded_instance 1 (base_of example_start) 0
     [example_action, example_action] example_world))) = [example_event_row, h]"
proof -
  have "fresh_ids calm_env (tick example_world) (8 * length [example_action, example_action]) (tasks (db example_world))"
    by (rule calm_env_fresh) (simp_all add: example_defs)
  moreover have "wf_db (db example_world)" using example_wf by (simp add: example_world_def)
  moreover have "row_at wi_ID (workflow_instances (db example_world)) (wi_ID loaded_instance) = Some example_instance"
    and "wi_Version example_instance = wi_Version loaded_instance"
    and "(wi_ID loaded_instance, int 1 + 1) \<notin> history_key ` set (workflow_history (db example_world))"
    and "\<forall>a \<in> set [example_action, example_action]. marshalable (json_of_map (ac_Arguments a))"
    by (simp_all add: loaded_instance_def example_defs history_key_def example_action_def)
  ultimately obtain h where "workflow_history (db (snd (schedule_actions calm_env loaded_instance 1
      (base_of example_start) 0 [example_action, example_action] example_world))) =
      workflow_history (db example_world) @ [h]"
    using only_first_scheduling_recorded [OF calm_env_calm] by blast
  then show ?thesis by (simp add: example_world_def example_db_def)
qed

end
