(* ===== verification/Advance_Properties.thy ===== *)
theory Advance_Properties
  imports Engine_Properties
begin

text \<open>
  Properties of advancing: what \<open>advanceFromState\<close> does at an end state and in between, when
  \<open>executeWorkflow\<close> returns and when it does not, and how a finished task resumes its workflow.
\<close>

section \<open>Loading and stepping without disturbance\<close>

definition instance_at :: "uuid \<Rightarrow> database \<Rightarrow> json WorkflowInstance option" where
  "instance_at iid d = row_at wi_ID (workflow_instances d) iid"

definition phase_of :: "uuid \<Rightarrow> database \<Rightarrow> string option" where
  "phase_of iid d = map_option wi_CurrentPhase (instance_at iid d)"

definition status_of :: "uuid \<Rightarrow> database \<Rightarrow> string option" where
  "status_of iid d = map_option wi_Status (instance_at iid d)"

text \<open>The instance and the events that \<open>LoadInstance\<close> reads.\<close>

definition loads :: "database \<Rightarrow> uuid \<Rightarrow> gomap WorkflowInstance \<Rightarrow> HistoryEvent list \<Rightarrow> bool" where
  "loads d iid inst evs \<longleftrightarrow>
     (\<exists>r. instance_at iid d = Some r \<and> scanInstance (Inr r) = Inr inst) \<and>
     scan_rows scan_event (history_of iid 0 d) = Inr evs"

lemma LoadInstance_calm:
  assumes "calm E"
  shows "LoadInstance E iid w = (Inr (inst, evs), w1) \<longleftrightarrow>
    loads (db w) iid inst evs \<and> w1 = next_tick (next_tick w)"
  by (auto simp: LoadInstance_def db_query_calm [OF assms] db_rows_calm [OF assms] queryHistory_def first_row_key loads_def
      instance_at_def scanInstance_def split: option.splits sum.splits)

lemma loads_fields:
  assumes "loads d iid inst evs"
  shows "wi_ID inst = iid" and "phase_of iid d = Some (wi_CurrentPhase inst)"
  using assms by (auto simp: loads_def phase_of_def instance_at_def dest: scanInstance_fields row_at_SomeD)

lemma AppendEvents_calm_row:
  assumes "calm E" and "\<And>r. g (version_row (clock E (tick w)) r) = g r"
  shows "map_option g (instance_at j (db (snd (AppendEvents E iid v evs w)))) = map_option g (instance_at j (db w))"
  using AppendEvents_calm(3) [OF assms(1), of iid v evs w] assms(2)
  by (auto simp: instance_at_def append_effect_def version.row_at_update option.map_comp o_def
      intro!: option.map_cong)

lemma UpdateWorkflowStatus_calm:
  "calm E \<Longrightarrow> UpdateWorkflowStatus E iid st w = (Inr (), next_tick (w\<lparr>db := (db w)\<lparr>workflow_instances :=
     sql_update (\<lambda>r. wi_ID r = iid) (status_row st (clock E (tick w))) (workflow_instances (db w))\<rparr>\<rparr>))"
  by (simp add: UpdateWorkflowStatus_def db_exec_calm)

lemma UpdateCurrentPhase_calm:
  "calm E \<Longrightarrow> UpdateCurrentPhase E iid ph w = (Inr (), next_tick (w\<lparr>db := (db w)\<lparr>workflow_instances :=
     sql_update (\<lambda>r. wi_ID r = iid) (phase_row ph (clock E (tick w))) (workflow_instances (db w))\<rparr>\<rparr>))"
  by (simp add: UpdateCurrentPhase_def db_exec_calm)

lemma instance_at_status:
  "instance_at j (d\<lparr>workflow_instances := sql_update (\<lambda>r. wi_ID r = iid) (status_row st now) (workflow_instances d)\<rparr>) =
   (if j = iid then map_option (status_row st now) (instance_at j d) else instance_at j d)"
  using status.row_at_update_key [of iid "\<lambda>_. True" st now "workflow_instances d" j]
  by (simp add: instance_at_def)

lemma instance_at_phase:
  "instance_at j (d\<lparr>workflow_instances := sql_update (\<lambda>r. wi_ID r = iid) (phase_row ph now) (workflow_instances d)\<rparr>) =
   (if j = iid then map_option (phase_row ph now) (instance_at j d) else instance_at j d)"
  using phase.row_at_update_key [of iid "\<lambda>_. True" ph now "workflow_instances d" j]
  by (simp add: instance_at_def)

text \<open>The three branches of \<open>advanceFromState\<close>.\<close>

lemma advance_step_end:
  assumes "calm E" and "End st"
  shows "\<exists>w'. advance_step E inst evs st w = (Inr False, w') \<and>
    status_of (wi_ID inst) (db w') = map_option (\<lambda>_. ''COMPLETED'') (status_of (wi_ID inst) (db w))"
proof -
  let ?ev = "engine_event (int (length evs) + 1) ''WorkflowCompleted''
    [(''state'', JStr (GetName st))] (clock E (tick w))"
  obtain x w2 where ap: "AppendEvents E (wi_ID inst) (wi_Version inst) [?ev] (next_tick w) = (x, w2)" by fastforce
  then have "map_option (\<lambda>_. ()) (instance_at (wi_ID inst) (db w2)) =
      map_option (\<lambda>_. ()) (instance_at (wi_ID inst) (db w))"
    using AppendEvents_calm_row [OF assms(1), of "\<lambda>_. ()" "next_tick w" "wi_ID inst" "wi_ID inst" "wi_Version inst" "[?ev]"]
    by simp
  then have "status_of (wi_ID inst) (db (snd (UpdateWorkflowStatus E (wi_ID inst) ''COMPLETED'' w2))) =
      map_option (\<lambda>_. ''COMPLETED'') (status_of (wi_ID inst) (db w))"
    by (cases "instance_at (wi_ID inst) (db w2)"; cases "instance_at (wi_ID inst) (db w)")
      (simp_all add: UpdateWorkflowStatus_calm [OF assms(1)] status_of_def instance_at_status row_defs)
  with ap assms show ?thesis
    by (simp add: advance_step_def time_Now_simp Let_def UpdateWorkflowStatus_calm [OF assms(1)])
qed

lemma advance_step_transition:
  assumes "calm E" and "\<not> End st" and "GetTransition st \<noteq> []"
  shows "\<exists>w'. advance_step E inst evs st w = (Inr True, w') \<and>
    phase_of (wi_ID inst) (db w') = map_option (\<lambda>_. GetTransition st) (phase_of (wi_ID inst) (db w)) \<and>
    status_of (wi_ID inst) (db w') = status_of (wi_ID inst) (db w)"
proof -
  let ?ev = "engine_event (int (length evs) + 1) ''StateTransitioned''
    [(''from'', JStr (GetName st)), (''to'', JStr (GetTransition st))] (clock E (tick w))"
  obtain x w2 where ap: "AppendEvents E (wi_ID inst) (wi_Version inst) [?ev] (next_tick w) = (x, w2)" by fastforce
  then have "map_option wi_Status (instance_at (wi_ID inst) (db w2)) =
      map_option wi_Status (instance_at (wi_ID inst) (db w))"
    using AppendEvents_calm_row [OF assms(1), of wi_Status "next_tick w" "wi_ID inst" "wi_ID inst" "wi_Version inst" "[?ev]"]
    by (simp add: row_defs)
  then have "phase_of (wi_ID inst) (db (snd (UpdateCurrentPhase E (wi_ID inst) (GetTransition st) w2))) =
      map_option (\<lambda>_. GetTransition st) (phase_of (wi_ID inst) (db w)) \<and>
    status_of (wi_ID inst) (db (snd (UpdateCurrentPhase E (wi_ID inst) (GetTransition st) w2))) =
      status_of (wi_ID inst) (db w)"
    by (cases "instance_at (wi_ID inst) (db w2)"; cases "instance_at (wi_ID inst) (db w)")
      (simp_all add: UpdateCurrentPhase_calm [OF assms(1)] status_of_def phase_of_def instance_at_phase row_defs)
  with ap assms show ?thesis
    by (simp add: advance_step_def time_Now_simp Let_def UpdateCurrentPhase_calm [OF assms(1)])
qed

section \<open>Termination of \<open>executeWorkflow\<close>\<close>

text \<open>A state the engine passes through without waiting: no actions, not the end, a transition.\<close>

definition silent :: "state \<Rightarrow> bool" where
  "silent st \<longleftrightarrow> (case st of OperationState b acts \<Rightarrow> acts = [] | _ \<Rightarrow> False) \<and> \<not> End st \<and> GetTransition st \<noteq> []"

lemma findState_name: "findState def ph = Some st \<Longrightarrow> st \<in> set (wd_States def) \<and> GetName st = ph"
  by (auto simp: findState_def find_Some_iff)

lemma advance_step_True:
  assumes "calm E" and "advance_step E inst evs st w = (Inr True, w')"
  shows "\<not> End st \<and> GetTransition st \<noteq> [] \<and>
    phase_of (wi_ID inst) (db w') = map_option (\<lambda>_. GetTransition st) (phase_of (wi_ID inst) (db w))"
proof -
  have "\<not> End st" using assms advance_step_end [OF assms(1), of st inst evs w] by fastforce
  moreover have "GetTransition st \<noteq> []"
    using assms calculation by (auto simp: advance_step_def UpdateWorkflowStatus_calm [OF assms(1)])
  ultimately show ?thesis
    using advance_step_transition [OF assms(1), of st inst evs w] assms(2) by fastforce
qed

lemma processState_True:
  assumes "calm E" and "processState E inst evs st w = (True, w')"
  shows "silent st \<and> phase_of (wi_ID inst) (db w') = map_option (\<lambda>_. GetTransition st) (phase_of (wi_ID inst) (db w))"
proof -
  obtain b where st: "st = OperationState b []" and adv: "advance_step E inst evs st w = (Inr True, w')"
    using assms(2)
    by (auto simp: processState_def processOperationState_def split: state.splits prod.splits bool.splits
        sum.splits if_splits)
  from advance_step_True [OF assms(1) adv] st show ?thesis by (simp add: silent_def)
qed

lemma execute_step_True:
  assumes "calm E" and "execute_step E iid def w = (True, w1)"
  shows "\<exists>ph st. phase_of iid (db w) = Some ph \<and> ph \<noteq> [] \<and> findState def ph = Some st \<and> silent st \<and>
    phase_of iid (db w1) = Some (GetTransition st)"
proof -
  obtain inst evs st w2 where l: "LoadInstance E iid w = (Inr (inst, evs), w2)"
    and f: "wi_CurrentPhase inst \<noteq> []" "findState def (wi_CurrentPhase inst) = Some st"
    and p: "processState E inst evs st w2 = (True, w1)"
    using assms(2) by (auto simp: execute_step_def split: prod.splits sum.splits if_splits option.splits)
  then have "loads (db w) iid inst evs" and w2: "db w2 = db w" by (simp_all add: LoadInstance_calm [OF assms(1)])
  from loads_fields [OF this(1)] processState_True [OF assms(1) p] f w2 show ?thesis by auto
qed

text \<open>
  C21. \<open>executeWorkflow\<close> returns whenever the states without actions do not lead back to each other:
  if some rank falls along their transitions, every run from every database comes to an end.
\<close>

theorem execute_terminates:
  assumes "calm E"
    and "\<forall>st \<in> set (wd_States def). silent st \<longrightarrow> rank (GetTransition st) < (rank (GetName st) :: nat)"
  shows "\<exists>w'. executeWorkflow E iid def w = Some w'"
proof (induction "case phase_of iid (db w) of None \<Rightarrow> 0 | Some ph \<Rightarrow> rank ph" arbitrary: w rule: less_induct)
  case less
  obtain again w1 where step: "execute_step E iid def w = (again, w1)" by fastforce
  show ?case
  proof (cases again)
    case False
    with step show ?thesis by (simp add: executeWorkflow.simps [of E iid def w])
  next
    case True
    with step have "execute_step E iid def w = (True, w1)" by simp
    from execute_step_True [OF assms(1) this] obtain ph st where
      ph: "phase_of iid (db w) = Some ph" "findState def ph = Some st" "silent st"
        "phase_of iid (db w1) = Some (GetTransition st)" by blast
    with assms(2) findState_name [OF ph(2)] have "rank (GetTransition st) < rank ph" by auto
    with ph less [of w1] obtain w' where "executeWorkflow E iid def w1 = Some w'" by auto
    with step True show ?thesis by (simp add: executeWorkflow.simps [of E iid def w])
  qed
qed

theorem execute_terminates_witness:
  "\<exists>w'. executeWorkflow calm_env 7 example_definition example_world = Some w'"
proof -
  have "\<forall>st \<in> set (wd_States example_definition). silent st \<longrightarrow>
      (\<lambda>_. 0) (GetTransition st) < ((\<lambda>_. 0) (GetName st) :: nat)"
    by (simp add: example_definition_def example_start_def example_end_def silent_def End_def)
  from execute_terminates [OF calm_env_calm this] show ?thesis .
qed

section \<open>Divergence\<close>

definition readable :: "database \<Rightarrow> uuid \<Rightarrow> bool" where
  "readable d iid \<longleftrightarrow> (\<exists>r inst. instance_at iid d = Some r \<and> scanInstance (Inr r) = Inr inst) \<and>
     (\<forall>h \<in> set (workflow_history d). hr_Instance h = iid \<longrightarrow> (\<exists>ev. scan_event h = Inr ev))"

lemma scan_rows_all: "\<forall>r \<in> set rows. \<exists>a. f r = Inr a \<Longrightarrow> \<exists>xs. scan_rows f rows = Inr xs"
  by (induction rows) (auto split: sum.splits)

lemma readable_loads: "readable d iid \<Longrightarrow> \<exists>inst evs. loads d iid inst evs"
  using scan_rows_all [of "history_of iid 0 d" scan_event]
  by (fastforce simp: readable_def loads_def history_of_def)

lemma scanInstance_phase_version:
  "\<exists>i. scanInstance (Inr r) = Inr i \<Longrightarrow> \<exists>i. scanInstance (Inr (phase_row ph now r)) = Inr i"
  "\<exists>i. scanInstance (Inr r) = Inr i \<Longrightarrow> \<exists>i. scanInstance (Inr (version_row now r)) = Inr i"
  by (auto simp: scanInstance_def row_defs split: sum.splits)

lemma scan_strings:
  "hr_Payload h = JObj [(k, JStr a), (k', JStr b)] \<Longrightarrow> \<exists>ev. scan_event h = Inr ev"
  by (simp add: scan_event_def json_Unmarshal_def)

lemma readable_append:
  assumes "calm E" and "readable (db w) j"
  shows "readable (db (snd (AppendEvents E iid v [engine_event seq typ [(k, JStr a), (k', JStr b)] now] w))) j"
proof -
  let ?ev = "engine_event seq typ [(k, JStr a), (k', JStr b)] now"
  have "readable (append_effect iid v t [?ev] (db w)) j" for t
    unfolding readable_def
  proof
    show "\<exists>r inst. instance_at j (append_effect iid v t [?ev] (db w)) = Some r \<and> scanInstance (Inr r) = Inr inst"
    proof -
      obtain r inst where r: "instance_at j (db w) = Some r" "scanInstance (Inr r) = Inr inst"
        using assms(2) by (auto simp: readable_def)
      then have "instance_at j (append_effect iid v t [?ev] (db w)) =
          Some (if version_matches iid v r then version_row t r else r)"
        by (simp add: append_effect_def instance_at_def version.row_at_update)
      with r scanInstance_phase_version(2) [of r t] show ?thesis by auto
    qed
    have "\<exists>ev. scan_event h = Inr ev" if "h \<in> set (history_rows iid t [?ev])" for h
      using that by (intro scan_strings [of h k a k' b]) (simp add: engine_event_def)
    then show "\<forall>h \<in> set (workflow_history (append_effect iid v t [?ev] (db w))). hr_Instance h = j \<longrightarrow>
        (\<exists>ev. scan_event h = Inr ev)"
      using assms(2) unfolding readable_def append_effect_def by auto
  qed
  with assms(2) AppendEvents_calm(3) [OF assms(1), of iid v "[?ev]" w] show ?thesis by auto
qed

lemma readable_phase:
  "readable d j \<Longrightarrow> readable (d\<lparr>workflow_instances :=
     sql_update (\<lambda>r. wi_ID r = iid) (phase_row ph now) (workflow_instances d)\<rparr>) j"
  unfolding readable_def instance_at_phase by (auto intro: scanInstance_phase_version)

text \<open>A transition leaves the instance readable and the tasks alone.\<close>

lemma advance_step_next:
  assumes "calm E" and "readable (db w) (wi_ID inst)" and "\<not> End st" and "GetTransition st \<noteq> []"
  obtains w1 where "advance_step E inst evs st w = (Inr True, w1)" and "readable (db w1) (wi_ID inst)"
    and "phase_of (wi_ID inst) (db w1) = map_option (\<lambda>_. GetTransition st) (phase_of (wi_ID inst) (db w))"
    and "status_of (wi_ID inst) (db w1) = status_of (wi_ID inst) (db w)"
    and "tasks (db w1) = tasks (db w)" and "tick w \<le> tick w1" and "tick w1 \<le> tick w + 6"
proof -
  let ?iid = "wi_ID inst"
  let ?ev = "engine_event (int (length evs) + 1) ''StateTransitioned''
    [(''from'', JStr (GetName st)), (''to'', JStr (GetTransition st))] (clock E (tick w))"
  define w2 where "w2 = snd (AppendEvents E ?iid (wi_Version inst) [?ev] (next_tick w))"
  obtain w1 where adv: "advance_step E inst evs st w = (Inr True, w1)"
      "phase_of ?iid (db w1) = map_option (\<lambda>_. GetTransition st) (phase_of ?iid (db w))"
      "status_of ?iid (db w1) = status_of ?iid (db w)"
    using advance_step_transition [OF assms(1,3,4), of inst evs w] by blast
  then have w1: "w1 = next_tick (w2\<lparr>db := (db w2)\<lparr>workflow_instances := sql_update (\<lambda>r. wi_ID r = ?iid)
      (phase_row (GetTransition st) (clock E (tick w2))) (workflow_instances (db w2))\<rparr>\<rparr>)"
    using assms(3,4) by (auto simp: advance_step_def time_Now_simp Let_def UpdateCurrentPhase_calm [OF assms(1)] w2_def
        split: prod.splits)
  have "readable (db w2) ?iid"
    unfolding w2_def by (rule readable_append) (simp_all add: assms(1,2))
  then have "readable (db w1) ?iid" using readable_phase by (simp add: w1)
  moreover have "tasks (db w2) = tasks (db w)"
    using AppendEvents_calm(3) [OF assms(1), of ?iid "wi_Version inst" "[?ev]" "next_tick w"]
    by (auto simp: w2_def append_effect_def)
  moreover have "tick w2 \<le> tick w + 5 \<and> tick w \<le> tick w2"
    using AppendEvents_tick [of "next_tick w" E ?iid "wi_Version inst" "[?ev]"] by (simp add: w2_def)
  ultimately show thesis using adv w1 by (intro that [of w1]) simp_all
qed

lemma execute_step_silent:
  assumes "calm E" and "readable (db w) iid" and "phase_of iid (db w) = Some ph" and "ph \<noteq> []"
    and "findState def ph = Some st" and "silent st"
  shows "\<exists>w1. execute_step E iid def w = (True, w1) \<and> readable (db w1) iid \<and>
    phase_of iid (db w1) = Some (GetTransition st)"
proof -
  obtain inst evs where l: "loads (db w) iid inst evs" using readable_loads [OF assms(2)] by blast
  let ?w = "next_tick (next_tick w)"
  have load: "LoadInstance E iid w = (Inr (inst, evs), ?w)" using l by (simp add: LoadInstance_calm [OF assms(1)])
  have fields: "wi_ID inst = iid" "wi_CurrentPhase inst = ph" using loads_fields [OF l] assms(3) by auto
  obtain b where st: "st = OperationState b []" using assms(6) by (auto simp: silent_def split: state.splits)
  have tr: "\<not> End st" "GetTransition st \<noteq> []" using assms(6) by (auto simp: silent_def)
  obtain w1 where adv: "advance_step E inst evs st ?w = (Inr True, w1)" "readable (db w1) (wi_ID inst)"
      "phase_of (wi_ID inst) (db w1) = map_option (\<lambda>_. GetTransition st) (phase_of (wi_ID inst) (db ?w))"
    using advance_step_next [OF assms(1) _ tr, of ?w inst evs] assms(2) fields(1) by auto
  moreover have "execute_step E iid def w = (True, w1)"
    using load fields assms(4,5) adv(1) st by (simp add: execute_step_def processState_def processOperationState_def)
  ultimately show ?thesis using fields assms(3) by auto
qed

text \<open>
  Nothing stops the engine from circling: where states without actions lead only to each other
  (every such state reached has a successor that is silent too), \<open>executeWorkflow\<close> never returns.
\<close>

theorem execute_diverges:
  assumes "calm E" and "readable (db w) iid" and "phase_of iid (db w) = Some ph" and "ph \<in> cycle"
    and "\<forall>ph \<in> cycle. ph \<noteq> [] \<and> (\<exists>st. findState def ph = Some st \<and> silent st \<and> GetTransition st \<in> cycle)"
  shows "executeWorkflow E iid def w = None"
proof (rule ccontr)
  assume "executeWorkflow E iid def w \<noteq> None"
  then obtain w' where "executeWorkflow E iid def w = Some w'" by auto
  then have "E = E0 \<and> def = def0 \<longrightarrow> readable (db w) iid \<longrightarrow> (\<forall>ph \<in> cycle. phase_of iid (db w) \<noteq> Some ph)"
    if calm0: "calm E0" and cycle0: "\<forall>ph \<in> cycle. ph \<noteq> [] \<and> (\<exists>st. findState def0 ph = Some st \<and> silent st \<and> GetTransition st \<in> cycle)"
    for E0 def0
  proof (induction rule: executeWorkflow.raw_induct [rotated, consumes 1, case_names step])
    case (step exec E iid def w w')
    show ?case
    proof (intro impI ballI notI)
      fix ph assume eq: "E = E0 \<and> def = def0" and r: "readable (db w) iid" and ph: "ph \<in> cycle"
        and at: "phase_of iid (db w) = Some ph"
      obtain st where st: "ph \<noteq> []" "findState def ph = Some st" "silent st" "GetTransition st \<in> cycle"
        using cycle0 ph eq by blast
      have calm: "calm E" using calm0 eq by simp
      obtain w1 where w1: "execute_step E iid def w = (True, w1)" "readable (db w1) iid"
          "phase_of iid (db w1) = Some (GetTransition st)"
        using execute_step_silent [OF calm r at st(1-3)] by blast
      with step(2) have "exec E iid def w1 = Some w'" by simp
      from step(1) [OF this] eq w1(2,3) st(4) show False by blast
    qed
  qed
  with assms show False by blast
qed

definition loop_definition :: WorkflowDefinition where
  "loop_definition = example_definition\<lparr>wd_States := [OperationState
     \<lparr>bs_Name = ''one'', bs_Type = ''operation'', bs_Transition = ''one'', bs_EndFlag = False\<rparr> []]\<rparr>"

theorem execute_diverges_witness: "executeWorkflow calm_env 7 loop_definition example_world = None"
proof (rule execute_diverges [where ph = "''one''" and cycle = "{''one''}"])
  show "readable (db example_world) 7"
    by (simp add: readable_def example_defs instance_at_def scanInstance_def scan_event_def json_Unmarshal_def)
qed (simp_all add: phase_of_def instance_at_def example_defs loop_definition_def findState_def
    example_definition_def GetName_def silent_def End_def GetTransition_def)

section \<open>Resuming after tasks\<close>

lemma advance_end:
  assumes "calm E" and "End st"
  shows "\<exists>w'. advanceFromState E inst evs st def w = Some (Inr (), w') \<and>
    status_of (wi_ID inst) (db w') = map_option (\<lambda>_. ''COMPLETED'') (status_of (wi_ID inst) (db w))"
  using advance_step_end [OF assms, of inst evs w] by (auto simp: advanceFromState_def)

text \<open>
  At an end state the workflow is marked completed, whatever its status was before, cancelled and
  failed included, and whether or not the event could be recorded.
\<close>

theorem end_state_completes:
  assumes "calm E" and "End st"
  shows "\<exists>w'. advanceFromState E inst evs st def w = Some (Inr (), w') \<and>
    status_of (wi_ID inst) (db w') = map_option (\<lambda>_. ''COMPLETED'') (status_of (wi_ID inst) (db w))"
  using assms by (rule advance_end)

definition canceled_world :: world where
  "canceled_world = example_world\<lparr>db := example_db\<lparr>workflow_instances := [status_row ''CANCELED'' 3 example_instance]\<rparr>\<rparr>"

theorem end_state_completes_witness:
  "status_of 7 (db canceled_world) = Some ''CANCELED'' \<and>
   (\<exists>w'. advanceFromState calm_env loaded_instance [] example_end example_definition canceled_world =
      Some (Inr (), w') \<and> status_of 7 (db w') = Some ''COMPLETED'')"
proof -
  have "status_of (wi_ID loaded_instance) (db canceled_world) = Some ''CANCELED''" and "End example_end"
    by (simp_all add: canceled_world_def status_of_def instance_at_def example_defs row_defs
        loaded_instance_def End_def example_end_def)
  with end_state_completes [OF calm_env_calm this(2), of loaded_instance "[]" example_definition canceled_world]
  show ?thesis by (simp add: loaded_instance_def)
qed

text \<open>
  While an instance has a pending or assigned task, a finished one does not move it: the resume
  returns without error and without touching the database.
\<close>

theorem resume_waits_for_open_tasks:
  assumes "calm E" and "open_tasks iid (db w) \<noteq> []"
  shows "resumeWorkflowAfterTask E iid w = Some (Inr (), next_tick w)"
  using assms(2) by (simp add: resumeWorkflowAfterTask_def CountPendingTasks_def db_query_calm [OF assms(1)] db_rows_calm [OF assms(1)])

definition example_process :: engine_world where
  "example_process = \<lparr>db = example_db, tick = 100, broker = [], reg_has_db = True,
     reg_cache = [''wf'' \<mapsto> \<lparr>cd_def = example_definition, cd_expiresAt = 1000\<rparr>], goroutines = []\<rparr>"

theorem resume_waits_for_open_tasks_witness:
  "resumeWorkflowAfterTask calm_env 7 example_process = Some (Inr (), next_tick example_process)"
  by (rule resume_waits_for_open_tasks)
    (simp_all add: example_process_def open_tasks_def open_status_def example_defs)

lemma reg_Get_cached:
  "reg_cache w i = Some c \<Longrightarrow> clock E (tick w) < cd_expiresAt c \<Longrightarrow> reg_Get E i w = (Inr (cd_def c), next_tick w)"
  by (simp add: reg_Get_def time_Now_def)

text \<open>
  Only pending and assigned tasks hold a workflow back: when the last open task of an end state is
  gone the instance becomes \<open>COMPLETED\<close>, even if its tasks are \<open>FAILED\<close>; nothing on this path
  looks at the outcome of a task.
\<close>

theorem failed_tasks_complete_workflow:
  fixes w :: "'z registry_world_scheme"
  assumes "calm E" and "open_tasks iid (db w) = []" and "loads (db w) iid inst evs"
    and "reg_cache w (wi_WorkflowDefinitionID inst) = Some c" and "clock E (tick w + 3) < cd_expiresAt c"
    and "findState (cd_def c) (wi_CurrentPhase inst) = Some st" and "End st"
  shows "\<exists>w'. resumeWorkflowAfterTask E iid w = Some (Inr (), w') \<and> status_of iid (db w') = Some ''COMPLETED''"
proof -
  let ?w = "next_tick (next_tick (next_tick w))"
  have "LoadInstance E iid (next_tick w) = (Inr (inst, evs), ?w)"
    using assms(3) by (simp add: LoadInstance_calm [OF assms(1)])
  moreover have "reg_cache ?w = reg_cache w" by (simp add: next_tick_def)
  then have "reg_Get E (wi_WorkflowDefinitionID inst) ?w = (Inr (cd_def c), next_tick ?w)"
    using assms(4,5) by (intro reg_Get_cached) (simp_all add: numeral_3_eq_3)
  ultimately have "resumeWorkflowAfterTask E iid w = advanceFromState E inst evs st (cd_def c) (next_tick ?w)"
    using assms(2,6) by (simp add: resumeWorkflowAfterTask_def CountPendingTasks_def db_query_calm [OF assms(1)] db_rows_calm [OF assms(1)])
  moreover have "wi_ID inst = iid" "status_of iid (db w) = Some (wi_Status inst)"
    using assms(3) by (auto simp: loads_def status_of_def instance_at_def dest: scanInstance_fields row_at_SomeD)
  ultimately show ?thesis
    using advance_end [OF assms(1,7), of inst evs "cd_def c" "next_tick ?w"] by simp
qed

definition failed_process :: engine_world where
  "failed_process = example_process\<lparr>db := example_db\<lparr>tasks := [failed_row 3 example_task],
     workflow_instances := [phase_row ''two'' 3 example_instance]\<rparr>\<rparr>"

theorem failed_tasks_complete_workflow_witness:
  "tasks (db failed_process) = [failed_row 3 example_task] \<and>
   (\<exists>w'. resumeWorkflowAfterTask calm_env 7 failed_process = Some (Inr (), w') \<and>
      status_of 7 (db w') = Some ''COMPLETED'')"
proof
  show "tasks (db failed_process) = [failed_row 3 example_task]" by (simp add: failed_process_def)
  have "loads (db failed_process) 7 (loaded_instance\<lparr>wi_CurrentPhase := ''two'', wi_UpdatedAt := 3\<rparr>)
      [\<lparr>he_SequenceNum = 1, he_EventType = ''WorkflowStarted'', he_Payload = Some [], he_RecordedAt = 0\<rparr>]"
    by (simp add: loads_def failed_process_def example_defs instance_at_def row_defs scanInstance_def
        json_Unmarshal_def loaded_instance_def history_of_def order_by_asc_def scan_event_def)
  from failed_tasks_complete_workflow [OF calm_env_calm _ this]
  show "\<exists>w'. resumeWorkflowAfterTask calm_env 7 failed_process = Some (Inr (), w') \<and>
      status_of 7 (db w') = Some ''COMPLETED''"
    by (simp add: failed_process_def example_process_def open_tasks_def open_status_def example_defs
        row_defs loaded_instance_def example_definition_def findState_def GetName_def example_start_def
        example_end_def End_def)
qed

end
