(* ===== verification/Task_Properties.thy ===== *)
theory Task_Properties
  imports Example_Environment
begin

text \<open>
  Properties of the task table. The life cycle of a task is specified abstractly, as a finite
  map from task identifiers to \<open>lifecycle\<close>; the operations of the store refine operations on
  that map.
\<close>

section \<open>The abstract life cycle\<close>

datatype lifecycle = Pending | Assigned string time | Completed | Failed

definition lifecycle_of :: "task_row \<Rightarrow> lifecycle" where
  "lifecycle_of r =
     (if tk_Status r = ''PENDING'' then Pending
      else if tk_Status r = ''ASSIGNED'' then Assigned (the (tk_AssignedAgentID r)) (the (tk_Deadline r))
      else if tk_Status r = ''COMPLETED'' then Completed
      else Failed)"

definition task_cycle :: "database \<Rightarrow> uuid \<rightharpoonup> lifecycle" where
  "task_cycle d i = map_option lifecycle_of (row_at tk_ID (tasks d) i)"

definition spec_claim :: "uuid \<Rightarrow> string \<Rightarrow> time \<Rightarrow> (uuid \<rightharpoonup> lifecycle) \<Rightarrow> (uuid \<rightharpoonup> lifecycle) option" where
  "spec_claim i a dl m = (if m i = Some Pending then Some (m(i \<mapsto> Assigned a dl)) else None)"

definition spec_release :: "uuid \<Rightarrow> string \<Rightarrow> (uuid \<rightharpoonup> lifecycle) \<Rightarrow> (uuid \<rightharpoonup> lifecycle) option" where
  "spec_release i a m =
     (case m i of
        Some (Assigned a' dl) \<Rightarrow> if a' = a then Some (m(i \<mapsto> Pending)) else None
      | _ \<Rightarrow> None)"

definition spec_extend :: "uuid \<Rightarrow> time \<Rightarrow> (uuid \<rightharpoonup> lifecycle) \<Rightarrow> (uuid \<rightharpoonup> lifecycle) option" where
  "spec_extend i dl m =
     (case m i of
        Some (Assigned a dl') \<Rightarrow> Some (m(i \<mapsto> Assigned a dl))
      | _ \<Rightarrow> None)"

definition spec_finish :: "lifecycle \<Rightarrow> uuid \<Rightarrow> (uuid \<rightharpoonup> lifecycle) \<Rightarrow> (uuid \<rightharpoonup> lifecycle)" where
  "spec_finish c i m = (if m i = None then m else m(i \<mapsto> c))"

text \<open>An operation that may be refused: the map after it and the error it reports.\<close>

definition refines ::
  "(uuid \<rightharpoonup> lifecycle) option \<Rightarrow> go_error \<Rightarrow> database \<Rightarrow> (go_error + unit) \<times> 'z world_scheme \<Rightarrow> bool" where
  "refines spec err d result \<longleftrightarrow>
     (case spec of
        Some m \<Rightarrow> fst result = Inr () \<and> task_cycle (db (snd result)) = m
      | None \<Rightarrow> fst result = Inl err \<and> task_cycle (db (snd result)) = task_cycle d)"

text \<open>
  The pool of tasks as its clients see it: what they rely on is the abstract claim and release.
  \<open>ok\<close> is the condition under which the provider keeps the contract, \<open>kept\<close> what it keeps of a
  deadline.
\<close>

locale task_pool =
  fixes ok :: "'w \<Rightarrow> bool" and cycle :: "'w \<Rightarrow> uuid \<rightharpoonup> lifecycle" and kept :: "time \<Rightarrow> time"
    and claim :: "uuid \<Rightarrow> string \<Rightarrow> time \<Rightarrow> 'w \<Rightarrow> (go_error + unit) \<times> 'w"
    and release :: "uuid \<Rightarrow> string \<Rightarrow> 'w \<Rightarrow> (go_error + unit) \<times> 'w"
  assumes claim_keeps: "ok w \<Longrightarrow> ok (snd (claim i a dl w))"
    and claim_yes: "ok w \<Longrightarrow> spec_claim i a (kept dl) (cycle w) = Some m \<Longrightarrow>
      fst (claim i a dl w) = Inr () \<and> cycle (snd (claim i a dl w)) = m"
    and claim_no: "ok w \<Longrightarrow> spec_claim i a (kept dl) (cycle w) = None \<Longrightarrow>
      fst (claim i a dl w) \<noteq> Inr () \<and> cycle (snd (claim i a dl w)) = cycle w"
    and release_yes: "ok w \<Longrightarrow> spec_release i a (cycle w) = Some m \<Longrightarrow>
      fst (release i a w) = Inr () \<and> cycle (snd (release i a w)) = m"
    and release_no: "ok w \<Longrightarrow> spec_release i a (cycle w) = None \<Longrightarrow>
      fst (release i a w) \<noteq> Inr () \<and> cycle (snd (release i a w)) = cycle w"
begin

lemma claim_iff: "ok w \<Longrightarrow> fst (claim i a dl w) = Inr () \<longleftrightarrow> cycle w i = Some Pending"
  using claim_yes [of w i a dl] claim_no [of w i a dl] unfolding spec_claim_def by (cases "cycle w i = Some Pending") simp_all

lemma claimed_cycle:
  assumes "ok w" and "fst (claim i a dl w) = Inr ()"
  shows "cycle (snd (claim i a dl w)) = (cycle w)(i \<mapsto> Assigned a (kept dl))"
proof -
  have "cycle w i = Some Pending" using claim_iff [OF assms(1)] assms(2) by blast
  then show ?thesis using claim_yes [OF assms(1), of i a dl] by (simp add: spec_claim_def)
qed

lemma claim_release:
  assumes "ok w" and "fst (claim i a dl w) = Inr ()"
  shows "fst (release i a (snd (claim i a dl w))) = Inr ()"
    and "cycle (snd (release i a (snd (claim i a dl w)))) = cycle w"
proof -
  have c: "cycle (snd (claim i a dl w)) = (cycle w)(i \<mapsto> Assigned a (kept dl))"
    using assms by (rule claimed_cycle)
  have p: "cycle w i = Some Pending" using claim_iff [OF assms(1)] assms(2) by blast
  have "spec_release i a (cycle (snd (claim i a dl w))) = Some ((cycle w)(i \<mapsto> Pending))"
    unfolding c by (simp add: spec_release_def)
  also have "(cycle w)(i \<mapsto> Pending) = cycle w" using p by (rule fun_upd_idem)
  finally have s: "spec_release i a (cycle (snd (claim i a dl w))) = Some (cycle w)" .
  show "fst (release i a (snd (claim i a dl w))) = Inr ()"
    and "cycle (snd (release i a (snd (claim i a dl w)))) = cycle w"
    using release_yes [OF claim_keeps [OF assms(1)] s] by blast+
qed

lemma release_by_other:
  assumes "ok w" and "fst (claim i a dl w) = Inr ()" and "b \<noteq> a"
  shows "fst (release i b (snd (claim i a dl w))) \<noteq> Inr ()"
proof -
  have "spec_release i b (cycle (snd (claim i a dl w))) = None"
    unfolding claimed_cycle [OF assms(1,2)] using assms(3) by (simp add: spec_release_def)
  then show ?thesis using release_no [OF claim_keeps [OF assms(1)]] by blast
qed

lemma claim_twice:
  assumes "ok w" and "fst (claim i a dl w) = Inr ()"
  shows "fst (claim i b dl' (snd (claim i a dl w))) \<noteq> Inr ()"
  unfolding claim_iff [OF claim_keeps [OF assms(1)]] claimed_cycle [OF assms] by simp

end

section \<open>Updates without disturbance\<close>

lemma exec_tasks_calm:
  "calm E \<Longrightarrow> exec_tasks E P upd w =
     (Inr (rows_affected P (tasks (db w))),
      next_tick (w\<lparr>db := (db w)\<lparr>tasks := sql_update P (upd (clock E (tick w))) (tasks (db w))\<rparr>\<rparr>))"
  by (simp add: exec_tasks_def db_exec_calm)

lemma wf_task_row:
  assumes "wf_db d" and "row_at tk_ID (tasks d) i = Some r"
  shows "task_ok r" and "tk_ID r = i"
  using row_at_SomeD [OF assms(2)] assms(1) by (auto simp: wf_db_def wf_tasks_def)

lemma lifecycle_cases:
  "task_ok r \<Longrightarrow> lifecycle_of r = Pending \<longleftrightarrow> tk_Status r = ''PENDING''"
  "task_ok r \<Longrightarrow> lifecycle_of r = Assigned a dl \<longleftrightarrow>
     tk_Status r = ''ASSIGNED'' \<and> tk_AssignedAgentID r = Some a \<and> tk_Deadline r = Some dl"
  by (auto simp: lifecycle_of_def task_ok_def)

text \<open>
  The effect of one guarded \<open>UPDATE\<close> of the row \<open>i\<close> on the life cycles, and its row count.
\<close>

lemma guarded_update:
  assumes "wf_db d" and "\<And>r. tk_ID (f r) = tk_ID r"
  shows "task_cycle (d\<lparr>tasks := sql_update (\<lambda>r. tk_ID r = i \<and> Q r) f (tasks d)\<rparr>) j =
      (if j = i then map_option (\<lambda>r. lifecycle_of (if Q r then f r else r)) (row_at tk_ID (tasks d) i)
       else task_cycle d j)"
    and "rows_affected (\<lambda>r. tk_ID r = i \<and> Q r) (tasks d) =
      (case row_at tk_ID (tasks d) i of None \<Rightarrow> 0 | Some r \<Rightarrow> if Q r then 1 else 0)"
proof -
  note upd = key_update.row_at_update_key [OF key_update.intro, of tk_ID f, OF assms(2)]
  show "task_cycle (d\<lparr>tasks := sql_update (\<lambda>r. tk_ID r = i \<and> Q r) f (tasks d)\<rparr>) j =
      (if j = i then map_option (\<lambda>r. lifecycle_of (if Q r then f r else r)) (row_at tk_ID (tasks d) i)
       else task_cycle d j)"
    by (simp add: task_cycle_def upd option.map_comp o_def)
  show "rows_affected (\<lambda>r. tk_ID r = i \<and> Q r) (tasks d) =
      (case row_at tk_ID (tasks d) i of None \<Rightarrow> 0 | Some r \<Rightarrow> if Q r then 1 else 0)"
    using assms(1) by (intro rows_affected_key) (simp add: wf_db_def wf_tasks_def)
qed

lemma refines_update:
  assumes wf: "wf_db (db w)" and calm: "calm E" and key: "\<And>now r. tk_ID (upd now r) = tk_ID r"
    and some: "\<And>r m. row_at tk_ID (tasks (db w)) i = Some r \<Longrightarrow> Q r \<Longrightarrow>
      spec = Some ((task_cycle (db w))(i \<mapsto> lifecycle_of (upd (clock E (tick w)) r)))"
    and none: "\<And>r. row_at tk_ID (tasks (db w)) i = Some r \<Longrightarrow> \<not> Q r \<Longrightarrow> spec = None"
      "row_at tk_ID (tasks (db w)) i = None \<Longrightarrow> spec = None"
  shows "refines spec err (db w) (require_rows err (exec_tasks E (\<lambda>r. tk_ID r = i \<and> Q r) upd w))"
proof -
  note upd = guarded_update [OF wf, of "upd (clock E (tick w))" i Q, OF key]
  let ?d = "(db w)\<lparr>tasks := sql_update (\<lambda>r. tk_ID r = i \<and> Q r) (upd (clock E (tick w))) (tasks (db w))\<rparr>"
  show ?thesis
  proof (cases "row_at tk_ID (tasks (db w)) i")
    case None
    then have "task_cycle ?d = task_cycle (db w)"
      by (intro ext) (simp add: upd task_cycle_def [of "db w"])
    with None none(2) upd(2) show ?thesis
      by (simp add: refines_def require_rows_def exec_tasks_calm [OF calm])
  next
    case (Some r)
    then have "task_cycle ?d = (if Q r then (task_cycle (db w))(i \<mapsto> lifecycle_of (upd (clock E (tick w)) r))
        else task_cycle (db w))"
      by (intro ext) (simp add: upd task_cycle_def [of "db w"])
    with some [OF Some] none(1) [OF Some] upd(2) Some show ?thesis
      by (cases "Q r") (simp_all add: refines_def require_rows_def exec_tasks_calm [OF calm])
  qed
qed

lemma wrap_err_calm: "calm E \<Longrightarrow> wrap_err m (exec_tasks E P upd w) = exec_tasks E P upd w"
  by (simp add: exec_tasks_calm wrap_err_def)

lemma claim_spec:
  assumes "calm E" and "wf_db (db w)"
  shows "refines (spec_claim i a (timestamptz E dl) (task_cycle (db w))) ErrTaskNotClaimable (db w) (ClaimTask E i a dl w)"
  unfolding ClaimTask_def wrap_err_calm [OF assms(1)]
  using wf_task_row [OF assms(2), of i]
  by (intro refines_update assms) (auto simp: spec_claim_def task_cycle_def lifecycle_cases row_defs lifecycle_of_def)

text \<open>
  C13. Claiming a task implements the abstract claim: it succeeds exactly for a pending task, which
  is then assigned to the claiming agent with the deadline (to the precision of the column); for any other task, or none, it
  reports that the task is not claimable, and nothing changes.
\<close>

theorem claim_refines:
  assumes "calm E" and "wf_db (db w)"
  shows "refines (spec_claim i a (timestamptz E dl) (task_cycle (db w))) ErrTaskNotClaimable (db w) (ClaimTask E i a dl w)"
  using assms by (rule claim_spec)

theorem claim_refines_witness:
  "fst (ClaimTask calm_env 9 ''alice'' 50 example_world) = Inr () \<and>
   task_cycle (db (snd (ClaimTask calm_env 9 ''alice'' 50 example_world))) 9 = Some (Assigned ''alice'' 50)"
proof -
  have "wf_db (db example_world)" and "task_cycle (db example_world) 9 = Some Pending"
    using example_wf by (simp_all add: example_defs task_cycle_def lifecycle_of_def)
  then show ?thesis
    using claim_refines [OF calm_env_calm, of example_world 9 "''alice''" 50]
    by (simp add: refines_def spec_claim_def)
qed

lemma release_spec:
  assumes "calm E" and "wf_db (db w)"
  shows "refines (spec_release i a (task_cycle (db w)))
    (ErrorText (''task not found or not assigned to agent '' @ a)) (db w) (ReleaseTask E i a w)"
  unfolding ReleaseTask_def wrap_err_calm [OF assms(1)]
  using wf_task_row [OF assms(2), of i]
  by (intro refines_update assms) (auto simp: spec_release_def task_cycle_def lifecycle_cases row_defs
      lifecycle_of_def split: lifecycle.splits if_splits, auto simp: task_ok_def)

text \<open>
  Releasing a task implements the abstract release: only the agent the task is assigned to can
  release it, and the task is pending again, without agent and deadline.
\<close>

theorem release_refines:
  assumes "calm E" and "wf_db (db w)"
  shows "refines (spec_release i a (task_cycle (db w)))
    (ErrorText (''task not found or not assigned to agent '' @ a)) (db w) (ReleaseTask E i a w)"
  using assms by (rule release_spec)

definition assigned_world :: world where
  "assigned_world = \<lparr>db = example_db\<lparr>tasks := [assigned_row ''alice'' 50 1 example_task]\<rparr>,
     tick = 200, broker = []\<rparr>"

lemma assigned_wf: "wf_db (db assigned_world)"
  by (simp add: assigned_world_def wf_db_def wf_defs example_defs unique_key_def instance_ids_def task_ok_def
      history_key_def version_key_def row_defs)

lemma assigned_cycle: "task_cycle (db assigned_world) 9 = Some (Assigned ''alice'' 50)"
  by (simp add: assigned_world_def example_defs task_cycle_def lifecycle_of_def row_defs)

theorem release_refines_witness:
  "fst (ReleaseTask calm_env 9 ''bob'' assigned_world) \<noteq> Inr () \<and>
   task_cycle (db (snd (ReleaseTask calm_env 9 ''alice'' assigned_world))) 9 = Some Pending"
  using release_refines [OF calm_env_calm assigned_wf, of 9 "''bob''"]
    release_refines [OF calm_env_calm assigned_wf, of 9 "''alice''"]
  by (simp add: refines_def spec_release_def assigned_cycle)

lemma task_ops_keep_wf:
  "calm E \<Longrightarrow> wf_db (db w) \<Longrightarrow> wf_db (db (snd (ClaimTask E i a dl w)))"
  "calm E \<Longrightarrow> wf_db (db w) \<Longrightarrow> wf_db (db (snd (ReleaseTask E i a w)))"
  using wf.evolves_keeps [OF task_updates_evolve(2) [OF surjective_pairing evolves.stays] calm_rely]
    wf.evolves_keeps [OF task_updates_evolve(3) [OF surjective_pairing evolves.stays] calm_rely] by blast+

interpretation pool: task_pool "\<lambda>w. calm E \<and> wf_db (db w)" "\<lambda>w. task_cycle (db w)" "timestamptz E"
  "ClaimTask E" "ReleaseTask E" for E
proof unfold_locales
  fix w i a dl m
  assume ok: "calm E \<and> wf_db (db w)"
  show "calm E \<and> wf_db (db (snd (ClaimTask E i a dl w)))" using ok task_ops_keep_wf by blast
  note claim = claim_spec [of E w i a dl] and release = release_spec [of E w i a]
  show "fst (ClaimTask E i a dl w) = Inr () \<and> task_cycle (db (snd (ClaimTask E i a dl w))) = m"
    if "spec_claim i a (timestamptz E dl) (task_cycle (db w)) = Some m" using ok claim that by (simp add: refines_def)
  show "fst (ClaimTask E i a dl w) \<noteq> Inr () \<and> task_cycle (db (snd (ClaimTask E i a dl w))) = task_cycle (db w)"
    if "spec_claim i a (timestamptz E dl) (task_cycle (db w)) = None" using ok claim that by (simp add: refines_def)
  show "fst (ReleaseTask E i a w) = Inr () \<and> task_cycle (db (snd (ReleaseTask E i a w))) = m"
    if "spec_release i a (task_cycle (db w)) = Some m" using ok release that by (simp add: refines_def)
  show "fst (ReleaseTask E i a w) \<noteq> Inr () \<and> task_cycle (db (snd (ReleaseTask E i a w))) = task_cycle (db w)"
    if "spec_release i a (task_cycle (db w)) = None" using ok release that by (simp add: refines_def)
qed

text \<open>
  C28. Claim and release are inverse: after a successful claim no other agent can claim the task or
  release it, and its holder's release succeeds and leaves every task's life cycle as it was
  before the claim.
\<close>

theorem claim_release_round_trip:
  assumes "calm E" and "wf_db (db w)" and "fst (ClaimTask E i a dl w) = Inr ()"
  shows "fst (ReleaseTask E i a (snd (ClaimTask E i a dl w))) = Inr () \<and>
    task_cycle (db (snd (ReleaseTask E i a (snd (ClaimTask E i a dl w))))) = task_cycle (db w) \<and>
    fst (ClaimTask E i b dl' (snd (ClaimTask E i a dl w))) \<noteq> Inr () \<and>
    (b \<noteq> a \<longrightarrow> fst (ReleaseTask E i b (snd (ClaimTask E i a dl w))) \<noteq> Inr ())"
  using pool.claim_release [of E w i a dl] pool.claim_twice [of E w i a dl b dl']
    pool.release_by_other [of E w i a dl b] assms by blast

theorem claim_release_round_trip_witness:
  "task_cycle (db (snd (ReleaseTask calm_env 9 ''alice'' (snd (ClaimTask calm_env 9 ''alice'' 50 example_world))))) =
   task_cycle example_db"
proof -
  have "fst (ClaimTask calm_env 9 ''alice'' 50 example_world) = Inr ()"
    by (simp add: ClaimTask_def require_rows_def wrap_err_def exec_tasks_calm example_defs)
  from claim_release_round_trip [OF calm_env_calm _ this] example_wf show ?thesis
    by (simp add: example_world_def)
qed

text \<open>
  Extending the lease of a task implements the abstract operation: the deadline of an assigned
  task is replaced, its agent stays; any other task is refused and nothing changes.
\<close>

theorem extend_refines:
  assumes "calm E" and "wf_db (db w)"
  shows "refines (spec_extend i (timestamptz E dl) (task_cycle (db w)))
    (ErrorText ''task not found or not in ASSIGNED state'') (db w) (ExtendTaskDeadline E i dl w)"
  unfolding ExtendTaskDeadline_def
  using wf_task_row [OF assms(2), of i]
  by (intro refines_update assms) (auto simp: spec_extend_def task_cycle_def lifecycle_cases row_defs
      lifecycle_of_def split: lifecycle.splits if_splits)

theorem extend_refines_witness:
  "task_cycle (db (snd (ExtendTaskDeadline calm_env 9 99 assigned_world))) 9 = Some (Assigned ''alice'' 99)"
  using extend_refines [OF calm_env_calm assigned_wf, of 9 99]
  by (simp add: refines_def spec_extend_def assigned_cycle)

lemma ignore_rows_calm:
  "calm E \<Longrightarrow> ignore_rows (exec_tasks E P upd w) =
     (Inr (), next_tick (w\<lparr>db := (db w)\<lparr>tasks := sql_update P (upd (clock E (tick w))) (tasks (db w))\<rparr>\<rparr>))"
  by (simp add: exec_tasks_calm ignore_rows_def)

lemma finish_cycle:
  assumes "wf_db d" and "\<And>r. tk_ID (f r) = tk_ID r" and "\<And>r. lifecycle_of (f r) = c"
  shows "task_cycle (d\<lparr>tasks := sql_update (\<lambda>r. tk_ID r = i) f (tasks d)\<rparr>) = spec_finish c i (task_cycle d)"
proof (rule ext)
  fix j
  show "task_cycle (d\<lparr>tasks := sql_update (\<lambda>r. tk_ID r = i) f (tasks d)\<rparr>) j = spec_finish c i (task_cycle d) j"
    using guarded_update(1) [OF assms(1), of f i "\<lambda>_. True" j, OF assms(2)] assms(3)
    by (cases "row_at tk_ID (tasks d) i") (auto simp: spec_finish_def task_cycle_def [of d])
qed

text \<open>
  Completing a task with evidence and failing it are unconditional: they report success and
  finish the task whatever its state is, pending, assigned to somebody else, or finished
  already; an unknown identifier changes nothing and is reported as success too.
\<close>

theorem finish_refines:
  assumes "calm E" and "wf_db (db w)" and "marshalable (json_of_map out)" and "marshalable (json_of_map ev)"
  shows "fst (CompleteTaskWithEvidence E i out ev w) = Inr () \<and>
    task_cycle (db (snd (CompleteTaskWithEvidence E i out ev w))) = spec_finish Completed i (task_cycle (db w)) \<and>
    fst (store_FailTask E i details w) = Inr () \<and>
    task_cycle (db (snd (store_FailTask E i details w))) = spec_finish Failed i (task_cycle (db w))"
  using assms finish_cycle [OF assms(2)]
  by (simp add: CompleteTaskWithEvidence_def store_FailTask_def ignore_rows_calm row_defs lifecycle_of_def)

theorem finish_refines_witness:
  "task_cycle (db (snd (CompleteTaskWithEvidence calm_env 9 None None assigned_world))) 9 = Some Completed"
  using finish_refines [OF calm_env_calm assigned_wf, of None None 9]
  by (simp add: spec_finish_def assigned_cycle)

text \<open>
  Reassigning a task looks at the agent only, not at the status: a task that its agent has
  completed goes back to the pool and becomes pending again.
\<close>

theorem reassign_reopens:
  assumes "calm E" and "wf_db (db w)" and "row_at tk_ID (tasks (db w)) i = Some r"
    and "tk_Status r = ''COMPLETED''" and "tk_AssignedAgentID r = Some a"
  shows "fst (ReassignTask E i a [] w) = Inr () \<and>
    task_cycle (db (snd (ReassignTask E i a [] w))) i = Some Pending"
  using guarded_update [OF assms(2), of "released_row (clock E (tick w))" i "\<lambda>r. tk_AssignedAgentID r = Some a"]
    assms(3-5)
  by (simp add: ReassignTask_def require_rows_def exec_tasks_calm [OF assms(1)] row_defs lifecycle_of_def)

definition completed_world :: world where
  "completed_world = \<lparr>db = example_db\<lparr>tasks := [completed_row JNull 2 (assigned_row ''alice'' 50 1 example_task)]\<rparr>,
     tick = 300, broker = []\<rparr>"

lemma completed_wf: "wf_db (db completed_world)"
  by (simp add: completed_world_def wf_db_def wf_defs example_defs unique_key_def instance_ids_def task_ok_def
      history_key_def version_key_def row_defs)

theorem reassign_reopens_witness:
  "task_cycle (db completed_world) 9 = Some Completed \<and>
   task_cycle (db (snd (ReassignTask calm_env 9 ''alice'' [] completed_world))) 9 = Some Pending"
  using reassign_reopens [OF calm_env_calm completed_wf, of 9 _ "''alice''"]
  by (simp add: completed_world_def example_defs row_defs task_cycle_def lifecycle_of_def)

section \<open>Claims under interference\<close>

lemma exec_tasks_Inr:
  assumes "exec_tasks E P upd w = (Inr n, w')"
  shows "n = rows_affected P (tasks (others E (tick w) (db w))) \<and>
    db w' = (others E (tick w) (db w))\<lparr>tasks := sql_update P (upd (clock E (tick w)))
      (tasks (others E (tick w) (db w)))\<rparr>"
  using assms by (auto simp: exec_tasks_def db_exec_def Let_def split: if_splits)

lemma ClaimTask_Inr:
  assumes "ClaimTask E i a dl w = (Inr u, w')"
  obtains d where "d = others E (tick w) (db w)"
    and "0 < rows_affected (\<lambda>r. tk_ID r = i \<and> tk_Status r = ''PENDING'') (tasks d)"
    and "db w' = d\<lparr>tasks := sql_update (\<lambda>r. tk_ID r = i \<and> tk_Status r = ''PENDING'')
          (assigned_row a (timestamptz E dl) (clock E (tick w))) (tasks d)\<rparr>"
proof -
  obtain n where "exec_tasks E (\<lambda>r. tk_ID r = i \<and> tk_Status r = ''PENDING'') (assigned_row a (timestamptz E dl)) w = (Inr n, w')"
    and "n \<noteq> 0"
    using assms by (auto simp: ClaimTask_def require_rows_def wrap_err_def split: prod.splits sum.splits if_splits)
  then show thesis using exec_tasks_Inr that by blast
qed

lemma rows_pending:
  "wf_db d \<Longrightarrow> 0 < rows_affected (\<lambda>r. tk_ID r = i \<and> tk_Status r = ''PENDING'') (tasks d) \<longleftrightarrow>
   task_cycle d i = Some Pending"
  using guarded_update(2) [of d "\<lambda>r. r" i "\<lambda>r. tk_Status r = ''PENDING''"] wf_task_row(1) [of d i]
  by (auto simp: task_cycle_def lifecycle_cases split: option.splits)

text \<open>
  C12. A claim is exclusive under failures and interference: it succeeds only on a task that is
  pending at its statement, and the task is then assigned to the claimer; as long as the
  other clients do not put the task back into the pool, no second claim of it succeeds.
\<close>

theorem claim_exclusive:
  assumes "wf_db (db w)" and "rely E wf_db" and "ClaimTask E i a dl w = (Inr (), w1)"
    and "rely E (\<lambda>d. wf_db d \<and> task_cycle d i \<noteq> Some Pending)"
    and "wf_db (db w2)" and "task_cycle (db w2) i = task_cycle (db w1) i"
  shows "task_cycle (others E (tick w) (db w)) i = Some Pending \<and>
    task_cycle (db w1) i = Some (Assigned a (timestamptz E dl)) \<and> fst (ClaimTask E i b dl' w2) \<noteq> Inr ()"
  using assms(3)
proof (rule ClaimTask_Inr)
  fix d
  assume d: "d = others E (tick w) (db w)"
    and hit: "0 < rows_affected (\<lambda>r. tk_ID r = i \<and> tk_Status r = ''PENDING'') (tasks d)"
    and w1: "db w1 = d\<lparr>tasks := sql_update (\<lambda>r. tk_ID r = i \<and> tk_Status r = ''PENDING'')
          (assigned_row a (timestamptz E dl) (clock E (tick w))) (tasks d)\<rparr>"
  have wf: "wf_db d" using assms(1,2) d by (simp add: rely_def)
  with hit have pending: "task_cycle d i = Some Pending" by (simp add: rows_pending)
  then obtain r where "row_at tk_ID (tasks d) i = Some r" "tk_Status r = ''PENDING''"
    using wf_task_row(1) [OF wf] by (auto simp: task_cycle_def lifecycle_cases)
  then have assigned: "task_cycle (db w1) i = Some (Assigned a (timestamptz E dl))"
    using guarded_update(1) [OF wf, of "assigned_row a (timestamptz E dl) (clock E (tick w))" i "\<lambda>r. tk_Status r = ''PENDING''" i]
    by (simp add: w1 row_defs lifecycle_of_def)
  have "fst (ClaimTask E i b dl' w2) \<noteq> Inr ()"
  proof
    assume "fst (ClaimTask E i b dl' w2) = Inr ()"
    then obtain w3 where "ClaimTask E i b dl' w2 = (Inr (), w3)" by (metis prod.collapse)
    then obtain d2 where d2: "d2 = others E (tick w2) (db w2)"
      and hit2: "0 < rows_affected (\<lambda>r. tk_ID r = i \<and> tk_Status r = ''PENDING'') (tasks d2)"
      by (rule ClaimTask_Inr)
    have "wf_db d2 \<and> task_cycle d2 i \<noteq> Some Pending"
      using assms(4-6) assigned d2 by (simp add: rely_def)
    with hit2 show False by (simp add: rows_pending)
  qed
  with pending assigned d show ?thesis by simp
qed

theorem claim_exclusive_witness:
  "fst (ClaimTask calm_env 9 ''bob'' 60 (snd (ClaimTask calm_env 9 ''alice'' 50 example_world))) \<noteq> Inr ()"
proof -
  let ?w1 = "snd (ClaimTask calm_env 9 ''alice'' 50 example_world)"
  have wf0: "wf_db (db example_world)" using example_wf by (simp add: example_world_def)
  have c: "ClaimTask calm_env 9 ''alice'' 50 example_world = (Inr (), ?w1)"
    by (simp add: ClaimTask_def require_rows_def wrap_err_def exec_tasks_calm example_defs)
  have ev: "evolves True calm_env (db example_world) (db ?w1)" by (rule task_updates_evolve(2) [OF c evolves.stays])
  have wf1: "wf_db (db ?w1)" by (rule wf.evolves_keeps [OF ev calm_env_rely wf0])
  show ?thesis using claim_exclusive [OF wf0 calm_env_rely c calm_env_rely wf1 refl] by simp
qed

text \<open>
  \<open>AssignTask\<close> does not look at the number of rows it changed: for a task that is no longer
  pending it reports success and changes nothing. (\<open>ClaimPendingTask\<close> relies on it.)
\<close>

theorem assign_ignores_lost_race:
  assumes "calm E" and "wf_db (db w)" and "task_cycle (db w) i \<noteq> Some Pending"
  shows "fst (AssignTask E i a dl w) = Inr () \<and> db (snd (AssignTask E i a dl w)) = db w"
proof -
  have "\<not> (tk_ID r = i \<and> tk_Status r = ''PENDING'')" if "r \<in> set (tasks (db w))" for r
    using rows_pending [OF assms(2), of i] assms(3) that
      rows_affected_zero_iff [of "\<lambda>r. tk_ID r = i \<and> tk_Status r = ''PENDING''" "tasks (db w)"] by auto
  then show ?thesis
    by (simp add: AssignTask_def ignore_rows_calm [OF assms(1)] sql_update_none)
qed

theorem assign_ignores_lost_race_witness:
  "fst (AssignTask calm_env 9 ''bob'' 60 assigned_world) = Inr () \<and>
   task_cycle (db (snd (AssignTask calm_env 9 ''bob'' 60 assigned_world))) 9 = Some (Assigned ''alice'' 50)"
  using assign_ignores_lost_race [OF calm_env_calm assigned_wf, of 9 "''bob''" 60]
  by (simp add: assigned_cycle)

section \<open>Creating and reading tasks\<close>

text \<open>
  C30. A task that is created is read back as it was given, with the statement's clock in
  \<open>created_at\<close> and \<open>updated_at\<close>, with the precision of the column in \<open>deadline\<close>, and without output, evidence and agent: the input goes through
  JSON unchanged as long as its numbers are doubles.
\<close>

theorem created_task_read_back:
  assumes "calm E" and "fst (CreateTask E t w) = Inr ()" and "double_exact (json_of_map (tk_Input t))"
  shows "fst (GetTask E (tk_ID t) (snd (CreateTask E t w))) =
    Inr (t\<lparr>tk_Output := None, tk_Evidence := None, tk_AssignedAgentID := None,
           tk_Deadline := map_option (timestamptz E) (tk_Deadline t),
           tk_CreatedAt := clock E (tick w), tk_UpdatedAt := clock E (tick w)\<rparr>)"
proof -
  obtain caps roles where opts: "tk_Capabilities t = Some caps" "tk_Roles t = Some roles"
    and m: "marshalable (json_of_map (tk_Input t))"
    using assms(2) by (auto simp: CreateTask_def db_exec_calm [OF assms(1)] json_Marshal_def
        split: option.splits if_splits)
  have un: "json_Unmarshal (json_of_map (tk_Input t)) = Inr (tk_Input t)"
    using assms(3) m by (intro json_roundtrip) simp_all
  define r :: task_row where "r = \<lparr>tk_ID = tk_ID t, tk_WorkflowInstanceID = tk_WorkflowInstanceID t,
     tk_StateName = tk_StateName t, tk_ActivityName = tk_ActivityName t,
     tk_Capabilities = caps, tk_Roles = roles, tk_Input = json_of_map (tk_Input t),
     tk_Output = None, tk_Evidence = None, tk_Status = tk_Status t,
     tk_AssignedAgentID = None, tk_Deadline = map_option (timestamptz E) (tk_Deadline t),
     tk_ParentTaskID = tk_ParentTaskID t, tk_CreatedAt = clock E (tick w),
     tk_UpdatedAt = clock E (tick w)\<rparr>"
  have fresh: "tk_ID t \<notin> tk_ID ` set (tasks (db w))"
    and dbw: "db (snd (CreateTask E t w)) = (db w)\<lparr>tasks := tasks (db w) @ [r]\<rparr>"
    using assms(2) opts m
    by (auto simp: CreateTask_def db_exec_calm [OF assms(1)] sql_insert_def r_def
        split: option.splits if_splits)
  have "filter (\<lambda>r. tk_ID r = tk_ID t) (tasks (db w)) = []"
    using fresh by (auto simp: filter_empty_conv) (metis imageI)
  then show ?thesis
    using opts by (simp add: GetTask_def db_query_calm [OF assms(1)] db_rows_calm [OF assms(1)] dbw)
      (simp add: r_def scanTask_def un scan_optional_def)
qed

definition sample_task :: task where
  "sample_task = \<lparr>tk_ID = 11, tk_WorkflowInstanceID = 7, tk_StateName = ''one'', tk_ActivityName = ''greet'',
     tk_Capabilities = Some [], tk_Roles = Some [], tk_Input = Some [(''who'', JStr ''you'')],
     tk_Output = None, tk_Evidence = None, tk_Status = ''PENDING'', tk_AssignedAgentID = None,
     tk_Deadline = None, tk_ParentTaskID = None, tk_CreatedAt = 0, tk_UpdatedAt = 0\<rparr>"

theorem created_task_read_back_witness:
  "fst (GetTask calm_env 11 (snd (CreateTask calm_env sample_task example_world))) =
   Inr (sample_task\<lparr>tk_CreatedAt := 100, tk_UpdatedAt := 100\<rparr>)"
proof -
  have "fst (CreateTask calm_env sample_task example_world) = Inr ()"
    by (simp add: CreateTask_def db_exec_calm sample_task_def example_defs sql_insert_def)
  from created_task_read_back [OF calm_env_calm this] show ?thesis
    by (simp add: sample_task_def example_defs)
qed

lemma scanTasks_Inr: "scanTasks rows = Inr ts \<Longrightarrow> map tk_ID ts = map tk_ID rows"
  unfolding scanTasks_def
  by (rule scan_rows_map) (auto simp: scanTask_def split: sum.splits)

text \<open>
  The pool is handed out oldest first: \<open>GetPendingTasks\<close> returns at most \<open>n\<close> tasks, each
  pending and, when capabilities are asked for, sharing one of them; they are the first of
  all such tasks in the order of creation.
\<close>

theorem pending_tasks_oldest_first:
  assumes "calm E" and "fst (GetPendingTasks E caps n w) = Inr ts"
  shows "\<exists>rows. map tk_ID ts = map tk_ID (take (nat n) rows) \<and>
    sorted (map tk_CreatedAt rows) \<and>
    mset rows = mset (filter (\<lambda>r. tk_Status r = ''PENDING'' \<and>
           (caps = [] \<or> (\<exists>c \<in> set (tk_Capabilities r). c \<in> set caps))) (tasks (db w))) \<and>
    length ts \<le> nat n"
proof -
  have "0 \<le> n" and scan: "scanTasks (take (nat n) (pending_rows caps (db w))) = Inr ts"
    using assms(2) by (auto simp: GetPendingTasks_def db_query_calm [OF assms(1)] db_rows_calm [OF assms(1)] limit_offset_def
        split: if_splits)
  have "(\<lambda>r. tk_Status r = ''PENDING'' \<and> (caps \<noteq> [] \<longrightarrow> overlaps (tk_Capabilities r) caps)) =
      (\<lambda>r :: task_row. tk_Status r = ''PENDING'' \<and> (caps = [] \<or> (\<exists>c \<in> set (tk_Capabilities r). c \<in> set caps)))"
    by (auto simp: overlaps_def fun_eq_iff)
  then have "mset (pending_rows caps (db w)) = mset (filter (\<lambda>r. tk_Status r = ''PENDING'' \<and>
           (caps = [] \<or> (\<exists>c \<in> set (tk_Capabilities r). c \<in> set caps))) (tasks (db w)))"
    by (simp add: pending_rows_def mset_order_by)
  moreover have "sorted (map tk_CreatedAt (pending_rows caps (db w)))"
    by (simp add: pending_rows_def sorted_order_by_asc)
  moreover have "length ts \<le> nat n"
    using scanTasks_Inr [OF scan] by (metis length_map length_take min.cobounded2)
  ultimately show ?thesis using scanTasks_Inr [OF scan] by blast
qed

theorem pending_tasks_oldest_first_witness:
  "\<exists>t. fst (GetPendingTasks calm_env [''cap''] 1 example_world) = Inr [t] \<and> tk_ID t = 9"
proof -
  have "pending_rows [''cap''] example_db = [example_task]"
    by (simp add: pending_rows_def order_by_asc_def example_defs overlaps_def)
  moreover have "\<exists>t. scanTasks [example_task] = Inr [t]"
    by (simp add: scanTasks_def scanTask_def example_defs json_Unmarshal_def)
  ultimately obtain t where t: "fst (GetPendingTasks calm_env [''cap''] 1 example_world) = Inr [t]"
    by (auto simp: GetPendingTasks_def db_query_calm db_rows_calm limit_offset_def example_world_def)
  have "set (filter (\<lambda>r. tk_Status r = ''PENDING'' \<and>
      ([''cap''] = [] \<or> (\<exists>c \<in> set (tk_Capabilities r). c \<in> set [''cap'']))) (tasks (db example_world))) \<subseteq> {example_task}"
    by (auto simp: example_world_def example_db_def empty_database_def)
  with pending_tasks_oldest_first [OF calm_env_calm t] obtain rows
    where rows: "map tk_ID [t] = map tk_ID (take (nat 1) rows)" "set rows \<subseteq> {example_task}"
    by (metis (no_types, lifting) mset_eq_setD)
  then have "tk_ID t = 9"
    by (cases rows) (auto simp: example_task_def)
  with t show ?thesis by blast
qed

section \<open>Leases\<close>

lemma bit_uuid_byte:
  "bit (uuid_byte u i) n \<longleftrightarrow> n < 8 \<and> bit u (8 * (15 - i) + n)"
  by (auto simp: uuid_byte_def bit_simps)

lemma instanceIDToInt64_bit: "n < 64 \<Longrightarrow> bit (instanceIDToInt64 u) n \<longleftrightarrow> bit u (64 + n)"
proof -
  assume "n < 64"
  then consider "n < 8" | "8 \<le> n" "n < 16" | "16 \<le> n" "n < 24" | "24 \<le> n" "n < 32"
   | "32 \<le> n" "n < 40" | "40 \<le> n" "n < 48" | "48 \<le> n" "n < 56" | "56 \<le> n" "n < 64"
    by linarith
  then show ?thesis
    by cases (simp_all add: instanceIDToInt64_def upt_rec bit_simps bit_uuid_byte,
        (cases "bit u (64 + n)"; simp; presburger)+)
qed

text \<open>
  C40. The advisory lock key of an instance is the upper half of its UUID: two instances share their
  key exactly when their first eight bytes agree, whatever the other eight are.
\<close>

theorem lease_key_upper_half:
  "instanceIDToInt64 u = ucast (drop_bit 64 u) \<and>
   (instanceIDToInt64 u = instanceIDToInt64 u' \<longleftrightarrow> drop_bit 64 u = drop_bit 64 u')"
proof -
  have key: "instanceIDToInt64 u = ucast (drop_bit 64 u)" for u
    by (rule bit_word_eqI) (simp add: instanceIDToInt64_bit bit_simps)
  have "drop_bit 64 u = drop_bit 64 u'" if "(ucast (drop_bit 64 u) :: 64 word) = ucast (drop_bit 64 u')"
  proof (rule bit_word_eqI)
    fix n assume "n < LENGTH(128)"
    show "bit (drop_bit 64 u) n = bit (drop_bit 64 u') n"
    proof (cases "n < 64")
      case True
      with arg_cong [OF that, of "\<lambda>x. bit x n"] show ?thesis by (simp add: bit_simps)
    next
      case False
      then have "\<not> bit u (64 + n)" "\<not> bit u' (64 + n)" by (auto dest: bit_imp_le_length)
      then show ?thesis by (simp add: bit_simps)
    qed
  qed
  then show ?thesis by (auto simp: key)
qed

text \<open>
  The lease is exclusive between sessions: while one session of the database holds the key of an
  instance, a session that tries to take it is told no and nothing changes; a free key, or
  one's own, is granted and then held.
\<close>

theorem lease_exclusive:
  assumes "calm E"
  shows "AcquireLease E iid owner dur w =
    (if \<exists>s. (instanceIDToInt64 iid, s) \<in> set (advisory_locks (db w)) \<and> s \<noteq> session E (tick w)
     then (Inr False, next_tick w)
     else (Inr True, next_tick (w\<lparr>db := (db w)\<lparr>advisory_locks :=
             (instanceIDToInt64 iid, session E (tick w)) # advisory_locks (db w)\<rparr>\<rparr>)))"
proof -
  have "(\<exists>(k', s') \<in> set (advisory_locks (db w)). k' = instanceIDToInt64 iid \<and> s' \<noteq> session E (tick w)) \<longleftrightarrow>
      (\<exists>s. (instanceIDToInt64 iid, s) \<in> set (advisory_locks (db w)) \<and> s \<noteq> session E (tick w))"
    by auto
  then show ?thesis
    by (simp add: AcquireLease_def db_exec_calm [OF assms] Let_def next_tick_def)
qed

theorem lease_exclusive_witness:
  "fst (AcquireLease calm_env 7 ''b'' 0 (snd (AcquireLease calm_env 7 ''a'' 0 example_world))) = Inr False"
  using lease_exclusive [OF calm_env_calm, of 7 "''a''" 0 example_world]
    lease_exclusive [OF calm_env_calm, of 7 "''b''" 0 "snd (AcquireLease calm_env 7 ''a'' 0 example_world)"]
  by (simp add: example_defs)

end
