(* ===== verification/Resume_Properties.thy ===== *)
theory Resume_Properties
  imports Advance_Properties Task_Properties
begin

text \<open>
  Properties of the submission of results and of timers: the effect reported to the agent is
  the effect of the goroutine that was started; a due timer fires once and moves its workflow.
\<close>

section \<open>What operations leave alone\<close>

text \<open>The rest of the world, which statements of the database do not touch.\<close>

lemma goroutines_frame: "world.more w' = world.more w \<Longrightarrow> goroutines w' = goroutines w"
  by (cases w; cases w') (auto simp: engine_world.defs)

lemma reg_cache_frame:
  fixes w w' :: "'z registry_world_scheme"
  shows "world.more w' = world.more w \<Longrightarrow> reg_cache w' = reg_cache w"
  by (cases w; cases w') (auto simp: registry_world.defs)

lemma db_query_more: "db_query E q w = (r, w') \<Longrightarrow> world.more w' = world.more w"
  using db_query_frame(3) [of E q w] by simp

lemma db_rows_more: "db_rows E q w = (r, w') \<Longrightarrow> world.more w' = world.more w"
  unfolding db_rows_def by (rule db_query_more)

lemma db_exec_more: "db_exec E q w = (r, w') \<Longrightarrow> world.more w' = world.more w"
  using db_exec_frame(3) [of E q w] by simp

lemma GetTask_more: "GetTask E i w = (r, w') \<Longrightarrow> world.more w' = world.more w"
  by (auto simp: GetTask_def split: prod.splits sum.splits list.splits dest!: db_query_more db_rows_more)

lemma CountPendingTasks_more: "CountPendingTasks E i w = (r, w') \<Longrightarrow> world.more w' = world.more w"
  unfolding CountPendingTasks_def by (rule db_query_more)

lemma LoadInstance_more: "LoadInstance E i w = (r, w') \<Longrightarrow> world.more w' = world.more w"
  by (auto simp: LoadInstance_def queryHistory_def Let_def split: prod.splits sum.splits dest!: db_query_more db_rows_more)

lemma exec_tasks_more: "world.more (snd (exec_tasks E P upd w)) = world.more w"
  unfolding exec_tasks_def by (rule db_exec_frame(3))

lemma CompleteTaskWithEvidence_more:
  "CompleteTaskWithEvidence E i o1 o2 w = (r, w') \<Longrightarrow> world.more w' = world.more w"
  by (auto simp: CompleteTaskWithEvidence_def split: sum.splits dest!: wrapper_snd intro: exec_tasks_more)

lemma UpdateWorkflowStatus_more: "world.more (snd (UpdateWorkflowStatus E i st w)) = world.more w"
  unfolding UpdateWorkflowStatus_def by (rule db_exec_frame(3))

lemma AppendEvents_more: "world.more (snd (AppendEvents E iid v evs w)) = world.more w"
  by (auto simp: AppendEvents_unfold split: prod.splits sum.splits if_splits
      dest!: db_exec_more insert_events_frame)

lemma next_tick_goroutines [simp]: "goroutines (next_tick w) = goroutines w"
  by (simp add: next_tick_def)

lemma reg_Store_goroutines: "reg_Store E def w = (r, w') \<Longrightarrow> goroutines w' = goroutines w"
  by (auto simp: reg_Store_def uuid_New_simp split: if_splits prod.splits sum.splits
      dest!: db_exec_more goroutines_frame)

lemma getFromFile_goroutines: "getFromFile E i w = (r, w') \<Longrightarrow> goroutines w' = goroutines w"
  by (auto simp: getFromFile_def Let_def reg_Store_goroutines [OF surjective_pairing] split: sum.splits)

lemma reg_load_goroutines: "reg_load E i w = (r, w') \<Longrightarrow> goroutines w' = goroutines w"
  by (auto simp: reg_load_def time_Now_simp split: prod.splits sum.splits if_splits
      dest!: db_query_more [THEN goroutines_frame] db_rows_more [THEN goroutines_frame] getFromFile_goroutines)

lemma reg_Get_goroutines: "reg_Get E i w = (r, w') \<Longrightarrow> goroutines w' = goroutines w"
  by (auto simp: reg_Get_def time_Now_simp Let_def split: option.splits if_splits dest!: reg_load_goroutines)

lemmas frames = GetTask_more [THEN goroutines_frame] CountPendingTasks_more [THEN goroutines_frame]
  LoadInstance_more [THEN goroutines_frame] CompleteTaskWithEvidence_more [THEN goroutines_frame]
  reg_Get_goroutines

section \<open>Submitting a result\<close>

lemma GetTask_calm:
  assumes "calm E"
  shows "GetTask E i w = (case row_at tk_ID (tasks (db w)) i of
      None \<Rightarrow> Inl ErrTaskNotFound | Some r \<Rightarrow> scanTask r, next_tick w)"
proof -
  have "find P rows = (case filter P rows of [] \<Rightarrow> None | r # _ \<Rightarrow> Some r)" for P and rows :: "task_row list"
    by (induction rows) simp_all
  then show ?thesis
    by (simp add: GetTask_def db_rows_calm [OF assms] row_at_def split: list.split)
qed

text \<open>After the task \<open>i\<close> is completed, the open tasks of an instance are the others that were open.\<close>

lemma open_tasks_completed:
  "open_tasks iid (d\<lparr>tasks := sql_update (\<lambda>r. tk_ID r = i) (evidenced_row out ev now) (tasks d)\<rparr>) =
   filter (\<lambda>r. tk_ID r \<noteq> i) (open_tasks iid d)"
proof -
  have "filter (\<lambda>r. tk_WorkflowInstanceID r = iid \<and> open_status (tk_Status r))
      (map (\<lambda>r. if tk_ID r = i then evidenced_row out ev now r else r) rows) =
    filter (\<lambda>r. tk_ID r \<noteq> i) (filter (\<lambda>r. tk_WorkflowInstanceID r = iid \<and> open_status (tk_Status r)) rows)" for rows
    by (induction rows) (auto simp: evidenced_row_def open_status_def)
  then show ?thesis by (simp add: open_tasks_def sql_update_def)
qed

lemma loads_tasks [simp]: "loads (d\<lparr>tasks := rows\<rparr>) iid inst evs = loads d iid inst evs"
  by (simp add: loads_def instance_at_def history_of_def)

text \<open>The state of the process in which \<open>SubmitTaskResult\<close> looks at the instance.\<close>

lemma submit_steps:
  assumes "calm E" and "row_at tk_ID (tasks (db w)) i = Some r"
    and "SubmitTaskResult E i result evidence w = (Inr effect, w')"
  obtains w2 where "db w2 = (db w)\<lparr>tasks := sql_update (\<lambda>r. tk_ID r = i)
        (evidenced_row (json_of_map result) (json_of_map evidence) (clock E (Suc (tick w)))) (tasks (db w))\<rparr>"
    and "tick w2 = tick w + 2" and "reg_cache w2 = reg_cache w" and "goroutines w2 = goroutines w"
    and "SubmitTaskResult E i result evidence w =
      (if open_tasks (tk_WorkflowInstanceID r) (db w2) \<noteq> []
       then (Inr EffectTasksPending, go (Job_resumeWorkflowAfterTask (tk_WorkflowInstanceID r)) (next_tick w2))
       else case LoadInstance E (tk_WorkflowInstanceID r) (next_tick w2) of
           (Inl e, w4) \<Rightarrow> (Inl e, w4)
         | (Inr (inst, evs), w4) \<Rightarrow>
             (case reg_Get E (wi_WorkflowDefinitionID inst) w4 of
                (Inl e, w5) \<Rightarrow> (Inl e, w5)
              | (Inr def, w5) \<Rightarrow>
                  (case findState def (wi_CurrentPhase inst) of
                     None \<Rightarrow> (Inr EffectFailed,
                       snd (UpdateWorkflowStatus E (tk_WorkflowInstanceID r) ''FAILED'' w5))
                   | Some st \<Rightarrow> (Inr (if End st then EffectCompleted else EffectAdvanced),
                       go (Job_advanceFromState inst evs st def) w5))))"
proof -
  obtain t where t: "GetTask E i w = (Inr t, next_tick w)" "tk_WorkflowInstanceID t = tk_WorkflowInstanceID r"
    using assms(2,3) by (auto simp: SubmitTaskResult_def GetTask_calm [OF assms(1)] scanTask_def split: sum.splits prod.splits)
  have m: "marshalable (json_of_map result)" "marshalable (json_of_map evidence)"
    using assms(3) t(1) by (auto simp: SubmitTaskResult_def CompleteTaskWithEvidence_def json_Marshal_def split: if_splits)
  let ?w2 = "next_tick ((next_tick w)\<lparr>db := (db w)\<lparr>tasks := sql_update (\<lambda>r. tk_ID r = i)
      (evidenced_row (json_of_map result) (json_of_map evidence) (clock E (Suc (tick w)))) (tasks (db w))\<rparr>\<rparr>)"
  have "CompleteTaskWithEvidence E i result evidence (next_tick w) = (Inr (), ?w2)"
    using m by (simp add: CompleteTaskWithEvidence_def json_Marshal_def ignore_rows_calm [OF assms(1)])
  with t(1) show thesis
    by (intro that [of ?w2, folded t(2)]) (simp_all add: SubmitTaskResult_def CountPendingTasks_def db_query_calm [OF assms(1)] next_tick_def)
qed

text \<open>
  C26. The effect \<open>SubmitTaskResult\<close> reports matches what it has started, in each case for the instance of
  the task and nothing else. Tasks pending, exactly when another task of the instance is open: one
  goroutine that looks at the instance again. Otherwise the state of the instance's phase in its
  definition decides: an end state reports completed and any other state advanced, with one goroutine
  that leaves this state, for the instance and the events as they are in the database; a phase that the
  definition does not have reports failed, starts no goroutine and leaves the instance \<open>FAILED\<close>.
\<close>

theorem submit_effect_matches_job:
  fixes w :: "'z engine_world_scheme"
  assumes "calm E" and "row_at tk_ID (tasks (db w)) i = Some r" and "iid = tk_WorkflowInstanceID r"
    and "instance_at iid (db w) = Some row"
    and "reg_cache w (wi_WorkflowDefinitionID row) = Some c" and "clock E (tick w + 5) < cd_expiresAt c"
    and "SubmitTaskResult E i result evidence w = (Inr effect, w')"
  shows "if \<exists>t \<in> set (open_tasks iid (db w)). tk_ID t \<noteq> i
    then effect = EffectTasksPending \<and> goroutines w' = goroutines w @ [Job_resumeWorkflowAfterTask iid]
    else case findState (cd_def c) (wi_CurrentPhase row) of
        None \<Rightarrow> effect = EffectFailed \<and> goroutines w' = goroutines w \<and> status_of iid (db w') = Some ''FAILED''
      | Some st \<Rightarrow> effect = (if End st then EffectCompleted else EffectAdvanced) \<and>
          (\<exists>inst evs. loads (db w) iid inst evs \<and>
             goroutines w' = goroutines w @ [Job_advanceFromState inst evs st (cd_def c)])"
proof -
  obtain w2 where w2: "db w2 = (db w)\<lparr>tasks := sql_update (\<lambda>r. tk_ID r = i)
        (evidenced_row (json_of_map result) (json_of_map evidence) (clock E (Suc (tick w)))) (tasks (db w))\<rparr>"
      "tick w2 = tick w + 2" "reg_cache w2 = reg_cache w" "goroutines w2 = goroutines w"
    and run: "SubmitTaskResult E i result evidence w =
      (if open_tasks iid (db w2) \<noteq> []
       then (Inr EffectTasksPending, go (Job_resumeWorkflowAfterTask iid) (next_tick w2))
       else case LoadInstance E iid (next_tick w2) of
           (Inl e, w4) \<Rightarrow> (Inl e, w4)
         | (Inr (inst, evs), w4) \<Rightarrow>
             (case reg_Get E (wi_WorkflowDefinitionID inst) w4 of
                (Inl e, w5) \<Rightarrow> (Inl e, w5)
              | (Inr def, w5) \<Rightarrow>
                  (case findState def (wi_CurrentPhase inst) of
                     None \<Rightarrow> (Inr EffectFailed, snd (UpdateWorkflowStatus E iid ''FAILED'' w5))
                   | Some st \<Rightarrow> (Inr (if End st then EffectCompleted else EffectAdvanced),
                       go (Job_advanceFromState inst evs st def) w5))))"
    unfolding assms(3) by (rule submit_steps [OF assms(1,2,7)])
  have open2: "open_tasks iid (db w2) = filter (\<lambda>t. tk_ID t \<noteq> i) (open_tasks iid (db w))"
    unfolding w2(1) by (rule open_tasks_completed)
  show ?thesis
  proof (cases "\<exists>t \<in> set (open_tasks iid (db w)). tk_ID t \<noteq> i")
    case True
    then have "open_tasks iid (db w2) \<noteq> []" by (auto simp: open2 filter_empty_conv)
    with True run assms(7) w2(4) show ?thesis by (auto simp: go_def next_tick_def)
  next
    case False
    then have none: "open_tasks iid (db w2) = []" by (auto simp: open2 filter_empty_conv)
    obtain inst evs w4 where load: "LoadInstance E iid (next_tick w2) = (Inr (inst, evs), w4)"
      using none run assms(7) by (auto split: prod.splits sum.splits)
    then have l: "loads (db w) iid inst evs" and w4: "w4 = next_tick (next_tick (next_tick w2))"
      using w2(1) by (simp_all add: LoadInstance_calm [OF assms(1)])
    have f: "wi_CurrentPhase inst = wi_CurrentPhase row" "wi_WorkflowDefinitionID inst = wi_WorkflowDefinitionID row"
      using l assms(4) by (auto simp: loads_def dest: scanInstance_fields)
    have "reg_cache w4 = reg_cache w" "tick w4 = tick w + 5" using w2(2,3) by (simp_all add: w4 next_tick_def)
    then have get: "reg_Get E (wi_WorkflowDefinitionID inst) w4 = (Inr (cd_def c), next_tick w4)"
      using assms(5,6) f(2) by (intro reg_Get_cached) simp_all
    have i4: "instance_at iid (db (next_tick w4)) = Some row" using assms(4) w2(1) by (simp add: w4 instance_at_def)
    have g4: "goroutines (next_tick w4) = goroutines w" using w2(4) by (simp add: w4)
    show ?thesis
    proof (cases "findState (cd_def c) (wi_CurrentPhase row)")
      case None
      with run none load get f(1) assms(7)
      have "effect = EffectFailed" "w' = snd (UpdateWorkflowStatus E iid ''FAILED'' (next_tick w4))" by simp_all
      with None False i4 g4 UpdateWorkflowStatus_more [of E iid "''FAILED''" "next_tick w4", THEN goroutines_frame]
      show ?thesis by (simp add: UpdateWorkflowStatus_calm [OF assms(1)] status_of_def instance_at_status row_defs)
    next
      case (Some st)
      with run none load get f(1) assms(7)
      have "effect = (if End st then EffectCompleted else EffectAdvanced)"
          "w' = go (Job_advanceFromState inst evs st (cd_def c)) (next_tick w4)" by simp_all
      with Some False l g4 show ?thesis by (auto simp: go_def)
    qed
  qed
qed

theorem submit_effect_matches_job_witness:
  "\<exists>w' inst evs. SubmitTaskResult calm_env 9 None None example_process = (Inr EffectAdvanced, w') \<and>
     loads example_db 7 inst evs \<and>
     goroutines w' = [Job_advanceFromState inst evs example_start example_definition]"
proof -
  let ?r = "SubmitTaskResult calm_env 9 None None example_process"
  have "fst ?r = Inr EffectAdvanced"
    by (simp add: SubmitTaskResult_def GetTask_def db_query_calm db_rows_calm CompleteTaskWithEvidence_def ignore_rows_calm
        CountPendingTasks_def open_tasks_def open_status_def LoadInstance_def queryHistory_def
        example_process_def example_defs scanTask_def scanInstance_def json_Unmarshal_def scan_optional_def
        row_defs reg_Get_def time_Now_def next_tick_def history_of_def order_by_asc_def scan_event_def
        first_row_def findState_def example_definition_def GetName_def example_start_def End_def)
  then have run: "?r = (Inr EffectAdvanced, snd ?r)" by (metis prod.collapse)
  have p: "db example_process = example_db" "tick example_process = 100" "goroutines example_process = []"
      "reg_cache example_process ''wf'' = Some \<lparr>cd_def = example_definition, cd_expiresAt = 1000\<rparr>"
    by (simp_all add: example_process_def)
  have e: "row_at tk_ID (tasks example_db) 9 = Some example_task" "tk_WorkflowInstanceID example_task = 7"
      "instance_at 7 example_db = Some example_instance" "wi_WorkflowDefinitionID example_instance = ''wf''"
      "wi_CurrentPhase example_instance = ''one''" "\<forall>t \<in> set (open_tasks 7 example_db). tk_ID t = 9"
      "findState example_definition ''one'' = Some example_start"
    by (simp_all add: example_defs instance_at_def open_tasks_def findState_def example_definition_def example_start_def GetName_def)
  show ?thesis
    using submit_effect_matches_job [OF calm_env_calm, of example_process 9 example_task 7 example_instance
        "\<lparr>cd_def = example_definition, cd_expiresAt = 1000\<rparr>", OF _ _ _ _ _ run] run e
    by (auto simp: p)
qed

text \<open>
  An advance that is reported as such may still fail the workflow: a state that neither ends nor
  names a transition has the effect \<open>EffectAdvanced\<close>, and its advance sets the status
  \<open>FAILED\<close> and stops.
\<close>

theorem dead_end_fails:
  assumes "calm E" and "\<not> End st" and "GetTransition st = []"
  shows "\<exists>w'. advanceFromState E inst evs st def w = Some (Inr (), w') \<and>
    status_of (wi_ID inst) (db w') = map_option (\<lambda>_. ''FAILED'') (status_of (wi_ID inst) (db w))"
  using assms
  by (cases "instance_at (wi_ID inst) (db w)")
    (simp_all add: advanceFromState_def advance_step_def UpdateWorkflowStatus_calm status_of_def
      instance_at_status row_defs)

theorem dead_end_fails_witness:
  "\<exists>w'. advanceFromState calm_env loaded_instance []
     (DelayState \<lparr>bs_Name = ''d'', bs_Type = ''delay'', bs_Transition = [], bs_EndFlag = False\<rparr> ''1s'')
     example_definition example_world = Some (Inr (), w') \<and> status_of 7 (db w') = Some ''FAILED''"
  using dead_end_fails [OF calm_env_calm, of "DelayState \<lparr>bs_Name = ''d'', bs_Type = ''delay'',
      bs_Transition = [], bs_EndFlag = False\<rparr> ''1s''" loaded_instance "[]" example_definition example_world]
  by (simp add: End_def GetTransition_def status_of_def instance_at_def example_defs loaded_instance_def)

section \<open>Timers\<close>

text \<open>Nothing that resumes a workflow touches the table of timers.\<close>

lemma LoadInstance_db: "calm E \<Longrightarrow> LoadInstance E i w = (r, w') \<Longrightarrow> db w' = db w"
  by (auto simp: LoadInstance_def queryHistory_def Let_def db_query_calm db_rows_calm split: prod.splits sum.splits)

lemma AppendEvents_timers:
  assumes "calm E" and "AppendEvents E i v evs w = (r, w')"
  shows "timers (db w') = timers (db w)"
  using AppendEvents_calm(3) [OF assms(1), of i v evs w] assms(2)
  by (simp add: append_effect_def split: if_splits)

lemma upsert_timers: "upsert_definition i def now d = Inr ((), d') \<Longrightarrow> timers d' = timers d"
  by (erule upsert_cases) simp

lemma reg_Store_timers: "calm E \<Longrightarrow> reg_Store E def w = (r, w') \<Longrightarrow> timers (db w') = timers (db w)"
  by (auto simp: reg_Store_def uuid_New_simp db_exec_calm split: if_splits prod.splits sum.splits
      dest!: upsert_timers)

lemma reg_load_timers: "calm E \<Longrightarrow> reg_load E i w = (r, w') \<Longrightarrow> timers (db w') = timers (db w)"
  by (auto simp: reg_load_def getFromFile_def Let_def time_Now_simp db_query_calm db_rows_calm
      reg_Store_timers [OF _ surjective_pairing] split: prod.splits sum.splits if_splits)

lemma reg_Get_timers: "calm E \<Longrightarrow> reg_Get E i w = (r, w') \<Longrightarrow> timers (db w') = timers (db w)"
  by (auto simp: reg_Get_def time_Now_simp Let_def split: option.splits if_splits dest!: reg_load_timers)

lemma ResumeAfterTimer_timers:
  assumes "calm E" and "ResumeAfterTimer E t w = (r, w')"
  shows "timers (db w') = timers (db w)"
  using assms(2)
  by (auto simp: ResumeAfterTimer_def Let_def time_Now_simp UpdateCurrentPhase_calm [OF assms(1)]
      split: prod.splits sum.splits dest!: LoadInstance_db [OF assms(1)] reg_Get_timers [OF assms(1)]
        AppendEvents_timers [OF assms(1)])

text \<open>
  A timer that is fired: what its instance does next. The instance must be readable and its definition
  in the cache of the process, up to a time that the clock has not reached at the interaction \<open>n\<close>.
\<close>

definition resumable :: "'n environment \<Rightarrow> 'z engine_world_scheme \<Rightarrow> nat \<Rightarrow> uuid \<Rightarrow> bool" where
  "resumable E w n iid \<longleftrightarrow> readable (db w) iid \<and>
     (\<exists>r c. instance_at iid (db w) = Some r \<and> reg_cache w (wi_WorkflowDefinitionID r) = Some c \<and>
        (\<forall>k < n. clock E k < cd_expiresAt c))"

definition cached_def :: "'z engine_world_scheme \<Rightarrow> uuid \<Rightarrow> WorkflowDefinition" where
  "cached_def w iid =
     (case instance_at iid (db w) of
        None \<Rightarrow> undefined
      | Some r \<Rightarrow> (case reg_cache w (wi_WorkflowDefinitionID r) of None \<Rightarrow> undefined | Some c \<Rightarrow> cd_def c))"

definition next_phase :: "WorkflowDefinition \<Rightarrow> gomap \<Rightarrow> string" where
  "next_phase def payload =
     (if string_entry payload ''next_state'' = [] then wd_Start def else string_entry payload ''next_state'')"

lemma ResumeAfterTimer_resumes:
  fixes w :: "'z engine_world_scheme"
  assumes "calm E" and "readable (db w) iid" and "iid = tm_WorkflowInstanceID t"
    and "instance_at iid (db w) = Some r" and "reg_cache w (wi_WorkflowDefinitionID r) = Some c"
    and "clock E (tick w + 2) < cd_expiresAt c"
  obtains w' where "ResumeAfterTimer E t w = (Inr (), w')"
    and "phase_of iid (db w') = Some (next_phase (cd_def c) (tm_Payload t))"
    and "goroutines w' = goroutines w @ [Job_executeWorkflow iid (cd_def c)]"
    and "\<forall>j. readable (db w) j \<longrightarrow> readable (db w') j"
    and "\<forall>j. map_option wi_WorkflowDefinitionID (instance_at j (db w')) =
      map_option wi_WorkflowDefinitionID (instance_at j (db w))"
    and "\<forall>j. j \<noteq> iid \<longrightarrow> phase_of j (db w') = phase_of j (db w)"
    and "reg_cache w' = reg_cache w" and "tick w' \<le> tick w + 9"
proof -
  let ?next = "next_phase (cd_def c) (tm_Payload t)"
  let ?w2 = "next_tick (next_tick w)"
  obtain inst evs where l: "loads (db w) iid inst evs" using readable_loads [OF assms(2)] by blast
  have load: "LoadInstance E (tm_WorkflowInstanceID t) w = (Inr (inst, evs), ?w2)"
    using l assms(3) by (simp add: LoadInstance_calm [OF assms(1)])
  have id: "wi_ID inst = iid" "wi_WorkflowDefinitionID inst = wi_WorkflowDefinitionID r"
    using l assms(4) loads_fields(1) [OF l] by (auto simp: loads_def dest: scanInstance_fields)
  have "reg_cache ?w2 = reg_cache w" by (simp add: next_tick_def)
  then have get: "reg_Get E (wi_WorkflowDefinitionID inst) ?w2 = (Inr (cd_def c), next_tick ?w2)"
    using assms(5,6) id(2) by (intro reg_Get_cached) simp_all
  let ?w3 = "next_tick (next_tick ?w2)"
  let ?ev = "engine_event (int (length evs) + 1) ''TimerFired''
    [(''timer_id'', JStr (uuid_String E (tm_ID t))), (''next_state'', JStr ?next)] (clock E (tick (next_tick ?w2)))"
  define w4 where "w4 = snd (AppendEvents E iid (wi_Version inst) [?ev] ?w3)"
  define w5 where "w5 = next_tick (w4\<lparr>db := (db w4)\<lparr>workflow_instances := sql_update (\<lambda>r. wi_ID r = iid)
      (phase_row ?next (clock E (tick w4))) (workflow_instances (db w4))\<rparr>\<rparr>)"
  have row: "map_option g (instance_at j (db w4)) = map_option g (instance_at j (db w))"
    if "\<And>r now. g (version_row now r) = g r" for g :: "json WorkflowInstance \<Rightarrow> 'x" and j
    using AppendEvents_calm_row [OF assms(1), of g ?w3 j iid "wi_Version inst" "[?ev]"] that by (simp add: w4_def)
  obtain r4 where r4: "instance_at iid (db w4) = Some r4"
    using row [of "\<lambda>_. ()" iid] assms(4) by auto
  have "world.more w4 = world.more ?w3"
    using AppendEvents_more [of E iid "wi_Version inst" "[?ev]" ?w3] by (simp add: w4_def)
  then have more: "goroutines w4 = goroutines w" "reg_cache w4 = reg_cache w"
    using goroutines_frame [of w4 ?w3] reg_cache_frame [of w4 ?w3] by (simp_all add: next_tick_def)
  show thesis
  proof (rule that [of "go (Job_executeWorkflow iid (cd_def c)) w5"])
    show "ResumeAfterTimer E t w = (Inr (), go (Job_executeWorkflow iid (cd_def c)) w5)"
      using load get by (auto simp: ResumeAfterTimer_def Let_def time_Now_simp next_phase_def [symmetric] id(1)
          w4_def UpdateCurrentPhase_calm [OF assms(1)] w5_def split: prod.splits)
    show "phase_of iid (db (go (Job_executeWorkflow iid (cd_def c)) w5)) = Some ?next"
      using r4 by (simp add: go_def w5_def phase_of_def instance_at_phase row_defs)
    show "goroutines (go (Job_executeWorkflow iid (cd_def c)) w5) = goroutines w @ [Job_executeWorkflow iid (cd_def c)]"
      using more(1) by (simp add: go_def w5_def)
    show "\<forall>j. readable (db w) j \<longrightarrow> readable (db (go (Job_executeWorkflow iid (cd_def c)) w5)) j"
      using readable_append [OF assms(1), of ?w3] readable_phase by (simp add: go_def w5_def w4_def)
    show "\<forall>j. map_option wi_WorkflowDefinitionID (instance_at j (db (go (Job_executeWorkflow iid (cd_def c)) w5))) =
        map_option wi_WorkflowDefinitionID (instance_at j (db w))"
      using row [of wi_WorkflowDefinitionID]
      by (auto simp: go_def w5_def instance_at_phase option.map_comp o_def row_defs)
    show "\<forall>j. j \<noteq> iid \<longrightarrow> phase_of j (db (go (Job_executeWorkflow iid (cd_def c)) w5)) = phase_of j (db w)"
      using row [of wi_CurrentPhase] by (simp add: go_def w5_def phase_of_def instance_at_phase row_defs)
    show "reg_cache (go (Job_executeWorkflow iid (cd_def c)) w5) = reg_cache w"
      using more(2) by (simp add: go_def w5_def next_tick_def)
    show "tick (go (Job_executeWorkflow iid (cd_def c)) w5) \<le> tick w + 9"
      using AppendEvents_tick [of ?w3 E iid "wi_Version inst" "[?ev]"] by (simp add: go_def w5_def w4_def)
  qed
qed

lemma resumable_later:
  assumes "resumable E w n iid" and "readable (db w) iid \<Longrightarrow> readable (db w') iid" and "reg_cache w' = reg_cache w"
    and "map_option wi_WorkflowDefinitionID (instance_at iid (db w')) =
      map_option wi_WorkflowDefinitionID (instance_at iid (db w))"
  shows "resumable E w' n iid"
  using assms by (auto simp: resumable_def map_option_eq_Some)

lemma cached_def_later:
  "reg_cache w' = reg_cache w \<Longrightarrow> map_option wi_WorkflowDefinitionID (instance_at iid (db w')) =
     map_option wi_WorkflowDefinitionID (instance_at iid (db w)) \<Longrightarrow> cached_def w' iid = cached_def w iid"
  by (cases "instance_at iid (db w)"; cases "instance_at iid (db w')") (auto simp: cached_def_def)

text \<open>Firing timers whose instances can be resumed: one goroutine each, and the phase the last one names.\<close>

lemma fire_timers_resume:
  fixes w :: "'z engine_world_scheme"
  assumes "calm E"
  shows "(\<And>t. t \<in> set ts \<Longrightarrow> resumable E w n (tm_WorkflowInstanceID t)) \<Longrightarrow> tick w + 10 * length ts \<le> n \<Longrightarrow>
    goroutines (fire_timers E ts w) = goroutines w @
      map (\<lambda>t. Job_executeWorkflow (tm_WorkflowInstanceID t) (cached_def w (tm_WorkflowInstanceID t))) ts \<and>
    phase_of iid (db (fire_timers E ts w)) =
      (case filter (\<lambda>t. tm_WorkflowInstanceID t = iid) ts of
         [] \<Rightarrow> phase_of iid (db w)
       | us \<Rightarrow> Some (next_phase (cached_def w iid) (tm_Payload (last us))))"
proof (induction ts arbitrary: w)
  case (Cons t ts)
  let ?i = "tm_WorkflowInstanceID t"
  obtain w1 :: "'z engine_world_scheme" where w1: "MarkTimerFired E (tm_ID t) w = (Inr (), w1)"
    and mark: "\<And>j. instance_at j (db w1) = instance_at j (db w)" "\<And>j. readable (db w1) j = readable (db w) j"
      "reg_cache w1 = reg_cache w" "goroutines w1 = goroutines w" "tick w1 = Suc (tick w)"
    by (simp add: MarkTimerFired_def db_exec_calm [OF assms] instance_at_def readable_def next_tick_def)
  obtain r c where rc: "readable (db w) ?i" "instance_at ?i (db w) = Some r"
      "reg_cache w (wi_WorkflowDefinitionID r) = Some c" "\<forall>k < n. clock E k < cd_expiresAt c"
    using Cons.prems(1) [of t] by (auto simp: resumable_def)
  have c: "cached_def w ?i = cd_def c" using rc by (simp add: cached_def_def)
  have p: "readable (db w1) ?i" "instance_at ?i (db w1) = Some r" "reg_cache w1 (wi_WorkflowDefinitionID r) = Some c"
      "clock E (tick w1 + 2) < cd_expiresAt c"
    using rc Cons.prems(2) by (simp_all add: mark)
  obtain w2 where w2: "ResumeAfterTimer E t w1 = (Inr (), w2)"
      "phase_of ?i (db w2) = Some (next_phase (cd_def c) (tm_Payload t))"
      "goroutines w2 = goroutines w1 @ [Job_executeWorkflow ?i (cd_def c)]"
      "\<forall>j. readable (db w1) j \<longrightarrow> readable (db w2) j"
      "\<forall>j. map_option wi_WorkflowDefinitionID (instance_at j (db w2)) =
        map_option wi_WorkflowDefinitionID (instance_at j (db w1))"
      "\<forall>j. j \<noteq> ?i \<longrightarrow> phase_of j (db w2) = phase_of j (db w1)"
      "reg_cache w2 = reg_cache w1" "tick w2 \<le> tick w1 + 9"
    by (rule ResumeAfterTimer_resumes [OF assms p(1) refl p(2-4)])
  have d: "map_option wi_WorkflowDefinitionID (instance_at j (db w2)) =
      map_option wi_WorkflowDefinitionID (instance_at j (db w))" for j by (rule trans [OF w2(5) [THEN spec]]) (simp add: mark(1))
  have r2: "resumable E w2 n (tm_WorkflowInstanceID u)" if "u \<in> set ts" for u
  proof (rule resumable_later)
    show "resumable E w n (tm_WorkflowInstanceID u)" using Cons.prems(1) that by simp
    show "readable (db w) (tm_WorkflowInstanceID u) \<Longrightarrow> readable (db w2) (tm_WorkflowInstanceID u)"
      using w2(4) mark(2) by blast
  qed (use d w2(7) mark(3) in simp_all)
  have c2: "cached_def w2 j = cached_def w j" for j
    by (rule cached_def_later) (use d w2(7) mark(3) in simp_all)
  have "tick w2 + 10 * length ts \<le> n" using w2(8) mark(5) Cons.prems(2) by simp
  note IH = Cons.IH [OF r2 this, unfolded c2]
  have run: "fire_timers E (t # ts) w = fire_timers E ts w2" using w1 w2(1) by simp
  have p2: "phase_of iid (db w2) = (if iid = ?i then Some (next_phase (cached_def w ?i) (tm_Payload t)) else phase_of iid (db w))"
    using w2(2,6) mark(1) c by (auto simp: phase_of_def)
  show ?case using IH p2 w2(3) c mark(4) unfolding run by (auto split: list.split)
qed simp

lemma fire_timers_rows:
  assumes "calm E"
  shows "timers (db (fire_timers E ts w)) =
    sql_update (\<lambda>t. tm_ID (tr_Timer t) \<in> tm_ID ` set ts) fired_row (timers (db w))"
proof (induction ts arbitrary: w)
  case Nil
  then show ?case by (simp add: sql_update_none)
next
  case (Cons t ts)
  obtain w1 where mark: "MarkTimerFired E (tm_ID t) w = (Inr (), w1)"
    "timers (db w1) = sql_update (\<lambda>r. tm_ID (tr_Timer r) = tm_ID t) fired_row (timers (db w))"
    by (simp add: MarkTimerFired_def db_exec_calm [OF assms])
  have "timers (db (fire_timers E (t # ts) w)) =
      sql_update (\<lambda>t. tm_ID (tr_Timer t) \<in> tm_ID ` set ts) fired_row (timers (db w1))"
    using Cons.IH [of "snd (ResumeAfterTimer E t w1)"]
    by (simp add: mark(1) ResumeAfterTimer_timers [OF assms surjective_pairing])
  also have "\<dots> = sql_update (\<lambda>r. tm_ID (tr_Timer r) \<in> tm_ID ` set (t # ts)) fired_row (timers (db w))"
    unfolding mark(2) by (simp add: sql_update_def o_def row_defs)
  finally show ?case .
qed

definition due :: "time \<Rightarrow> timer_row \<Rightarrow> bool" where
  "due now t \<longleftrightarrow> \<not> tr_Fired t \<and> tm_FireAt (tr_Timer t) \<le> now"

lemma scan_timer_id: "scan_timer t = Inr m \<Longrightarrow> tm_ID m = tm_ID (tr_Timer t)"
  by (auto simp: scan_timer_def Let_def split: sum.splits)

lemma checkTimers_rows:
  assumes "calm E" and "wf_db (db w)"
    and "\<forall>t \<in> set (timers (db w)). \<exists>m. json_Unmarshal (tm_Payload (tr_Timer t)) = Inr m"
  shows "timers (db (checkTimers E w)) =
    map (\<lambda>t. if due (timestamptz E (clock E (tick w))) t then t\<lparr>tr_Fired := True\<rparr> else t) (timers (db w))"
proof -
  let ?now = "timestamptz E (clock E (tick w))"
  let ?rows = "filter (due ?now) (timers (db w))"
  have "\<forall>t \<in> set ?rows. \<exists>m. scan_timer t = Inr m"
    using assms(3) by (force simp: scan_timer_def Let_def)
  then obtain ts where ts: "scan_rows scan_timer ?rows = Inr ts" using scan_rows_all by blast
  have ids: "map tm_ID ts = map (\<lambda>t. tm_ID (tr_Timer t)) ?rows"
    using ts by (rule scan_rows_map [rotated]) (rule scan_timer_id)
  have "timers (db (checkTimers E w)) =
      sql_update (\<lambda>t. tm_ID (tr_Timer t) \<in> tm_ID ` set ts) fired_row (timers (db w))"
    using ts by (simp add: checkTimers_def time_Now_simp GetPendingTimers_def db_rows_calm [OF assms(1)]
        fire_timers_rows [OF assms(1)] due_def [abs_def])
  moreover have "tm_ID ` set ts = (\<lambda>t. tm_ID (tr_Timer t)) ` set ?rows" using ids by (metis list.set_map)
  moreover have "tm_ID (tr_Timer t) \<in> (\<lambda>t. tm_ID (tr_Timer t)) ` set ?rows \<longleftrightarrow> due ?now t"
    if "t \<in> set (timers (db w))" for t
    using that assms(2) by (auto simp: wf_db_def wf_timers_def unique_key_def distinct_map inj_on_def)
  ultimately show ?thesis by (simp add: sql_update_def row_defs)
qed

text \<open>The payload of a row as \<open>GetPendingTimers\<close> returns it.\<close>

definition timer_payload :: "timer_row \<Rightarrow> gomap" where
  "timer_payload t = (case json_Unmarshal (tm_Payload (tr_Timer t)) of Inl e \<Rightarrow> None | Inr m \<Rightarrow> m)"

lemma last_of_map:
  "(case filter (\<lambda>x. P (g x)) xs of [] \<Rightarrow> a | ys \<Rightarrow> f (g (last ys))) =
   (case filter P (map g xs) of [] \<Rightarrow> a | ys \<Rightarrow> f (last ys))"
  by (cases "filter (\<lambda>x. P (g x)) xs") (simp_all add: filter_map o_def last_map)

lemma checkTimers_resume:
  fixes w :: "'z engine_world_scheme"
  assumes "calm E" and "\<forall>t \<in> set (timers (db w)). \<exists>m. json_Unmarshal (tm_Payload (tr_Timer t)) = Inr m"
    and "\<forall>t \<in> set (timers (db w)). due (timestamptz E (clock E (tick w))) t \<longrightarrow>
      resumable E w (tick w + 10 * length (timers (db w)) + 2) (tm_WorkflowInstanceID (tr_Timer t))"
  shows "goroutines (checkTimers E w) = goroutines w @
      map (\<lambda>t. Job_executeWorkflow (tm_WorkflowInstanceID (tr_Timer t)) (cached_def w (tm_WorkflowInstanceID (tr_Timer t))))
        (filter (due (timestamptz E (clock E (tick w)))) (timers (db w)))"
    and "phase_of iid (db (checkTimers E w)) =
      (case filter (\<lambda>t. due (timestamptz E (clock E (tick w))) t \<and> tm_WorkflowInstanceID (tr_Timer t) = iid) (timers (db w)) of
         [] \<Rightarrow> phase_of iid (db w)
       | ts \<Rightarrow> Some (next_phase (cached_def w iid) (timer_payload (last ts))))"
proof -
  let ?now = "timestamptz E (clock E (tick w))"
  let ?rows = "filter (due ?now) (timers (db w))"
  let ?n = "tick w + 10 * length (timers (db w)) + 2"
  let ?v = "next_tick (next_tick w)"
  let ?g = "\<lambda>t :: gomap Timer. (tm_WorkflowInstanceID t, tm_Payload t)"
  let ?h = "\<lambda>t. (tm_WorkflowInstanceID (tr_Timer t), timer_payload t)"
  have "\<forall>t \<in> set ?rows. \<exists>m. scan_timer t = Inr m"
    using assms(2) by (force simp: scan_timer_def Let_def)
  then obtain ts where ts: "scan_rows scan_timer ?rows = Inr ts" using scan_rows_all by blast
  have run: "checkTimers E w = fire_timers E ts ?v"
    using ts by (simp add: checkTimers_def time_Now_simp GetPendingTimers_def db_rows_calm [OF assms(1)] due_def [abs_def])
  have "?g m = ?h t" if "scan_timer t = Inr m" for t m
    using that by (auto simp: scan_timer_def timer_payload_def Let_def split: sum.splits)
  from scan_rows_map [OF this ts] have m: "map ?g ts = map ?h ?rows" .
  have same: "db ?v = db w" "reg_cache ?v = reg_cache w" "goroutines ?v = goroutines w" "tick ?v = tick w + 2"
    by (simp_all add: next_tick_def)
  have c: "cached_def ?v i = cached_def w i" for i by (rule cached_def_later) (simp_all add: same)
  have r: "resumable E ?v ?n (tm_WorkflowInstanceID t)" if "t \<in> set ts" for t
  proof -
    have "?g t \<in> set (map ?h ?rows)" unfolding m [symmetric] using that by simp
    then have "resumable E w ?n (tm_WorkflowInstanceID t)" using assms(3) by auto
    then show ?thesis by (rule resumable_later) (simp_all add: same)
  qed
  have "length ts \<le> length (timers (db w))" using scan_rows_length [OF ts] by simp
  then have "tick ?v + 10 * length ts \<le> ?n" by (simp add: same)
  note fire = fire_timers_resume [OF assms(1), of ts ?v ?n, OF r this, unfolded c same]
  have "map (\<lambda>p. Job_executeWorkflow (fst p) (cached_def w (fst p))) (map ?g ts) =
      map (\<lambda>p. Job_executeWorkflow (fst p) (cached_def w (fst p))) (map ?h ?rows)" unfolding m ..
  with fire show "goroutines (checkTimers E w) = goroutines w @
      map (\<lambda>t. Job_executeWorkflow (tm_WorkflowInstanceID (tr_Timer t)) (cached_def w (tm_WorkflowInstanceID (tr_Timer t)))) ?rows"
    by (simp add: run o_def)
  let ?F = "\<lambda>p :: uuid \<times> gomap. Some (next_phase (cached_def w iid) (snd p))"
  have "phase_of iid (db (checkTimers E w)) =
      (case filter (\<lambda>p. fst p = iid) (map ?g ts) of [] \<Rightarrow> phase_of iid (db w) | us \<Rightarrow> ?F (last us))"
    using fire last_of_map [where P = "\<lambda>p. fst p = iid" and g = "?g" and xs = "ts" and a = "phase_of iid (db w)" and f = ?F] by (simp add: run cong: list.case_cong)
  also have "\<dots> = (case filter (\<lambda>t. tm_WorkflowInstanceID (tr_Timer t) = iid) ?rows of
      [] \<Rightarrow> phase_of iid (db w) | us \<Rightarrow> Some (next_phase (cached_def w iid) (timer_payload (last us))))"
    unfolding m using last_of_map [where P = "\<lambda>p. fst p = iid" and g = "?h" and xs = "?rows" and a = "phase_of iid (db w)" and f = ?F] by (simp cong: list.case_cong)
  finally show "phase_of iid (db (checkTimers E w)) =
      (case filter (\<lambda>t. due ?now t \<and> tm_WorkflowInstanceID (tr_Timer t) = iid) (timers (db w)) of
         [] \<Rightarrow> phase_of iid (db w)
       | ts \<Rightarrow> Some (next_phase (cached_def w iid) (timer_payload (last ts))))"
    by (simp add: conj_commute)
qed

text \<open>
  C23. A poll fires every timer that is due, once. Afterwards exactly the timers that were due or had
  fired before are marked, the others are as they were, and a query at the same time finds none left,
  whatever becomes of the workflows they resume. When the instances of the due timers can be read and
  their definitions stay in the cache of the process while the poll runs, each of these timers has
  resumed its workflow: the goroutines started are one execution per due timer, of its instance, in the
  order of the table, and every instance is in the phase that its last due timer names (the start state
  when it names none), or in its old phase when none of its timers was due.
\<close>

theorem due_timers_fire_once:
  fixes w :: "'z engine_world_scheme"
  assumes "calm E" and "wf_db (db w)"
    and "\<forall>t \<in> set (timers (db w)). \<exists>m. json_Unmarshal (tm_Payload (tr_Timer t)) = Inr m"
    and "is_due = due (timestamptz E (clock E (tick w)))" and "inst = (\<lambda>t. tm_WorkflowInstanceID (tr_Timer t))"
  shows "timers (db (checkTimers E w)) =
      map (\<lambda>t. if is_due t then t\<lparr>tr_Fired := True\<rparr> else t) (timers (db w)) \<and>
    fst (GetPendingTimers E (clock E (tick w)) (checkTimers E w)) = Inr [] \<and>
    ((\<forall>t \<in> set (timers (db w)). is_due t \<longrightarrow> resumable E w (tick w + 10 * length (timers (db w)) + 2) (inst t)) \<longrightarrow>
      goroutines (checkTimers E w) = goroutines w @
        map (\<lambda>t. Job_executeWorkflow (inst t) (cached_def w (inst t))) (filter is_due (timers (db w))) \<and>
      (\<forall>iid. phase_of iid (db (checkTimers E w)) =
        (case filter (\<lambda>t. is_due t \<and> inst t = iid) (timers (db w)) of
           [] \<Rightarrow> phase_of iid (db w)
         | ts \<Rightarrow> Some (next_phase (cached_def w iid) (timer_payload (last ts))))))"
proof -
  have "filter (due (timestamptz E (clock E (tick w)))) (timers (db (checkTimers E w))) = []"
    unfolding checkTimers_rows [OF assms(1-3)] by (auto simp: filter_empty_conv due_def)
  then have none: "fst (GetPendingTimers E (clock E (tick w)) (checkTimers E w)) = Inr []"
    by (simp add: GetPendingTimers_def db_rows_calm [OF assms(1)] due_def [abs_def])
  show ?thesis
    unfolding assms(4,5)
    by (intro conjI impI allI none checkTimers_rows [OF assms(1-3)] checkTimers_resume [OF assms(1,3)])
qed

definition timer_process :: engine_world where
  "timer_process = example_process\<lparr>db := example_db\<lparr>timers :=
     [\<lparr>tr_Timer = \<lparr>tm_ID = 3, tm_WorkflowInstanceID = 7, tm_FireAt = 50, tm_TimerType = ''delay'',
        tm_Payload = JObj [(''next_state'', JStr ''two'')]\<rparr>, tr_Fired = False\<rparr>]\<rparr>\<rparr>"

lemma timer_wf: "wf_db (db timer_process)"
  by (simp add: timer_process_def wf_db_def wf_defs example_defs unique_key_def instance_ids_def task_ok_def
      history_key_def version_key_def)

lemma timer_resumable: "resumable calm_env timer_process 112 7" "cached_def timer_process 7 = example_definition"
  by (simp_all add: resumable_def cached_def_def readable_def timer_process_def example_process_def example_defs
      instance_at_def scanInstance_def scan_event_def json_Unmarshal_def)

theorem due_timers_fire_once_witness:
  "map tr_Fired (timers (db (checkTimers calm_env timer_process))) = [True] \<and>
   goroutines (checkTimers calm_env timer_process) = [Job_executeWorkflow 7 example_definition] \<and>
   phase_of 7 (db (checkTimers calm_env timer_process)) = Some ''two''"
proof -
  have p: "\<forall>t \<in> set (timers (db timer_process)). \<exists>m. json_Unmarshal (tm_Payload (tr_Timer t)) = Inr m"
    by (simp add: timer_process_def json_Unmarshal_def)
  have t: "tick timer_process = 100" "goroutines timer_process = []"
    by (simp_all add: timer_process_def example_process_def)
  show ?thesis
    using due_timers_fire_once [OF calm_env_calm timer_wf p refl refl] timer_resumable t
    by (simp add: timer_process_def due_def next_phase_def timer_payload_def json_Unmarshal_def string_entry_def map_get_def)
qed

text \<open>
  C25. A fired timer moves its workflow: the instance's phase becomes the state the timer names, or
  the definition's start state when it names none, and a goroutine executes the workflow.
\<close>

theorem timer_moves_workflow:
  fixes w :: "'z engine_world_scheme"
  assumes "calm E" and "loads (db w) (tm_WorkflowInstanceID t) inst evs"
    and "reg_cache w (wi_WorkflowDefinitionID inst) = Some c" and "clock E (tick w + 2) < cd_expiresAt c"
    and "next_state = string_entry (tm_Payload t) ''next_state''"
  shows "\<exists>w'. ResumeAfterTimer E t w = (Inr (), w') \<and>
    phase_of (wi_ID inst) (db w') = Some (if next_state = [] then wd_Start (cd_def c) else next_state) \<and>
    goroutines w' = goroutines w @ [Job_executeWorkflow (tm_WorkflowInstanceID t) (cd_def c)]"
proof -
  let ?next = "if next_state = [] then wd_Start (cd_def c) else next_state"
  let ?w2 = "next_tick (next_tick w)"
  have load: "LoadInstance E (tm_WorkflowInstanceID t) w = (Inr (inst, evs), ?w2)"
    using assms(2) by (simp add: LoadInstance_calm [OF assms(1)])
  have "reg_cache ?w2 = reg_cache w" by (simp add: next_tick_def)
  then have get: "reg_Get E (wi_WorkflowDefinitionID inst) ?w2 = (Inr (cd_def c), next_tick ?w2)"
    using assms(3,4) by (intro reg_Get_cached) simp_all
  let ?ev = "engine_event (int (length evs) + 1) ''TimerFired''
    [(''timer_id'', JStr (uuid_String E (tm_ID t))), (''next_state'', JStr ?next)] (clock E (tick (next_tick ?w2)))"
  obtain x w4 where ap: "AppendEvents E (wi_ID inst) (wi_Version inst) [?ev] (next_tick (next_tick ?w2)) = (x, w4)"
    by fastforce
  have id: "wi_ID inst = tm_WorkflowInstanceID t" using loads_fields(1) [OF assms(2)] .
  have "map_option (\<lambda>_. ()) (instance_at (wi_ID inst) (db w4)) = map_option (\<lambda>_. ()) (instance_at (wi_ID inst) (db w))"
    using AppendEvents_calm_row [OF assms(1), of "\<lambda>_. ()" "next_tick (next_tick ?w2)" "wi_ID inst" "wi_ID inst"
        "wi_Version inst" "[?ev]"] ap by simp
  moreover have "instance_at (wi_ID inst) (db w) \<noteq> None"
    using assms(2) id by (auto simp: loads_def)
  ultimately obtain r where r: "instance_at (wi_ID inst) (db w4) = Some r" by (auto simp: option.map_disc_iff)
  have "world.more w4 = world.more (next_tick (next_tick ?w2))"
    using AppendEvents_more [of E "wi_ID inst" "wi_Version inst" "[?ev]" "next_tick (next_tick ?w2)"] ap by simp
  then have gor: "goroutines w4 = goroutines w" by (metis goroutines_frame next_tick_goroutines)
  define w5 where "w5 = next_tick (w4\<lparr>db := (db w4)\<lparr>workflow_instances := sql_update (\<lambda>r. wi_ID r = wi_ID inst)
      (phase_row ?next (clock E (tick w4))) (workflow_instances (db w4))\<rparr>\<rparr>)"
  have "ResumeAfterTimer E t w = (Inr (), go (Job_executeWorkflow (wi_ID inst) (cd_def c)) w5)"
    using load get ap by (cases "next_state = []") (simp_all add: ResumeAfterTimer_def Let_def time_Now_simp
        assms(5) [symmetric] UpdateCurrentPhase_calm [OF assms(1)] w5_def)
  moreover have "phase_of (wi_ID inst) (db w5) = Some ?next"
    using r by (simp add: w5_def phase_of_def instance_at_phase row_defs)
  moreover have "goroutines w5 = goroutines w" using gor by (simp add: w5_def)
  ultimately show ?thesis using id by (simp add: go_def)
qed

theorem timer_moves_workflow_witness:
  "\<exists>w'. ResumeAfterTimer calm_env \<lparr>tm_ID = 3, tm_WorkflowInstanceID = 7, tm_FireAt = 50,
     tm_TimerType = ''delay'', tm_Payload = Some [(''next_state'', JStr ''two'')]\<rparr> timer_process = (Inr (), w') \<and>
     phase_of 7 (db w') = Some ''two''"
proof -
  have "loads (db timer_process) 7 loaded_instance
      [\<lparr>he_SequenceNum = 1, he_EventType = ''WorkflowStarted'', he_Payload = Some [], he_RecordedAt = 0\<rparr>]"
    by (simp add: loads_def timer_process_def example_defs instance_at_def scanInstance_def
        json_Unmarshal_def loaded_instance_def history_of_def order_by_asc_def scan_event_def)
  then have "loads (db timer_process) (tm_WorkflowInstanceID \<lparr>tm_ID = 3, tm_WorkflowInstanceID = 7,
      tm_FireAt = 50, tm_TimerType = ''delay'', tm_Payload = Some [(''next_state'', JStr ''two'')]\<rparr>) loaded_instance
      [\<lparr>he_SequenceNum = 1, he_EventType = ''WorkflowStarted'', he_Payload = Some [], he_RecordedAt = 0\<rparr>]"
    by simp
  from timer_moves_workflow [OF calm_env_calm this _ _ refl]
  show ?thesis
    by (fastforce simp: timer_process_def example_process_def loaded_instance_def string_entry_def map_get_def)
qed

end
