(* ===== verification/Server_Properties.thy ===== *)
theory Server_Properties
  imports System Supervisor_Properties "HOL-Library.Sublist"
begin

text \<open>
  Properties of the two servers' handlers and of the whole process.
\<close>

section \<open>The whole process\<close>

text \<open>
  The database stays well-formed: in every state the process can reach, through any handlers,
  timers, goroutines and worker exits, with any failures of the database and any commits of
  other clients that respect it, the keys are unique, every event, timer, task and audit row
  belongs to an existing instance or task, a pending task has no agent and no deadline, and an
  assigned one has both.
\<close>

theorem reachable_wf:
  assumes "reachable E S w w'" and "rely E wf_db" and "wf_db (db w)"
  shows "wf_db (db w')"
  using reachable_evolves [OF assms(1)] assms(2,3) by (rule wf.evolves_keeps)

lemma example_supervisor_wf: "wf_db (db example_supervisor)"
  using example_wf by (simp add: example_supervisor_def)

definition identity_struct :: struct_lib where
  "identity_struct = \<lparr>AsMap = (\<lambda>s. Some (case s of None \<Rightarrow> [] | Some kvs \<Rightarrow> kvs)), NewStruct = (\<lambda>m. m)\<rparr>"

definition example_request :: StartWorkflowRequest where
  "example_request = \<lparr>swr_WorkflowDefinitionId = ''wf'', swr_Tenant = ''t'', swr_Input = None\<rparr>"

theorem reachable_wf_witness:
  "wf_db (db (snd (api_StartWorkflow calm_env identity_struct example_request example_supervisor)))"
  by (rule reachable_wf [OF reachable.step [OF reachable.start sys_step.intros(7)] calm_env_rely example_supervisor_wf])

text \<open>
  Nothing is rewritten: in every reachable state the history and the audit log begin with what
  they were, every instance keeps its identity, definition, tenant and state and its version
  does not fall, every timer keeps its data and stays fired, and every task keeps what it was
  created with.
\<close>

theorem reachable_extends:
  assumes "reachable E S w w'" and "rely E (extends (db w))"
  shows "take (length (workflow_history (db w))) (workflow_history (db w')) = workflow_history (db w) \<and>
    take (length (task_audit_log (db w))) (task_audit_log (db w')) = task_audit_log (db w) \<and>
    (\<forall>i < length (workflow_instances (db w)). i < length (workflow_instances (db w')) \<and>
       instance_le (workflow_instances (db w) ! i) (workflow_instances (db w') ! i)) \<and>
    (\<forall>i < length (timers (db w)). i < length (timers (db w')) \<and> timer_le (timers (db w) ! i) (timers (db w') ! i)) \<and>
    (\<forall>i < length (tasks (db w)). i < length (tasks (db w')) \<and> task_le (tasks (db w) ! i) (tasks (db w') ! i))"
proof -
  have "extends (db w) (db w')"
    using reachable_evolves [OF assms(1)] assms(2) extends_refl by (rule extends.evolves_keeps)
  then show ?thesis by (auto simp: extends_def grows_eq_prefix) (auto simp: grows_iff)
qed

theorem reachable_extends_witness:
  "\<exists>rest. workflow_history (db (snd (api_StartWorkflow calm_env identity_struct example_request example_supervisor))) =
     example_event_row # rest"
proof -
  let ?w' = "snd (api_StartWorkflow calm_env identity_struct example_request example_supervisor)"
  have "take (length (workflow_history (db example_supervisor))) (workflow_history (db ?w')) =
      workflow_history (db example_supervisor)"
    using reachable_extends [OF reachable.step [OF reachable.start sys_step.intros(7)] calm_env_rely] by blast
  then have "take 1 (workflow_history (db ?w')) = [example_event_row]"
    by (simp add: example_supervisor_def example_db_def)
  then show ?thesis by (cases "workflow_history (db ?w')") auto
qed

text \<open>
  The status of an instance is one of seven strings in every reachable state, as long as the
  other clients write no others: neither \<open>WAITING\<close> nor \<open>SUSPENDED\<close>, which the protocol has for
  workflows, nor \<open>PROVISIONING\<close>, which it has for instances, is ever reported for a row.
\<close>

theorem reachable_statuses:
  assumes "reachable E S w w'" and "rely E statuses_written" and "statuses_written (db w)"
    and "r \<in> set (workflow_instances (db w'))"
  shows "wi_Status r \<in> {''RUNNING'', ''COMPLETED'', ''FAILED'', ''CANCELED'', ''DEGRADED'', ''STOPPED'', ''ARCHIVED''} \<and>
    workflowStatusFromString (wi_Status r) \<notin> {WORKFLOW_STATUS_WAITING, WORKFLOW_STATUS_SUSPENDED} \<and>
    workflowStatusToInstanceStatus (wi_Status r) \<noteq> INSTANCE_STATUS_PROVISIONING"
proof -
  have "statuses_written (db w')"
    using reachable_evolves [OF assms(1)] assms(2,3) by (rule statuses.evolves_keeps)
  then show ?thesis
    using assms(4) by (auto simp: statuses_written_def written_statuses_def workflowStatusFromString_def
        workflowStatusToInstanceStatus_def)
qed

theorem reachable_statuses_witness:
  "\<exists>r. workflow_instances (db (snd (StopInstance calm_env \<lparr>sir_Id = ''uuuuuuu'', sir_Archive = True\<rparr>
     example_supervisor))) = [r] \<and> workflowStatusFromString (wi_Status r) \<noteq> WORKFLOW_STATUS_WAITING"
proof -
  let ?w' = "snd (StopInstance calm_env \<lparr>sir_Id = ''uuuuuuu'', sir_Archive = True\<rparr> example_supervisor)"
  have "length (workflow_instances (db ?w')) = 1" by code_simp
  then obtain r where r: "workflow_instances (db ?w') = [r]" by (auto simp: length_Suc_conv)
  have "statuses_written (db example_supervisor)"
    by (simp add: statuses_written_def example_supervisor_def example_defs)
  from reachable_statuses [OF reachable.step [OF reachable.start sys_step.intros(12)] calm_env_rely this] r
  show ?thesis by (metis insertCI list.set_intros(1))
qed

section \<open>Handlers\<close>

text \<open>
  The status enumerations of both services survive the trip through the store's strings; the
  statuses the engine itself sets at the end of a workflow, \<open>COMPLETED\<close> and \<open>FAILED\<close>, have no
  counterpart among the instance statuses and come out unspecified.
\<close>

theorem status_round_trips:
  "workflowStatusFromString (workflowStatusToString s) = s \<and>
   workflowStatusToInstanceStatus (protoInstanceStatusToString i) = i \<and>
   workflowStatusToInstanceStatus ''COMPLETED'' = INSTANCE_STATUS_UNSPECIFIED \<and>
   workflowStatusToInstanceStatus ''FAILED'' = INSTANCE_STATUS_UNSPECIFIED"
  by (cases s; cases i) (simp_all add: workflowStatusFromString_def workflowStatusToInstanceStatus_def)

lemma ClaimTask_errors:
  "ClaimTask E i a dl w = (Inl e, w') \<Longrightarrow> e = ErrTaskNotClaimable \<or> (\<exists>e'. e = Wrap ''claim task'' DriverError)"
  by (auto simp: ClaimTask_def require_rows_def wrap_err_def exec_tasks_def db_exec_def Let_def
      split: prod.splits sum.splits if_splits)

text \<open>
  The claim handler answers with a response for every claim the store decided: claimed, or not
  claimable; the reason \<open>task not found\<close> it provides for is never given, an unknown task is
  reported as not claimable.
\<close>

theorem claim_reasons:
  assumes "api_ClaimTask E S reqTaskId agentId w = (Inr r, w')"
  shows "(ctr_Claimed r \<and> ctr_Reason r = []) \<or>
    (\<not> ctr_Claimed r \<and> ctr_Task r = None \<and> ctr_Reason r = ''task is not claimable'')"
  using assms
  by (auto simp: api_ClaimTask_def Let_def split: if_splits sum.splits prod.splits dest!: ClaimTask_errors)

theorem claim_reasons_witness:
  "\<exists>r. fst (api_ClaimTask calm_env identity_struct ''u'' ''alice'' example_world) = Inr r \<and>
     ctr_Reason r = ''task is not claimable''"
proof -
  let ?r = "api_ClaimTask calm_env identity_struct ''u'' ''alice'' example_world"
  have "\<exists>r. fst ?r = Inr r \<and> \<not> ctr_Claimed r"
    by (simp add: api_ClaimTask_def time_Now_def Let_def ClaimTask_def require_rows_def wrap_err_def
        exec_tasks_calm example_defs next_tick_def)
  then obtain r where r: "?r = (Inr r, snd ?r)" "\<not> ctr_Claimed r" by (metis prod.collapse)
  from claim_reasons [OF r(1)] r show ?thesis by (metis fst_conv)
qed

text \<open>
  A workflow can be cancelled only while the supervisor has its worker: for any other instance
  the request fails before the status is written, and nothing changes.
\<close>

theorem cancel_needs_worker:
  assumes "uuid_Parse E reqId = Inr iid" and "map_of (sup_workers w) iid = None"
  shows "CancelWorkflow E reqId w = (Inl (Status Internal ''failed to stop worker''), w)"
  using assms by (simp add: CancelWorkflow_def StopWorker_def)

theorem cancel_needs_worker_witness:
  "CancelWorkflow calm_env ''uuuuuuu'' example_supervisor =
     (Inl (Status Internal ''failed to stop worker''), example_supervisor)"
  by (rule cancel_needs_worker [where iid = 7]) (simp_all add: example_supervisor_def)

text \<open>
  A signal can be recorded once: its event has the sequence number 0, so when the instance has
  one already the append violates the key of the history and the request fails; and no query
  after a sequence number of at least 0, the instance's loading included, ever returns one.
\<close>

theorem second_signal_fails:
  assumes "calm E" and "uuid_Parse E (sig_WorkflowInstanceId req) = Inr iid"
    and "(iid, 0) \<in> history_key ` set (workflow_history (db w))"
  shows "(\<forall>b. fst (SignalWorkflow E S req w) \<noteq> Inr b) \<and>
    (\<forall>n h. 0 \<le> n \<longrightarrow> h \<in> set (history_of iid n (db w)) \<longrightarrow> hr_SequenceNum h \<noteq> 0)"
proof
  have fails: "fst (AppendEvents E iid v [ev] w1) \<noteq> Inr ()" if "db w1 = db w" "he_SequenceNum ev = 0" for v ev w1
    unfolding AppendEvents_calm(1) [OF assms(1)] using assms(3) that by (simp add: accepts_events_def)
  show "\<forall>b. fst (SignalWorkflow E S req w) \<noteq> Inr b"
  proof (intro allI notI)
    fix b assume "fst (SignalWorkflow E S req w) = Inr b"
    then obtain inst evs w1 payload w2 where load: "LoadInstance E iid w = (Inr (inst, evs), w1)"
      and app: "AppendEvents E iid (wi_Version inst) [\<lparr>he_SequenceNum = 0, he_EventType = ''SIGNAL_RECEIVED'',
          he_Payload = payload, he_RecordedAt = 0\<rparr>] w1 = (Inr (), w2)"
      using assms(2) by (auto simp: SignalWorkflow_def Let_def split: if_splits sum.splits prod.splits)
    have "db w1 = db w" by (rule LoadInstance_db [OF assms(1) load])
    from fails [OF this, of _ "wi_Version inst"] app show False by (metis fst_conv HistoryEvent.select_convs(1))
  qed
  show "\<forall>n h. 0 \<le> n \<longrightarrow> h \<in> set (history_of iid n (db w)) \<longrightarrow> hr_SequenceNum h \<noteq> 0"
    by (auto simp: history_of_def)
qed

definition signalled_world :: world where
  "signalled_world = example_world\<lparr>db := example_db\<lparr>workflow_history :=
     [example_event_row, example_event_row\<lparr>hr_SequenceNum := 0, hr_EventType := ''SIGNAL_RECEIVED''\<rparr>]\<rparr>\<rparr>"

theorem second_signal_fails_witness:
  "fst (SignalWorkflow calm_env identity_struct
     \<lparr>sig_WorkflowInstanceId = ''uuuuuuu'', sig_SignalName = ''go'', sig_Payload = None\<rparr> signalled_world) \<noteq> Inr True"
  using second_signal_fails [OF calm_env_calm, of "\<lparr>sig_WorkflowInstanceId = ''uuuuuuu'', sig_SignalName = ''go'',
      sig_Payload = None\<rparr>" 7 signalled_world identity_struct]
  by (simp add: signalled_world_def history_key_def example_event_row_def)

section \<open>Watching a task\<close>

definition audit_log_of :: "uuid \<Rightarrow> database \<Rightarrow> json TaskAuditEntry list" where
  "audit_log_of taskID d = order_by_asc ae_OccurredAt (filter (\<lambda>r. ae_TaskID r = taskID) (task_audit_log d))"

definition log_grows :: "'n environment \<Rightarrow> uuid \<Rightarrow> bool" where
  "log_grows E taskID \<longleftrightarrow> (\<forall>n d. prefix (audit_log_of taskID d) (audit_log_of taskID (others E n d)))"

lemma log_grows_query:
  assumes "log_grows E taskID" and "prefix xs (audit_log_of taskID (db w))"
  shows "GetTaskAuditLog E taskID w = (r, w') \<Longrightarrow> prefix xs (audit_log_of taskID (db w'))"
    and "GetTask E taskID w = (r', w') \<Longrightarrow> prefix xs (audit_log_of taskID (db w'))"
  using assms unfolding log_grows_def
  by (auto simp: GetTaskAuditLog_def GetTask_def db_rows_def db_query_def db_exec_def Let_def
      split: if_splits sum.splits prod.splits list.splits intro: prefix_order.trans)

lemma scan_audit_event: "scan_audit r = Inr e \<Longrightarrow> status_event i e = status_event i r"
  by (auto simp: scan_audit_def status_event_def split: sum.splits)

lemma GetTaskAuditLog_Inr:
  assumes "GetTaskAuditLog E taskID w = (Inr entries, w')" and "complete_rows E"
  shows "map (status_event i) entries = map (status_event i) (audit_log_of taskID (db w'))"
proof -
  have "scan_rows scan_audit (audit_log_of taskID (db w')) = Inr entries"
    using assms by (auto simp: GetTaskAuditLog_def audit_log_of_def db_rows_complete db_query_def db_exec_def Let_def
        split: if_splits sum.splits)
  then show ?thesis by (rule scan_rows_map [rotated]) (rule scan_audit_event)
qed

lemma watch_loop_sent:
  assumes "log_grows E taskID" and "complete_rows E"
  shows "watch_loop E i taskID rounds k sent w = (r, sent', w') \<Longrightarrow> k = length sent \<Longrightarrow>
    prefix sent (map (status_event i) (audit_log_of taskID (db w))) \<Longrightarrow>
    prefix sent sent' \<and> prefix sent' (map (status_event i) (audit_log_of taskID (db w')))"
proof (induction rounds arbitrary: k sent w)
  case (Cons rd rounds)
  obtain now failAt later where rd: "rd = (now, failAt, later)" by (cases rd)
  obtain q w1 where q: "GetTaskAuditLog E taskID w = (q, w1)" by fastforce
  obtain t w2 where t: "GetTask E taskID w1 = (t, w2)" by fastforce
  let ?log = "\<lambda>w. map (status_event i) (audit_log_of taskID (db w))"
  have g: "prefix (?log w) (?log w1)" "prefix (?log w1) (?log w2)"
    using log_grows_query(1) [OF assms(1) prefix_order.refl q] log_grows_query(2) [OF assms(1) prefix_order.refl t]
    by (simp_all add: map_mono_prefix)
  show ?case
  proof (cases q)
    case (Inl e)
    with Cons.prems rd q g show ?thesis by (auto split: if_splits intro: prefix_order.trans)
  next
    case (Inr entries)
    let ?new = "map (status_event i) (drop k entries)"
    have e: "map (status_event i) entries = ?log w1" using GetTaskAuditLog_Inr [OF _ assms(2)] q Inr by blast
    have "prefix sent (?log w1)" using Cons.prems(3) g(1) by (rule prefix_order.trans)
    then have "?log w1 = sent @ drop k (?log w1)"
      using Cons.prems(2) by (metis append_eq_conv_conj prefix_def)
    then have new: "?log w1 = sent @ ?new" using e by (metis drop_map)
    have len: "length entries = length (sent @ ?new)" using arg_cong [OF e, of length] new by simp
    have more: "prefix (sent @ ?new) (?log w2)" using g(2) new by simp
    have part: "prefix (sent @ take n ?new) (?log w1)" for n
      unfolding new by (simp add: take_is_prefix)
    have rec: "prefix sent sent' \<and> prefix sent' (?log w')"
      if "watch_loop E i taskID rounds (length entries) (sent @ ?new) w2 = (r, sent', w')"
      using Cons.IH [OF that len more] by (auto elim: append_prefixD)
    from Cons.prems(1,3) rd q Inr t rec part more g new show ?thesis
      by (cases now) (auto simp: Let_def split: if_splits sum.splits option.splits intro: prefix_order.trans)
  qed
qed auto

text \<open>
  C27. A watch reports the audit log entry by entry: as long as entries are only added behind those
  that are there and no poll is cut short, what has been sent is the beginning of the log, in its order, each entry once,
  whatever rounds the watch has gone through, wherever sending failed and however it ended.
\<close>

theorem watch_sends_log_once:
  assumes "log_grows E taskID" and "complete_rows E" and "uuid_Parse E reqTaskId = Inr taskID"
    and "WatchTask E reqTaskId rounds w = (r, sent, w')"
  shows "sent = map (status_event reqTaskId) (take (length sent)
    (order_by_asc ae_OccurredAt (filter (\<lambda>e. ae_TaskID e = taskID) (task_audit_log (db w')))))"
proof -
  have "prefix sent (map (status_event reqTaskId) (audit_log_of taskID (db w')))"
    using watch_loop_sent [OF assms(1,2), of reqTaskId rounds 0 "[]" w r sent w'] assms(3,4)
    by (simp add: WatchTask_def)
  then show ?thesis unfolding audit_log_of_def by (auto simp: prefix_def simp flip: take_map)
qed

definition audited_world :: world where
  "audited_world = example_world\<lparr>db := example_db\<lparr>task_audit_log := [\<lparr>ae_ID = 1, ae_TaskID = 9,
     ae_EventType = ''CLAIMED'', ae_AgentID = ''alice'', ae_Message = [], ae_Data = JNull, ae_OccurredAt = 5\<rparr>]\<rparr>\<rparr>"

theorem watch_sends_log_once_witness:
  "\<exists>e. fst (snd (WatchTask calm_env ''uuuuuuuuu'' [(False, None, False), (False, None, True)] audited_world)) = [e] \<and>
     tse_Status e = ''CLAIMED''"
proof -
  let ?r = "WatchTask calm_env ''uuuuuuuuu'' [(False, None, False), (False, None, True)] audited_world"
  have "log_grows calm_env 9" by (simp add: log_grows_def)
  moreover have "complete_rows calm_env" using calm_env_calm by (simp add: calm_def)
  moreover have "uuid_Parse calm_env ''uuuuuuuuu'' = Inr 9" by simp
  moreover have "length (fst (snd ?r)) = 1" and "task_audit_log (db (snd (snd ?r))) = task_audit_log (db audited_world)"
    by code_simp+
  ultimately show ?thesis
    using watch_sends_log_once [of calm_env 9 "''uuuuuuuuu''" "[(False, None, False), (False, None, True)]" audited_world
        "fst ?r" "fst (snd ?r)" "snd (snd ?r)"]
    by (auto simp: audited_world_def order_by_asc_def status_event_def)
qed

end
