(* ===== verification/Store_Interface.thy ===== *)
theory Store_Interface
  imports Db_Invariants
begin

text \<open>
  The interface \<open>Store\<close> of \<^verbatim>\<open>internal/store/store.go\<close>, through which the engine and the servers
  reach the database, and \<open>PostgresStore\<close> as its implementation. An interface is a record of its
  methods over a type \<open>'w\<close> of worlds. The locale \<open>store_contract\<close> is what a client may rely on: a
  property that every call keeps is kept by every client, whatever calls it makes and in whatever order.
\<close>

section \<open>The interface\<close>

record 'w Store =
  st_AppendEvents :: "uuid \<Rightarrow> int \<Rightarrow> HistoryEvent list \<Rightarrow> 'w \<Rightarrow> (go_error + unit) \<times> 'w"
  st_LoadInstance :: "uuid \<Rightarrow> 'w \<Rightarrow> (go_error + gomap WorkflowInstance \<times> HistoryEvent list) \<times> 'w"
  st_GetHistoryEvents :: "uuid \<Rightarrow> int \<Rightarrow> 'w \<Rightarrow> (go_error + HistoryEvent list) \<times> 'w"
  st_CreateWorkflowInstance :: "gomap WorkflowInstance \<Rightarrow> 'w \<Rightarrow> (go_error + unit) \<times> 'w"
  st_UpdateWorkflowStatus :: "uuid \<Rightarrow> string \<Rightarrow> 'w \<Rightarrow> (go_error + unit) \<times> 'w"
  st_UpdateCurrentPhase :: "uuid \<Rightarrow> string \<Rightarrow> 'w \<Rightarrow> (go_error + unit) \<times> 'w"
  st_ListActiveInstances :: "'w \<Rightarrow> (go_error + gomap WorkflowInstance list) \<times> 'w"
  st_ListWorkflowInstances :: "ListInstancesFilter \<Rightarrow> 'w \<Rightarrow> (go_error + gomap WorkflowInstance list) \<times> 'w"
  st_ListWorkflowDefinitions ::
    "ListDefinitionsFilter \<Rightarrow> 'w \<Rightarrow> (go_error + string WorkflowDefinitionRow list) \<times> 'w"
  st_DeleteWorkflowDefinition :: "uuid \<Rightarrow> 'w \<Rightarrow> (go_error + unit) \<times> 'w"
  st_UpdateWorkflowDefinitionYAML :: "uuid \<Rightarrow> string \<Rightarrow> 'w \<Rightarrow> (go_error + unit) \<times> 'w"
  st_AcquireLease :: "uuid \<Rightarrow> string \<Rightarrow> 64 word \<Rightarrow> 'w \<Rightarrow> (go_error + bool) \<times> 'w"
  st_RenewLease :: "uuid \<Rightarrow> string \<Rightarrow> 64 word \<Rightarrow> 'w \<Rightarrow> (go_error + unit) \<times> 'w"
  st_CreateTimer :: "uuid \<Rightarrow> time \<Rightarrow> string \<Rightarrow> gomap \<Rightarrow> 'w \<Rightarrow> (go_error + uuid) \<times> 'w"
  st_GetPendingTimers :: "time \<Rightarrow> 'w \<Rightarrow> (go_error + gomap Timer list) \<times> 'w"
  st_MarkTimerFired :: "uuid \<Rightarrow> 'w \<Rightarrow> (go_error + unit) \<times> 'w"
  st_CreateTask :: "task \<Rightarrow> 'w \<Rightarrow> (go_error + unit) \<times> 'w"
  st_GetTask :: "uuid \<Rightarrow> 'w \<Rightarrow> (go_error + task) \<times> 'w"
  st_GetPendingTasks :: "string list \<Rightarrow> int \<Rightarrow> 'w \<Rightarrow> (go_error + task list) \<times> 'w"
  st_ListTasksForInstance :: "uuid \<Rightarrow> string \<Rightarrow> int \<Rightarrow> int \<Rightarrow> 'w \<Rightarrow> (go_error + task list) \<times> 'w"
  st_ListTasksForAgent :: "string \<Rightarrow> string \<Rightarrow> string \<Rightarrow> 'w \<Rightarrow> (go_error + task list) \<times> 'w"
  st_AssignTask :: "uuid \<Rightarrow> string \<Rightarrow> time \<Rightarrow> 'w \<Rightarrow> (go_error + unit) \<times> 'w"
  st_ClaimTask :: "uuid \<Rightarrow> string \<Rightarrow> time \<Rightarrow> 'w \<Rightarrow> (go_error + unit) \<times> 'w"
  st_ReleaseTask :: "uuid \<Rightarrow> string \<Rightarrow> 'w \<Rightarrow> (go_error + unit) \<times> 'w"
  st_CompleteTask :: "uuid \<Rightarrow> gomap \<Rightarrow> 'w \<Rightarrow> (go_error + unit) \<times> 'w"
  st_CompleteTaskWithEvidence :: "uuid \<Rightarrow> gomap \<Rightarrow> gomap \<Rightarrow> 'w \<Rightarrow> (go_error + unit) \<times> 'w"
  st_FailTask :: "uuid \<Rightarrow> gomap \<Rightarrow> 'w \<Rightarrow> (go_error + unit) \<times> 'w"
  st_ExtendTaskDeadline :: "uuid \<Rightarrow> time \<Rightarrow> 'w \<Rightarrow> (go_error + unit) \<times> 'w"
  st_ReassignTask :: "uuid \<Rightarrow> string \<Rightarrow> string \<Rightarrow> 'w \<Rightarrow> (go_error + unit) \<times> 'w"
  st_CountPendingTasks :: "uuid \<Rightarrow> 'w \<Rightarrow> (go_error + nat) \<times> 'w"
  st_AppendTaskAudit :: "gomap TaskAuditEntry \<Rightarrow> 'w \<Rightarrow> (go_error + unit) \<times> 'w"
  st_GetTaskAuditLog :: "uuid \<Rightarrow> 'w \<Rightarrow> (go_error + gomap TaskAuditEntry list) \<times> 'w"

text \<open>\<open>NewPostgresStore\<close>: the method set of \<open>PostgresStore\<close>.\<close>

definition NewPostgresStore :: "'n environment \<Rightarrow> 'z world_scheme Store" where
  "NewPostgresStore E =
     \<lparr>st_AppendEvents = AppendEvents E, st_LoadInstance = LoadInstance E,
      st_GetHistoryEvents = GetHistoryEvents E, st_CreateWorkflowInstance = CreateWorkflowInstance E,
      st_UpdateWorkflowStatus = UpdateWorkflowStatus E, st_UpdateCurrentPhase = UpdateCurrentPhase E,
      st_ListActiveInstances = ListActiveInstances E, st_ListWorkflowInstances = ListWorkflowInstances E,
      st_ListWorkflowDefinitions = ListWorkflowDefinitions E,
      st_DeleteWorkflowDefinition = DeleteWorkflowDefinition E,
      st_UpdateWorkflowDefinitionYAML = UpdateWorkflowDefinitionYAML E,
      st_AcquireLease = AcquireLease E, st_RenewLease = RenewLease E,
      st_CreateTimer = CreateTimer E, st_GetPendingTimers = GetPendingTimers E,
      st_MarkTimerFired = MarkTimerFired E, st_CreateTask = CreateTask E, st_GetTask = GetTask E,
      st_GetPendingTasks = GetPendingTasks E, st_ListTasksForInstance = ListTasksForInstance E,
      st_ListTasksForAgent = ListTasksForAgent E, st_AssignTask = AssignTask E, st_ClaimTask = ClaimTask E,
      st_ReleaseTask = ReleaseTask E, st_CompleteTask = store_CompleteTask E,
      st_CompleteTaskWithEvidence = CompleteTaskWithEvidence E, st_FailTask = store_FailTask E,
      st_ExtendTaskDeadline = ExtendTaskDeadline E, st_ReassignTask = ReassignTask E,
      st_CountPendingTasks = CountPendingTasks E, st_AppendTaskAudit = AppendTaskAudit E,
      st_GetTaskAuditLog = GetTaskAuditLog E\<rparr>"

section \<open>Clients\<close>

text \<open>
  One call of a method. New instances, statuses and tasks are as the code makes them: version 0, one
  of the statuses it writes, pending without agent, deadline and parent.
\<close>

inductive store_call :: "'w Store \<Rightarrow> 'w \<Rightarrow> 'w \<Rightarrow> bool" for S where
  "store_call S w (snd (st_AppendEvents S iid v evs w))"
| "store_call S w (snd (st_LoadInstance S iid w))"
| "store_call S w (snd (st_GetHistoryEvents S iid afterSeq w))"
| "wi_Version inst = 0 \<Longrightarrow> wi_Status inst \<in> written_statuses \<Longrightarrow>
    store_call S w (snd (st_CreateWorkflowInstance S inst w))"
| "st \<in> written_statuses \<Longrightarrow> store_call S w (snd (st_UpdateWorkflowStatus S iid st w))"
| "store_call S w (snd (st_UpdateCurrentPhase S iid ph w))"
| "store_call S w (snd (st_ListActiveInstances S w))"
| "store_call S w (snd (st_ListWorkflowInstances S f w))"
| "store_call S w (snd (st_ListWorkflowDefinitions S g w))"
| "store_call S w (snd (st_DeleteWorkflowDefinition S i w))"
| "store_call S w (snd (st_UpdateWorkflowDefinitionYAML S i text w))"
| "store_call S w (snd (st_AcquireLease S iid a dur w))"
| "store_call S w (snd (st_RenewLease S iid a dur w))"
| "store_call S w (snd (st_CreateTimer S iid t ty m w))"
| "store_call S w (snd (st_GetPendingTimers S t w))"
| "store_call S w (snd (st_MarkTimerFired S i w))"
| "new_task task \<Longrightarrow> store_call S w (snd (st_CreateTask S task w))"
| "store_call S w (snd (st_GetTask S i w))"
| "store_call S w (snd (st_GetPendingTasks S caps l w))"
| "store_call S w (snd (st_ListTasksForInstance S iid st l off w))"
| "store_call S w (snd (st_ListTasksForAgent S a ten st w))"
| "store_call S w (snd (st_AssignTask S i a dl w))"
| "store_call S w (snd (st_ClaimTask S i a dl w))"
| "store_call S w (snd (st_ReleaseTask S i a w))"
| "store_call S w (snd (st_CompleteTask S i m w))"
| "store_call S w (snd (st_CompleteTaskWithEvidence S i m m' w))"
| "store_call S w (snd (st_FailTask S i m w))"
| "store_call S w (snd (st_ExtendTaskDeadline S i dl w))"
| "store_call S w (snd (st_ReassignTask S i a b w))"
| "store_call S w (snd (st_CountPendingTasks S iid w))"
| "store_call S w (snd (st_AppendTaskAudit S entry w))"
| "store_call S w (snd (st_GetTaskAuditLog S i w))"

text \<open>A client makes any calls, chosen by what it has learnt.\<close>

inductive store_client :: "'w Store \<Rightarrow> 'w \<Rightarrow> 'w \<Rightarrow> bool" for S where
  idle: "store_client S w w"
| calls: "store_client S w w1 \<Longrightarrow> store_call S w1 w2 \<Longrightarrow> store_client S w w2"

locale store_contract =
  fixes S :: "'w Store" and keeps :: "'w \<Rightarrow> bool"
  assumes call: "store_call S w w' \<Longrightarrow> keeps w \<Longrightarrow> keeps w'"
begin

lemma client: "store_client S w w' \<Longrightarrow> keeps w \<Longrightarrow> keeps w'"
  by (induction rule: store_client.induct) (auto intro: call)

end

section \<open>PostgresStore\<close>

lemma AcquireLease_evolves [evolve]:
  "AcquireLease E iid a dur w = (r, w') \<Longrightarrow> evolves A E d (db w) \<Longrightarrow> evolves A E d (db w')"
  by (auto simp: AcquireLease_def Let_def elim!: db_exec_evolves split: if_splits intro: store_step.lock)

lemma RenewLease_evolves [evolve]:
  "RenewLease E iid a dur w = (r, w') \<Longrightarrow> evolves A E d (db w) \<Longrightarrow> evolves A E d (db w')"
  by (simp add: RenewLease_def)

lemmas postgres_evolves =
  AppendEvents_evolves LoadInstance_evolves GetHistoryEvents_evolves instance_updates_evolve
  ListActiveInstances_evolves ListWorkflowInstances_evolves ListWorkflowDefinitions_evolves
  DeleteWorkflowDefinition_evolves UpdateWorkflowDefinitionYAML_evolves AcquireLease_evolves RenewLease_evolves
  CreateTimer_evolves GetPendingTimers_evolves MarkTimerFired_evolves CreateTask_evolves GetTask_evolves
  GetPendingTasks_evolves ListTasksForInstance_evolves ListTasksForAgent_evolves task_updates_evolve
  CountPendingTasks_evolves AppendTaskAudit_evolves GetTaskAuditLog_evolves

interpretation postgres: store_contract "NewPostgresStore E" "\<lambda>w. evolves True E d (db w)" for E d
proof
  fix w w' :: "'z world_scheme"
  assume "store_call (NewPostgresStore E) w w'" and "evolves True E d (db w)"
  then show "evolves True E d (db w')"
    by (induction rule: store_call.induct)
      (simp_all add: NewPostgresStore_def postgres_evolves [OF surjective_pairing])
qed

lemma postgres_client_evolves: "store_client (NewPostgresStore E) w w' \<Longrightarrow> evolves True E (db w) (db w')"
  by (rule postgres.client [of E w w' "db w"]) simp_all

end
