(* ===== verification/Event_Properties.thy ===== *)
theory Event_Properties
  imports Example_Environment Store_Interface
begin

text \<open>
  Properties of the event log: what an append does, that it is atomic, and that its version
  check is an optimistic lock; what a load returns.
\<close>

text \<open>
  C10. Undisturbed, an append succeeds exactly when the instance exists at the expected version and
  the new sequence numbers are fresh; a wrong version is reported as a concurrency conflict;
  on success the version goes up by one and the events follow the history in their order, on
  any error the database is as it was.
\<close>

theorem append_events_behaviour:
  assumes "calm E" and "unique_key wi_ID (workflow_instances (db w))"
  shows "(fst (AppendEvents E iid v evs w) = Inr () \<longleftrightarrow>
       (\<exists>r. row_at wi_ID (workflow_instances (db w)) iid = Some r \<and> wi_Version r = v) \<and>
       accepts_events iid evs (db w)) \<and>
    (fst (AppendEvents E iid v evs w) = Inl ErrConcurrencyConflict \<longleftrightarrow>
       (\<nexists>r. row_at wi_ID (workflow_instances (db w)) iid = Some r \<and> wi_Version r = v)) \<and>
    db (snd (AppendEvents E iid v evs w)) =
      (if fst (AppendEvents E iid v evs w) = Inr ()
       then (db w)\<lparr>workflow_instances :=
              sql_update (version_matches iid v) (version_row (clock E (tick w))) (workflow_instances (db w)),
            workflow_history := workflow_history (db w) @ history_rows iid (clock E (tick w)) evs\<rparr>
       else db w)"
  using AppendEvents_calm [OF assms(1), of iid v evs w] version_row_hit [OF assms(2), of iid v]
  by (auto simp: append_effect_def)

theorem append_events_behaviour_witness:
  "fst (AppendEvents calm_env 7 1 [\<lparr>he_SequenceNum = 2, he_EventType = ''E'', he_Payload = None,
     he_RecordedAt = 0\<rparr>] example_world) = Inr ()"
proof -
  have u: "unique_key wi_ID (workflow_instances (db example_world))"
    by (simp add: example_defs unique_key_def)
  show ?thesis
    using append_events_behaviour [OF calm_env_calm u, of 7 1
        "[\<lparr>he_SequenceNum = 2, he_EventType = ''E'', he_Payload = None, he_RecordedAt = 0\<rparr>]"]
    by (simp add: example_defs accepts_events_def history_key_def)
qed

lemma AppendEvents_version:
  assumes "AppendEvents E iid v evs w = (Inr (), w1)" and "rely E wf_db" and "wf_db (db w)"
  obtains r where "row_at wi_ID (workflow_instances (db w1)) iid = Some r" and "wi_Version r = v + 1"
proof -
  obtain n n' now d where d: "d = others E n' (others E n (db w))"
    and hit: "0 < rows_affected (version_matches iid v) (workflow_instances d)"
    and w1: "db w1 = append_effect iid v now evs d"
    using AppendEvents_InrD [OF assms(1)] by (auto simp: appended_def)
  from assms(2,3) d have "wf_db d" by (simp add: rely_def)
  then have "unique_key wi_ID (workflow_instances d)" by (simp add: wf_db_def wf_events_def)
  with hit obtain r where r: "row_at wi_ID (workflow_instances d) iid = Some r" "wi_Version r = v"
    by (auto simp: version_row_hit)
  have "wi_ID r = iid" using row_at_SomeD [OF r(1)] by simp
  then show thesis
    by (intro that [of "version_row now r"])
      (simp_all add: w1 append_effect_def version.row_at_update r version_matches_def row_defs)
qed

text \<open>
  C9. The version is an optimistic lock: once an append at version \<open>v\<close> has committed, no append
  at \<open>v\<close> to the same instance succeeds any more, whatever this process and the other clients
  do to the database in between and whatever fails.
\<close>

theorem append_excludes_append:
  assumes "wf_db (db w)" and "rely E wf_db" and "rely E (extends (db w1))"
    and "AppendEvents E iid v evs w = (Inr (), w1)" and "evolves True E (db w1) (db w2)"
  shows "fst (AppendEvents E iid v evs' w2) \<noteq> Inr ()"
proof
  assume "fst (AppendEvents E iid v evs' w2) = Inr ()"
  then obtain w3 where "AppendEvents E iid v evs' w2 = (Inr (), w3)" by (metis prod.collapse)
  then obtain n n' now d where d: "d = others E n' (others E n (db w2))"
    and hit: "0 < rows_affected (version_matches iid v) (workflow_instances d)"
    by (auto simp: appended_def dest!: AppendEvents_InrD)
  obtain r where r: "row_at wi_ID (workflow_instances (db w1)) iid = Some r" "wi_Version r = v + 1"
    using AppendEvents_version [OF assms(4,2,1)] by blast
  have "evolves True E (db w) (db w1)" using AppendEvents_evolves [OF assms(4)] by simp
  then have "wf_db (db w1)" using wf.evolves_keeps assms(1,2) by blast
  then have "wf_db (db w2)" using wf.evolves_keeps assms(2,5) by blast
  then have wf: "wf_db d" using assms(2) d by (simp add: rely_def)
  have "extends (db w1) (db w2)" using extends.evolves_keeps [OF assms(5,3)] extends_refl by blast
  then have "extends (db w1) d" using assms(3) d by (simp add: rely_def)
  then obtain r' where r': "row_at wi_ID (workflow_instances d) iid = Some r'" "instance_le r r'"
    using extends_instance wf r(1) by blast
  from wf hit r' have "wi_Version r' = v"
    by (simp add: wf_db_def wf_events_def version_row_hit)
  with r' r(2) show False by (simp add: instance_le_def)
qed

theorem append_excludes_append_witness:
  "fst (AppendEvents calm_env 7 1 [] (snd (AppendEvents calm_env 7 1 [] example_world))) \<noteq> Inr ()"
proof -
  have "fst (AppendEvents calm_env 7 1 [] example_world) = Inr ()"
    unfolding AppendEvents_calm(1) [OF calm_env_calm]
    by (simp add: example_defs accepts_events_def version_matches_def)
  then have "AppendEvents calm_env 7 1 [] example_world = (Inr (), snd (AppendEvents calm_env 7 1 [] example_world))"
    by (metis prod.collapse)
  from append_excludes_append [OF _ calm_env_rely calm_env_rely this evolves.stays] example_wf
  show ?thesis by (simp add: example_world_def)
qed

text \<open>
  C11. An append is atomic, whatever fails: either it leaves the database as the other clients made it,
  and then it returns an error, or all of it is committed in one step. In the second case it
  returns success, unless the answer to the commit is lost.
\<close>

theorem append_all_or_nothing:
  assumes "AppendEvents E iid v evs w = (r, w')" and "rely E I" and "I (db w)"
  shows "I (db w') \<and> (\<exists>e. r = Inl e) \<or>
    (r = Inr () \<or> r = Inl DriverError) \<and>
    (\<exists>d now. I d \<and> 0 < rows_affected (version_matches iid v) (workflow_instances d) \<and>
       accepts_events iid evs d \<and> db w' = append_effect iid v now evs d)"
  using assms(1)
proof (cases rule: AppendEvents_cases)
  case (nothing e n n')
  with assms(2,3) show ?thesis by (auto simp: rely_def)
next
  case commits
  with assms(2,3) show ?thesis unfolding appended_def rely_def by blast
qed

theorem append_all_or_nothing_witness:
  "let r = AppendEvents (calm_env\<lparr>db_ack := \<lambda>n. n \<noteq> 102\<rparr>) 7 1 [] example_world
   in \<exists>d now. fst r = Inl DriverError \<and> wf_db d \<and> db (snd r) = append_effect 7 1 now [] d"
proof -
  let ?E = "calm_env\<lparr>db_ack := \<lambda>n. n \<noteq> 102\<rparr>"
  have r: "fst (AppendEvents ?E 7 1 [] example_world) = Inl DriverError"
    and v: "wi_Version (hd (workflow_instances (db (snd (AppendEvents ?E 7 1 [] example_world))))) = 2"
    by (simp_all add: AppendEvents_unfold db_exec_def Let_def example_defs version_matches_def row_defs next_tick_def)
  have rely: "rely ?E (\<lambda>d. d = example_db)" by (simp add: rely_def)
  from v have "db (snd (AppendEvents ?E 7 1 [] example_world)) \<noteq> example_db" by (auto simp: example_defs)
  with append_all_or_nothing [where w = example_world and v = 1 and iid = 7 and evs = "[]",
      OF prod.collapse [symmetric] rely]
  show ?thesis using r example_wf by (auto simp: example_world_def)
qed

lemma history_of_append:
  assumes "\<forall>h \<in> set (workflow_history d). hr_Instance h = iid \<longrightarrow> hr_SequenceNum h \<le> n"
    and "\<forall>ev \<in> set evs. n < he_SequenceNum ev" and "sorted (map he_SequenceNum evs)"
  shows "history_of iid n (append_effect iid v now evs d) = history_rows iid now evs"
proof -
  have "filter (\<lambda>h. hr_Instance h = iid \<and> hr_SequenceNum h > n) (workflow_history d) = []"
    using assms(1) by (auto simp: filter_empty_conv)
  moreover have "filter (\<lambda>h. hr_Instance h = iid \<and> hr_SequenceNum h > n) (history_rows iid now evs) =
      history_rows iid now evs"
    using assms(2) by (auto simp: history_rows_def filter_id_conv)
  moreover have "map hr_SequenceNum (history_rows iid now evs) = map he_SequenceNum evs"
    by (simp add: history_rows_def)
  ultimately show ?thesis
    using assms(3) by (simp add: history_of_def append_effect_def order_by_asc_sorted)
qed

lemma scan_history_rows:
  "\<forall>ev \<in> set evs. double_exact (json_of_map (he_Payload ev)) \<and> marshalable (json_of_map (he_Payload ev)) \<Longrightarrow>
   scan_rows scan_event (history_rows iid now evs) = Inr (map (\<lambda>ev. ev\<lparr>he_RecordedAt := now\<rparr>) evs)"
proof (induction evs)
  case (Cons ev evs)
  then have "json_Unmarshal (json_of_map (he_Payload ev)) = Inr (he_Payload ev)"
    by (intro json_roundtrip) simp_all
  with Cons show ?case by (simp add: scan_event_def)
qed simp

text \<open>
  C29. What is appended is read back: when the new sequence numbers ascend above those the
  instance has, a later query for the events above the old ones returns exactly the appended
  events, in order and with their payloads (whose numbers are doubles), stamped with the time
  at which the transaction of the append began.
\<close>

theorem appended_events_read_back:
  assumes "calm E" and "AppendEvents E iid v evs w = (Inr (), w')"
    and "\<forall>h \<in> set (workflow_history (db w)). hr_Instance h = iid \<longrightarrow> hr_SequenceNum h \<le> n"
    and "\<forall>ev \<in> set evs. n < he_SequenceNum ev" and "sorted (map he_SequenceNum evs)"
    and "\<forall>ev \<in> set evs. double_exact (json_of_map (he_Payload ev))"
  shows "fst (GetHistoryEvents E iid n w') =
    Inr (map (\<lambda>ev. ev\<lparr>he_RecordedAt := clock E (tick w)\<rparr>) evs)"
proof -
  have "db w' = append_effect iid v (clock E (tick w)) evs (db w)"
    and "accepts_events iid evs (db w)"
    using AppendEvents_calm [OF assms(1), of iid v evs w] assms(2) by simp_all
  then show ?thesis
    using assms(6) history_of_append [OF assms(3-5)]
    by (simp add: GetHistoryEvents_def queryHistory_def db_query_calm [OF assms(1)] db_rows_calm [OF assms(1)] scan_history_rows
        accepts_events_def)
qed

theorem appended_events_read_back_witness:
  "\<exists>e. fst (GetHistoryEvents calm_env 7 1 (snd (AppendEvents calm_env 7 1
     [\<lparr>he_SequenceNum = 2, he_EventType = ''E'', he_Payload = None, he_RecordedAt = 0\<rparr>] example_world))) = Inr [e]"
proof -
  let ?evs = "[\<lparr>he_SequenceNum = 2, he_EventType = ''E'', he_Payload = None, he_RecordedAt = 0\<rparr>]"
  have "fst (AppendEvents calm_env 7 1 ?evs example_world) = Inr ()"
    unfolding AppendEvents_calm(1) [OF calm_env_calm]
    by (simp add: example_defs accepts_events_def version_matches_def history_key_def)
  then have app: "AppendEvents calm_env 7 1 ?evs example_world =
      (Inr (), snd (AppendEvents calm_env 7 1 ?evs example_world))"
    by (metis prod.collapse)
  show ?thesis
    by (subst appended_events_read_back [OF calm_env_calm app]) (simp_all add: example_defs)
qed

section \<open>Clients of the interface\<close>

text \<open>
  C32. No client of the \<open>Store\<close> interface can break the database: whatever methods it calls, with
  whatever arguments and in whatever order, as long as the instances, statuses and tasks it writes
  are new ones as the code makes them, the database stays well-formed and nothing recorded is
  rewritten, under every failure and every commit of other clients that keeps to the same.
\<close>

theorem store_clients_keep:
  assumes "store_client (NewPostgresStore E) w w'" and "rely E wf_db" and "rely E (extends (db w))"
    and "wf_db (db w)"
  shows "wf_db (db w') \<and> extends (db w) (db w')"
  using postgres_client_evolves [OF assms(1)] wf.evolves_keeps [OF _ assms(2,4)]
    extends.evolves_keeps [OF _ assms(3) extends_refl] by blast

theorem store_clients_keep_witness:
  "wf_db (db (snd (st_ReleaseTask (NewPostgresStore calm_env) 9 ''alice''
     (snd (st_ClaimTask (NewPostgresStore calm_env) 9 ''alice'' 50 example_world)))))"
proof -
  have "store_client (NewPostgresStore calm_env) example_world
      (snd (st_ReleaseTask (NewPostgresStore calm_env) 9 ''alice''
        (snd (st_ClaimTask (NewPostgresStore calm_env) 9 ''alice'' 50 example_world))))"
    by (rule store_client.calls [OF store_client.calls [OF store_client.idle store_call.intros(23)] store_call.intros(24)])
  from store_clients_keep [OF this] show ?thesis using example_wf by (simp add: example_world_def)
qed

end
