(* ===== verification/Progress_Properties.thy ===== *)
theory Progress_Properties
  imports Resume_Properties
begin

text \<open>
  How an instance makes progress: the tasks or the timer of the state it enters, the way from the
  last finished task into the next state, and what happens when a state is entered again.
\<close>

section \<open>Entering a state with actions\<close>

lemma fresh_ids_later:
  "fresh_ids E t n rows \<Longrightarrow> t \<le> t' \<Longrightarrow> t' + n' \<le> t + n \<Longrightarrow> fresh_ids E t' n' rows"
  unfolding fresh_ids_def by (auto intro: inj_on_subset)

lemma CreateTask_instances:
  assumes "calm E" and "CreateTask E t w = (r, w')"
  shows "workflow_instances (db w') = workflow_instances (db w) \<and> timers (db w') = timers (db w)"
  using assms(2) by (auto simp: CreateTask_def db_exec_calm [OF assms(1)] Let_def sql_insert_Inr
      split: sum.splits if_splits option.splits)

lemma schedule_keeps_instance:
  assumes "calm E"
  shows "schedule_actions E inst k b i acts w = (True, w') \<Longrightarrow>
    phase_of iid (db w') = phase_of iid (db w) \<and> status_of iid (db w') = status_of iid (db w) \<and>
    timers (db w') = timers (db w)"
proof (induction acts arbitrary: i w)
  case (Cons a acts)
  obtain t w1 where u: "uuid_New E w = (t, w1)" by fastforce
  obtain c w2 where c: "CreateTask E (task_of_action t (wi_ID inst) b a) w1 = (c, w2)" by fastforce
  obtain now w3 where n: "time_Now E w2 = (now, w3)" by fastforce
  let ?ev = "scheduled_event (uuid_String E t) (int (k + i + 1)) b a now"
  let ?w4 = "snd (AppendEvents E (wi_ID inst) (wi_Version inst) [?ev] w3)"
  let ?w5 = "if rabbit_channel E then publishTask E (task_of_action t (wi_ID inst) b a) ?w4 else ?w4"
  have run: "schedule_actions E inst k b (Suc i) acts ?w5 = (True, w')"
    using Cons.prems u c n by (auto simp: algebra_simps split: sum.splits prod.splits)
  have w3: "workflow_instances (db w3) = workflow_instances (db w)" "timers (db w3) = timers (db w)"
    using u CreateTask_instances [OF assms c] n by (auto simp: uuid_New_simp time_Now_simp)
  then have "instance_at iid (db w3) = instance_at iid (db w)" by (simp add: instance_at_def)
  then have "phase_of iid (db ?w4) = phase_of iid (db w) \<and> status_of iid (db ?w4) = status_of iid (db w)"
    using AppendEvents_calm_row [OF assms, of wi_CurrentPhase w3 iid "wi_ID inst" "wi_Version inst" "[?ev]"]
      AppendEvents_calm_row [OF assms, of wi_Status w3 iid "wi_ID inst" "wi_Version inst" "[?ev]"]
    by (simp add: phase_of_def status_of_def row_defs)
  moreover have "timers (db ?w4) = timers (db w)"
    using AppendEvents_timers [OF assms surjective_pairing, of "wi_ID inst" "wi_Version inst" "[?ev]" w3] w3(2) by simp
  moreover have "db ?w5 = db ?w4" by simp
  ultimately show ?case using Cons.IH [OF run] by simp
qed simp

lemma execute_operation_state:
  assumes "calm E" and "loads (db w) iid inst evs" and "wi_CurrentPhase inst \<noteq> []"
    and "findState def (wi_CurrentPhase inst) = Some (OperationState b acts)" and "acts \<noteq> []"
    and "\<forall>a \<in> set acts. marshalable (json_of_map (ac_Arguments a))"
    and "fresh_ids E (tick w + 2) (8 * length acts) (tasks (db w))"
  obtains w' rows where "executeWorkflow E iid def w = Some w'"
    and "tasks (db w') = tasks (db w) @ rows" and "list_all2 (created_by iid b) acts rows"
    and "phase_of iid (db w') = phase_of iid (db w)" and "status_of iid (db w') = status_of iid (db w)"
proof -
  let ?w = "next_tick (next_tick w)"
  have id: "wi_ID inst = iid" by (rule loads_fields(1) [OF assms(2)])
  have "iid \<in> instance_ids (db ?w)"
    using assms(2) by (auto simp: loads_def instance_at_def instance_ids_def dest!: row_at_SomeD)
  then obtain rows w' where s: "schedule_actions E inst (length evs) b 0 acts ?w = (True, w')"
      "tasks (db w') = tasks (db ?w) @ rows" "list_all2 (created_by iid b) acts rows"
    using schedule_tasks [OF assms(1) id [symmetric], of ?w acts] assms(6,7) by fastforce
  have "execute_step E iid def w = (False, w')"
    using assms(2-5) s(1) by (simp add: execute_step_def LoadInstance_calm [OF assms(1), THEN iffD2]
        processState_def processOperationState_def)
  then have "executeWorkflow E iid def w = Some w'" by (simp add: executeWorkflow.simps)
  with s schedule_keeps_instance [OF assms(1) s(1)] show thesis by (intro that [of w' rows]) simp_all
qed


lemma example_loads: "loads example_db 7 loaded_instance
    [\<lparr>he_SequenceNum = 1, he_EventType = ''WorkflowStarted'', he_Payload = Some [], he_RecordedAt = 0\<rparr>]"
  by (simp add: loads_def example_defs instance_at_def scanInstance_def json_Unmarshal_def loaded_instance_def
      history_of_def order_by_asc_def scan_event_def)

lemma example_states:
  "findState example_definition ''one'' = Some example_start" "findState example_definition ''two'' = Some example_end"
  by (simp_all add: findState_def example_definition_def example_start_def example_end_def GetName_def)


section \<open>From the last finished task into the next state\<close>

lemma advanceFromState_enters:
  fixes w :: "'z world_scheme"
  assumes "calm E" and "readable (db w) iid" and "wi_ID inst = iid" and "phase_of iid (db w) \<noteq> None"
    and "\<not> End st" and "GetTransition st = next" and "next \<noteq> []"
    and "findState def next = Some (OperationState b acts)" and "acts \<noteq> []"
    and "\<forall>a \<in> set acts. marshalable (json_of_map (ac_Arguments a))"
    and "fresh_ids E (tick w) (8 * length acts + 8) (tasks (db w))"
  obtains w' :: "'z world_scheme" and rows where "advanceFromState E inst evs st def w = Some (Inr (), w')"
    and "phase_of iid (db w') = Some next" and "status_of iid (db w') = status_of iid (db w)"
    and "tasks (db w') = tasks (db w) @ rows" and "list_all2 (created_by iid b) acts rows"
proof -
  have ne: "GetTransition st \<noteq> []" using assms(6,7) by simp
  obtain w1 where w1: "advance_step E inst evs st w = (Inr True, w1)" "readable (db w1) iid"
      "phase_of iid (db w1) = map_option (\<lambda>_. next) (phase_of iid (db w))"
      "status_of iid (db w1) = status_of iid (db w)"
      "tasks (db w1) = tasks (db w)" "tick w \<le> tick w1" "tick w1 \<le> tick w + 6"
    by (rule advance_step_next [OF assms(1) assms(2) [folded assms(3)] assms(5) ne, of evs, unfolded assms(3,6)])
  have at: "phase_of iid (db w1) = Some next" using w1(3) assms(4) by auto
  obtain inst1 evs1 where l: "loads (db w1) iid inst1 evs1" using readable_loads [OF w1(2)] by blast
  have ph: "wi_CurrentPhase inst1 = next" using loads_fields(2) [OF l] at by simp
  have "fresh_ids E (tick w1 + 2) (8 * length acts) (tasks (db w1))"
    unfolding w1(5) by (rule fresh_ids_later [OF assms(11)]) (use w1(6,7) in simp_all)
  then obtain w' rows where r: "executeWorkflow E iid def w1 = Some w'" "tasks (db w') = tasks (db w1) @ rows"
      "list_all2 (created_by iid b) acts rows" "phase_of iid (db w') = phase_of iid (db w1)"
      "status_of iid (db w') = status_of iid (db w1)"
    using execute_operation_state [OF assms(1) l _ _ assms(9,10)] assms(7,8) ph by metis
  have "advanceFromState E inst evs st def w = Some (Inr (), w')"
    using w1(1) r(1) assms(3) by (simp add: advanceFromState_def)
  with r w1(4,5) at show thesis by (intro that [of w' rows]) simp_all
qed

text \<open>
  When the last open task of a state is finished the workflow goes on: the goroutine that
  \<open>CompleteTask\<close> and \<open>FailTask\<close> start returns without error, the instance is in the state its
  transition names, with the status it had, and the tasks of that state exist, one per action.
\<close>

theorem finished_tasks_enter_next_state:
  fixes w :: "'z engine_world_scheme"
  assumes "calm E" and "readable (db w) iid" and "instance_at iid (db w) = Some r"
    and "open_tasks iid (db w) = []"
    and "reg_cache w (wi_WorkflowDefinitionID r) = Some c" and "clock E (tick w + 3) < cd_expiresAt c"
    and "findState (cd_def c) (wi_CurrentPhase r) = Some st" and "\<not> End st"
    and "GetTransition st = next" and "next \<noteq> []"
    and "findState (cd_def c) next = Some (OperationState b acts)" and "acts \<noteq> []"
    and "\<forall>a \<in> set acts. marshalable (json_of_map (ac_Arguments a))"
    and "fresh_ids E (tick w) (8 * length acts + 12) (tasks (db w))"
  shows "\<exists>w' rows. run_job E (Job_resumeWorkflowAfterTask iid) w = Some w' \<and>
    phase_of iid (db w') = Some next \<and> status_of iid (db w') = Some (wi_Status r) \<and>
    tasks (db w') = tasks (db w) @ rows \<and>
    list_all2 (\<lambda>a r. tk_WorkflowInstanceID r = iid \<and> tk_StateName r = bs_Name b \<and>
      tk_ActivityName r = ac_Name a \<and> tk_Status r = ''PENDING'') acts rows"
proof -
  let ?w3 = "next_tick (next_tick (next_tick w))"
  obtain inst evs where l: "loads (db w) iid inst evs" using readable_loads [OF assms(2)] by blast
  have f: "wi_ID inst = iid" "wi_CurrentPhase inst = wi_CurrentPhase r"
      "wi_WorkflowDefinitionID inst = wi_WorkflowDefinitionID r"
    using l assms(3) by (auto simp: loads_def instance_at_def dest: scanInstance_fields row_at_SomeD)
  have load: "LoadInstance E iid (next_tick w) = (Inr (inst, evs), ?w3)"
    using l by (simp add: LoadInstance_calm [OF assms(1)])
  have "reg_cache ?w3 = reg_cache w" by (simp add: next_tick_def)
  then have get: "reg_Get E (wi_WorkflowDefinitionID r) ?w3 = (Inr (cd_def c), next_tick ?w3)"
    using assms(5,6) by (intro reg_Get_cached) (simp_all add: numeral_3_eq_3)
  have run: "resumeWorkflowAfterTask E iid w = advanceFromState E inst evs st (cd_def c) (next_tick ?w3)"
    using load get f(2,3) assms(4,7)
    by (simp add: resumeWorkflowAfterTask_def CountPendingTasks_def db_query_calm [OF assms(1)] db_rows_calm [OF assms(1)])
  have "fresh_ids E (tick (next_tick ?w3)) (8 * length acts + 8) (tasks (db (next_tick ?w3)))"
    using fresh_ids_later [OF assms(14)] by simp
  then obtain w' :: "'z engine_world_scheme" and rows where
      r: "advanceFromState E inst evs st (cd_def c) (next_tick ?w3) = Some (Inr (), w')"
      "phase_of iid (db w') = Some next" "status_of iid (db w') = status_of iid (db w)"
      "tasks (db w') = tasks (db w) @ rows" "list_all2 (created_by iid b) acts rows"
    using advanceFromState_enters [OF assms(1) _ f(1) _ assms(8-13), of "next_tick ?w3" evs] assms(2,3)
    by (auto simp: phase_of_def)
  have "list_all2 (\<lambda>a r. tk_WorkflowInstanceID r = iid \<and> tk_StateName r = bs_Name b \<and>
      tk_ActivityName r = ac_Name a \<and> tk_Status r = ''PENDING'') acts rows"
    using r(5) by (rule list_all2_mono) (auto simp: created_by_def created_row_def)
  with r run assms(3) show ?thesis by (auto simp: run_job_def status_of_def)
qed

text \<open>A definition with two states with actions, and a process whose instance has finished the first.\<close>

definition two_step_definition :: WorkflowDefinition where
  "two_step_definition = example_definition\<lparr>wd_States := [example_start,
     OperationState \<lparr>bs_Name = ''two'', bs_Type = ''operation'', bs_Transition = [], bs_EndFlag = True\<rparr>
       [example_action]]\<rparr>"

definition finished_process :: engine_world where
  "finished_process = example_process\<lparr>db := example_db\<lparr>tasks := [completed_row JNull 3 example_task]\<rparr>,
     reg_cache := [''wf'' \<mapsto> \<lparr>cd_def = two_step_definition, cd_expiresAt = 1000\<rparr>]\<rparr>"

lemma finished_defs:
  "wi_CurrentPhase example_instance = ''one''" "wi_WorkflowDefinitionID example_instance = ''wf''"
  "findState two_step_definition ''one'' = Some example_start"
  "findState two_step_definition ''two'' = Some (OperationState
     \<lparr>bs_Name = ''two'', bs_Type = ''operation'', bs_Transition = [], bs_EndFlag = True\<rparr> [example_action])"
  "\<not> End example_start" "GetTransition example_start = ''two''"
  by (simp_all add: example_instance_def two_step_definition_def findState_def example_definition_def
      example_start_def GetName_def End_def GetTransition_def)

theorem finished_tasks_enter_next_state_witness:
  "\<exists>w' r. run_job calm_env (Job_resumeWorkflowAfterTask 7) finished_process = Some w' \<and>
     phase_of 7 (db w') = Some ''two'' \<and> tasks (db w') = tasks (db finished_process) @ [r] \<and> tk_StateName r = ''two''"
proof -
  let ?c = "\<lparr>cd_def = two_step_definition, cd_expiresAt = 1000\<rparr>"
  have r: "readable (db finished_process) 7" "instance_at 7 (db finished_process) = Some example_instance"
      "open_tasks 7 (db finished_process) = []"
    by (simp_all add: finished_process_def readable_def example_defs instance_at_def scanInstance_def
        scan_event_def json_Unmarshal_def open_tasks_def open_status_def row_defs)
  have c: "reg_cache finished_process (wi_WorkflowDefinitionID example_instance) = Some ?c"
      "clock calm_env (tick finished_process + 3) < cd_expiresAt ?c"
    by (simp_all add: finished_process_def example_process_def finished_defs)
  have m: "\<forall>a \<in> set [example_action]. marshalable (json_of_map (ac_Arguments a))"
    by (simp add: example_action_def)
  have "fresh_ids calm_env (tick finished_process) (8 * length [example_action] + 12) (tasks (db finished_process))"
    by (rule calm_env_fresh) (simp_all add: finished_process_def example_process_def example_defs row_defs)
  from finished_tasks_enter_next_state [OF calm_env_calm r c _ finished_defs(5,6) _ _ _ m this]
  show ?thesis by (fastforce simp: finished_defs list_all2_Cons1)
qed

section \<open>Delay states\<close>

lemma processDelayState_bad:
  assumes "calm E" and "wi_ID inst \<in> instance_ids (db w)" and "ParseDuration (float_oob E) duration = Inl e"
  shows "timers (db (processDelayState E inst evs b duration w)) = timers (db w)"
    and "tasks (db (processDelayState E inst evs b duration w)) = tasks (db w)"
    and "phase_of (wi_ID inst) (db (processDelayState E inst evs b duration w)) = phase_of (wi_ID inst) (db w)"
    and "status_of (wi_ID inst) (db (processDelayState E inst evs b duration w)) = Some ''FAILED''"
proof -
  obtain r where "instance_at (wi_ID inst) (db w) = Some r"
    using assms(2) by (cases "instance_at (wi_ID inst) (db w)") (auto simp: instance_ids_def instance_at_def row_at_None_iff)
  with assms(3) show "timers (db (processDelayState E inst evs b duration w)) = timers (db w)"
    and "tasks (db (processDelayState E inst evs b duration w)) = tasks (db w)"
    and "phase_of (wi_ID inst) (db (processDelayState E inst evs b duration w)) = phase_of (wi_ID inst) (db w)"
    and "status_of (wi_ID inst) (db (processDelayState E inst evs b duration w)) = Some ''FAILED''"
    by (simp_all add: processDelayState_def UpdateWorkflowStatus_calm [OF assms(1)] status_of_def phase_of_def
        instance_at_status row_defs)
qed

definition delay_timer :: "uuid \<Rightarrow> uuid \<Rightarrow> BaseState \<Rightarrow> time \<Rightarrow> timer_row" where
  "delay_timer i iid b fireAt =
     \<lparr>tr_Timer = \<lparr>tm_ID = i, tm_WorkflowInstanceID = iid, tm_FireAt = fireAt, tm_TimerType = ''delay'',
        tm_Payload = JObj [(''next_state'', JStr (bs_Transition b))]\<rparr>, tr_Fired = False\<rparr>"

lemma processDelayState_timer:
  assumes "calm E" and "wi_ID inst \<in> instance_ids (db w)" and "ParseDuration (float_oob E) duration = Inr delay"
    and "fresh_uuid E (Suc (tick w)) \<notin> (\<lambda>t. tm_ID (tr_Timer t)) ` set (timers (db w))"
  shows "timers (db (processDelayState E inst evs b duration w)) = timers (db w) @
      [delay_timer (fresh_uuid E (Suc (tick w))) (wi_ID inst) b (timestamptz E (clock E (tick w) + sint delay))]"
    and "tasks (db (processDelayState E inst evs b duration w)) = tasks (db w)"
    and "phase_of (wi_ID inst) (db (processDelayState E inst evs b duration w)) = phase_of (wi_ID inst) (db w)"
    and "status_of (wi_ID inst) (db (processDelayState E inst evs b duration w)) = status_of (wi_ID inst) (db w)"
proof -
  let ?iid = "wi_ID inst"
  let ?row = "delay_timer (fresh_uuid E (Suc (tick w))) ?iid b (timestamptz E (clock E (tick w) + sint delay))"
  obtain w2 where c: "CreateTimer E ?iid (clock E (tick w) + sint delay) ''delay''
      (Some [(''next_state'', JStr (bs_Transition b))]) (next_tick w) = (Inr (fresh_uuid E (Suc (tick w))), w2)"
      "db w2 = (db w)\<lparr>timers := timers (db w) @ [?row]\<rparr>"
    using assms by (auto simp: CreateTimer_def uuid_New_simp json_Marshal_def json_of_map_def db_exec_calm
        sql_insert_def instance_ids_def delay_timer_def)
  obtain ev w3 where run: "processDelayState E inst evs b duration w =
      snd (AppendEvents E ?iid (wi_Version inst) [ev] w3)" "db w3 = db w2"
    using assms(3) c(1) by (simp add: processDelayState_def time_Now_simp Let_def)
  have i: "instance_at ?iid (db w3) = instance_at ?iid (db w)" using run(2) c(2) by (simp add: instance_at_def)
  note app = AppendEvents_calm_row [OF assms(1), of _ w3 ?iid ?iid "wi_Version inst" "[ev]"]
  show "status_of ?iid (db (processDelayState E inst evs b duration w)) = status_of ?iid (db w)"
    and "phase_of ?iid (db (processDelayState E inst evs b duration w)) = phase_of ?iid (db w)"
    using run(1) i app [of wi_Status] app [of wi_CurrentPhase] by (simp_all add: status_of_def phase_of_def row_defs)
  show "timers (db (processDelayState E inst evs b duration w)) = timers (db w) @ [?row]"
    and "tasks (db (processDelayState E inst evs b duration w)) = tasks (db w)"
    using AppendEvents_calm(3) [OF assms(1), of ?iid "wi_Version inst" "[ev]" w3] run c(2)
    by (simp_all add: append_effect_def)
qed

text \<open>
  A delay state sets exactly one timer, for the time of its entry plus the duration, that carries
  the state's transition; the instance keeps its status. A duration that does not parse fails
  the instance and sets none.
\<close>

theorem delay_state_sets_timer:
  assumes "calm E" and "wi_ID inst \<in> instance_ids (db w)"
    and "fresh_uuid E (Suc (tick w)) \<notin> (\<lambda>t. tm_ID (tr_Timer t)) ` set (timers (db w))"
  shows "case ParseDuration (float_oob E) duration of
    Inr delay \<Rightarrow>
      timers (db (processDelayState E inst evs b duration w)) = timers (db w) @
        [\<lparr>tr_Timer = \<lparr>tm_ID = fresh_uuid E (Suc (tick w)), tm_WorkflowInstanceID = wi_ID inst,
            tm_FireAt = timestamptz E (clock E (tick w) + sint delay), tm_TimerType = ''delay'',
            tm_Payload = JObj [(''next_state'', JStr (bs_Transition b))]\<rparr>, tr_Fired = False\<rparr>] \<and>
      status_of (wi_ID inst) (db (processDelayState E inst evs b duration w)) = status_of (wi_ID inst) (db w)
  | Inl e \<Rightarrow>
      timers (db (processDelayState E inst evs b duration w)) = timers (db w) \<and>
      status_of (wi_ID inst) (db (processDelayState E inst evs b duration w)) = Some ''FAILED''"
proof (cases "ParseDuration (float_oob E) duration")
  case (Inl e)
  with processDelayState_bad [OF assms(1,2) Inl] show ?thesis by simp
next
  case (Inr delay)
  with processDelayState_timer [OF assms(1,2) Inr assms(3)] show ?thesis by (simp add: delay_timer_def)
qed

theorem delay_state_sets_timer_witness:
  "map (\<lambda>t. tm_FireAt (tr_Timer t)) (timers (db (processDelayState calm_env loaded_instance []
     \<lparr>bs_Name = ''d'', bs_Type = ''delay'', bs_Transition = ''two'', bs_EndFlag = False\<rparr> ''PT1S'' example_process))) =
   [1000000100]"
proof -
  have "ParseDuration (float_oob calm_env) ''PT1S'' = Inr 1000000000" unfolding calm_env_sel by code_simp
  moreover have "wi_ID loaded_instance \<in> instance_ids (db example_process)" "timers (db example_process) = []"
      "tick example_process = 100"
    by (simp_all add: loaded_instance_def instance_ids_def example_process_def example_defs)
  ultimately show ?thesis
    using delay_state_sets_timer [OF calm_env_calm, where inst = loaded_instance and w = example_process
        and duration = "''PT1S''" and evs = "[]"
        and b = "\<lparr>bs_Name = ''d'', bs_Type = ''delay'', bs_Transition = ''two'', bs_EndFlag = False\<rparr>"]
    by simp
qed

text \<open>A timer that has been set stays, whatever statements are executed, and one that has its identifier is it.\<close>

lemma timer_stays:
  assumes "statements d d'" and "wf_db d'" and "t \<in> set (timers d)"
    and "\<forall>u \<in> set (timers d'). tm_ID (tr_Timer u) = tm_ID (tr_Timer t) \<longrightarrow> \<not> tr_Fired u"
  shows "row_at (\<lambda>u. tm_ID (tr_Timer u)) (timers d') (tm_ID (tr_Timer t)) = Some (t\<lparr>tr_Fired := False\<rparr>)"
proof -
  have "extends d d'" by (rule statements_extends [OF assms(1)])
  then obtain u where u: "u \<in> set (timers d')" "timer_le t u"
    using assms(3) unfolding extends_def by (blast dest: grows_member)
  then have "\<not> tr_Fired u" "tr_Timer u = tr_Timer t" using assms(4) by (auto simp: timer_le_def)
  then have "u = t\<lparr>tr_Fired := False\<rparr>" by (cases u; cases t) simp
  moreover have "row_at (\<lambda>u. tm_ID (tr_Timer u)) (timers d') (tm_ID (tr_Timer u)) = Some u"
    using u(1) assms(2) by (intro row_at_unique) (simp_all add: wf_db_def wf_timers_def)
  ultimately show ?thesis by simp
qed

text \<open>
  C24. A delay ends. A process enters a delay state; then any statements of any processes are executed;
  as long as the timer of the state has not been fired, a poll of the timer service at or after the time
  of the entry plus the duration, by whatever process and clock, fires it: the instance is then in the
  state that the transition of the delay state names, and the poll has started one goroutine for this
  instance, which executes it. (Stored times must keep their order, since both times are rounded by the
  database; the instances of all timers that are due can be read, with their definitions in the cache of
  the polling process; and no other timer of this instance is due.)
\<close>

theorem delay_ends:
  fixes v :: "'z engine_world_scheme"
  assumes "calm F" and "wf_db (db w)" and "iid \<in> instance_ids (db w)" and "wi_ID inst = iid"
    and "ParseDuration (float_oob F) duration = Inr delay"
    and "i = fresh_uuid F (Suc (tick w))" and "i \<notin> (\<lambda>t. tm_ID (tr_Timer t)) ` set (timers (db w))"
    and "statements (db (processDelayState F inst evs b duration w)) (db v)"
    and "\<forall>t \<in> set (timers (db v)). tm_ID (tr_Timer t) = i \<longrightarrow> \<not> tr_Fired t"
    and "calm E" and "mono (timestamptz E)" and "timestamptz F = timestamptz E"
    and "clock F (tick w) + sint delay \<le> clock E (tick v)"
    and "\<forall>t \<in> set (timers (db v)). \<exists>m. json_Unmarshal (tm_Payload (tr_Timer t)) = Inr m"
    and "is_due = due (timestamptz E (clock E (tick v)))"
    and "\<forall>t \<in> set (timers (db v)). is_due t \<longrightarrow>
      resumable E v (tick v + 10 * length (timers (db v)) + 2) (tm_WorkflowInstanceID (tr_Timer t))"
    and "\<forall>t \<in> set (timers (db v)). is_due t \<and> tm_WorkflowInstanceID (tr_Timer t) = iid \<longrightarrow> tm_ID (tr_Timer t) = i"
  shows "(\<exists>t \<in> set (timers (db (checkTimers E v))). tm_ID (tr_Timer t) = i \<and> tr_Fired t) \<and>
    phase_of iid (db (checkTimers E v)) =
      Some (if bs_Transition b = [] then wd_Start (cached_def v iid) else bs_Transition b) \<and>
    (\<exists>jobs. goroutines (checkTimers E v) = goroutines v @ jobs \<and>
       filter (\<lambda>j. \<exists>def. j = Job_executeWorkflow iid def) jobs = [Job_executeWorkflow iid (cached_def v iid)])"
proof -
  let ?t = "delay_timer i iid b (timestamptz E (clock F (tick w) + sint delay))"
  let ?d = "db (processDelayState F inst evs b duration w)"
  let ?key = "\<lambda>u. tm_ID (tr_Timer u)" and ?rows = "timers (db v)"
  have rows: "timers ?d = timers (db w) @ [?t]"
    using processDelayState_timer(1) [OF assms(1), of inst w duration delay evs b] assms(3-7,12) by simp
  have "evolves True F (db w) ?d" by (rule processDelayState_evolves [OF evolves.stays])
  then have "wf_db ?d" using calm_rely [OF assms(1)] assms(2) by (rule wf.evolves_keeps)
  then have wf: "wf_db (db v)" by (rule statements_wf [OF assms(8)])
  have id: "?key ?t = i" "tm_WorkflowInstanceID (tr_Timer ?t) = iid" "?t\<lparr>tr_Fired := False\<rparr> = ?t"
    by (simp_all add: delay_timer_def)
  have at: "row_at ?key ?rows i = Some ?t"
    using timer_stays [OF assms(8) wf, of ?t] assms(9) unfolding id by (simp add: rows)
  have uk: "unique_key ?key ?rows" using wf by (simp add: wf_db_def wf_timers_def)
  have is_due: "is_due ?t"
    using monoD [OF assms(11,13)] by (simp add: assms(15) due_def delay_timer_def)
  have "filter (\<lambda>t. is_due t \<and> tm_WorkflowInstanceID (tr_Timer t) = iid) ?rows = filter (\<lambda>t. ?key t = i) ?rows"
  proof (rule filter_cong [OF refl])
    fix t assume t: "t \<in> set ?rows"
    show "(is_due t \<and> tm_WorkflowInstanceID (tr_Timer t) = iid) = (?key t = i)"
    proof (cases "?key t = i")
      case True
      then have "t = ?t" using row_at_unique [OF uk t] at by simp
      with True is_due id(2) show ?thesis by simp
    next
      case False
      with assms(17) t show ?thesis by auto
    qed
  qed
  then have only: "filter (\<lambda>t. is_due t \<and> tm_WorkflowInstanceID (tr_Timer t) = iid) ?rows = [?t]"
    using filter_key_row_at [OF uk, of i] at by simp
  note resume = checkTimers_resume [OF assms(10,14) assms(16) [unfolded assms(15)], folded assms(15)]
  let ?job = "\<lambda>t. Job_executeWorkflow (tm_WorkflowInstanceID (tr_Timer t)) (cached_def v (tm_WorkflowInstanceID (tr_Timer t)))"
  have "filter (\<lambda>j. \<exists>def. j = Job_executeWorkflow iid def) (map ?job (filter is_due ?rows)) =
      map ?job (filter (\<lambda>t. is_due t \<and> tm_WorkflowInstanceID (tr_Timer t) = iid) ?rows)"
    by (simp add: filter_map o_def conj_commute)
  then have jobs: "filter (\<lambda>j. \<exists>def. j = Job_executeWorkflow iid def) (map ?job (filter is_due ?rows)) =
      [Job_executeWorkflow iid (cached_def v iid)]" unfolding only by (simp add: id)
  have "timer_payload ?t = Some [(''next_state'', JStr (bs_Transition b))]"
    by (simp add: timer_payload_def delay_timer_def json_Unmarshal_def)
  then have phase: "phase_of iid (db (checkTimers E v)) =
      Some (if bs_Transition b = [] then wd_Start (cached_def v iid) else bs_Transition b)"
    unfolding resume(2) only by (simp add: next_phase_def string_entry_def map_get_def)
  have "?t \<in> set ?rows" using at by (auto dest: row_at_SomeD)
  with is_due have "?t\<lparr>tr_Fired := True\<rparr> \<in> set (timers (db (checkTimers E v)))"
    unfolding checkTimers_rows [OF assms(10) wf assms(14)] assms(15) set_map by (intro image_eqI [of _ _ ?t]) simp_all
  then have "\<exists>t \<in> set (timers (db (checkTimers E v))). ?key t = i \<and> tr_Fired t"
    by (rule rev_bexI) (simp add: delay_timer_def)
  with phase jobs resume(1) show ?thesis by blast
qed

definition delayed_process :: engine_world where
  "delayed_process = example_process\<lparr>tick := 2000000000, db := db (processDelayState calm_env loaded_instance []
     \<lparr>bs_Name = ''d'', bs_Type = ''delay'', bs_Transition = ''two'', bs_EndFlag = False\<rparr> ''PT1S'' example_process),
     reg_cache := [''wf'' \<mapsto> \<lparr>cd_def = example_definition, cd_expiresAt = 3000000000\<rparr>]\<rparr>"

theorem delay_ends_witness:
  "phase_of 7 (db (checkTimers calm_env delayed_process)) = Some ''two'' \<and>
   Job_executeWorkflow 7 example_definition \<in> set (goroutines (checkTimers calm_env delayed_process))"
proof -
  let ?b = "\<lparr>bs_Name = ''d'', bs_Type = ''delay'', bs_Transition = ''two'', bs_EndFlag = False\<rparr>"
  let ?d = "db (processDelayState calm_env loaded_instance [] ?b ''PT1S'' example_process)"
  have p: "ParseDuration (float_oob calm_env) ''PT1S'' = Inr 1000000000" unfolding calm_env_sel by code_simp
  have w: "wf_db (db example_process)" "wi_ID loaded_instance \<in> instance_ids (db example_process)"
      "timers (db example_process) = []" "tick example_process = 100" "wi_ID loaded_instance = 7"
    using example_wf by (simp_all add: loaded_instance_def instance_ids_def example_process_def example_defs)
  have t: "timers ?d = [delay_timer 101 7 ?b 1000000100]"
    using processDelayState_timer(1) [OF calm_env_calm w(2) p, of "[]" ?b] w(3-5) by simp
  have v: "db delayed_process = ?d" "tick delayed_process = 2000000000"
      "reg_cache delayed_process = [''wf'' \<mapsto> \<lparr>cd_def = example_definition, cd_expiresAt = 3000000000\<rparr>]"
    by (simp_all add: delayed_process_def)
  have "list_all (\<lambda>h. case scan_event h of Inl e \<Rightarrow> False | Inr ev \<Rightarrow> True) (workflow_history ?d)"
    and "case instance_at 7 ?d of None \<Rightarrow> False
      | Some r \<Rightarrow> (case scanInstance (Inr r) of Inl e \<Rightarrow> False | Inr x \<Rightarrow> wi_WorkflowDefinitionID r = ''wf'')"
    by code_simp+
  moreover have "(\<exists>y. x = Inr y) = (case x of Inl e \<Rightarrow> False | Inr y \<Rightarrow> True)" for x :: "go_error + HistoryEvent"
    by (cases x) simp_all
  ultimately have "readable ?d 7 \<and> (\<exists>r. instance_at 7 ?d = Some r \<and> wi_WorkflowDefinitionID r = ''wf'')"
    by (simp add: readable_def list_all_iff) (auto split: option.splits sum.splits)
  then obtain r where r: "readable ?d 7" "instance_at 7 ?d = Some r" "wi_WorkflowDefinitionID r = ''wf''" by blast
  have c: "cached_def delayed_process 7 = example_definition" using r by (simp add: cached_def_def v)
  have res: "resumable calm_env delayed_process (tick delayed_process + 10 * length (timers (db delayed_process)) + 2) 7"
    using r by (simp add: resumable_def v t)
  have st: "statements ?d (db delayed_process)" by (simp add: statements_def v)
  have m: "mono (timestamptz calm_env)" by (simp add: mono_def)
  note ends = delay_ends [OF calm_env_calm w(1) w(2) [unfolded w(5)] w(5) p refl _ st _ calm_env_calm m refl _ _ refl]
  have "phase_of 7 (db (checkTimers calm_env delayed_process)) = Some ''two'' \<and>
      (\<exists>jobs. goroutines (checkTimers calm_env delayed_process) = goroutines delayed_process @ jobs \<and>
         filter (\<lambda>j. \<exists>def. j = Job_executeWorkflow 7 def) jobs = [Job_executeWorkflow 7 (cached_def delayed_process 7)])"
    using ends w(3,4) res unfolding v(1) t by (simp add: v delay_timer_def json_Unmarshal_def)
  then obtain jobs where jobs: "goroutines (checkTimers calm_env delayed_process) = goroutines delayed_process @ jobs"
      "filter (\<lambda>j. \<exists>def. j = Job_executeWorkflow 7 def) jobs = [Job_executeWorkflow 7 example_definition]"
      "phase_of 7 (db (checkTimers calm_env delayed_process)) = Some ''two''" unfolding c by blast
  have "Job_executeWorkflow 7 example_definition \<in> set (filter (\<lambda>j. \<exists>def. j = Job_executeWorkflow 7 def) jobs)"
    unfolding jobs(2) by simp
  with jobs(1,3) show ?thesis by simp
qed

section \<open>Handing out tasks\<close>

definition matching :: "string list \<Rightarrow> task_row \<Rightarrow> bool" where
  "matching caps r \<longleftrightarrow> tk_Status r = ''PENDING'' \<and> (caps = [] \<or> (\<exists>c \<in> set (tk_Capabilities r). c \<in> set caps))"

lemma pending_rows_matching: "pending_rows caps d = order_by_asc tk_CreatedAt (filter (matching caps) (tasks d))"
  unfolding pending_rows_def by (rule arg_cong [where f = "order_by_asc tk_CreatedAt"], rule filter_cong)
    (auto simp: matching_def overlaps_def)

lemma ClaimPendingTask_calm:
  assumes "calm E"
  shows "ClaimPendingTask E caps a w = (case pending_rows caps (db w) of
      [] \<Rightarrow> (Inr None, next_tick w)
    | r # _ \<Rightarrow> (case scanTask r of
        Inl e \<Rightarrow> (Inl e, next_tick w)
      | Inr t \<Rightarrow> (Inr (Some t), snd (AssignTask E (tk_ID t) a (clock E (Suc (tick w)) + five_minutes)
          (next_tick (next_tick w))))))"
  by (auto simp: ClaimPendingTask_def GetPendingTasks_def db_query_calm [OF assms] db_rows_calm [OF assms] limit_offset_def scanTasks_def
      time_Now_simp Let_def AssignTask_def ignore_rows_calm [OF assms] split: list.split sum.split)

lemma poll_effect:
  assumes "calm E" and "wf_db (db w)" and "ClaimPendingTask E caps a w = (Inr result, w')"
  shows "case result of
      None \<Rightarrow> (\<forall>r \<in> set (tasks (db w)). \<not> matching caps r) \<and> db w' = db w
    | Some t \<Rightarrow>
        (\<exists>r \<in> set (tasks (db w)). tk_ID r = tk_ID t \<and> matching caps r \<and>
           (\<forall>r' \<in> set (tasks (db w)). matching caps r' \<longrightarrow> tk_CreatedAt r \<le> tk_CreatedAt r')) \<and>
        task_cycle (db w') = (task_cycle (db w))(tk_ID t \<mapsto> Assigned a (timestamptz E (clock E (tick w + 1) + five_minutes)))"
proof (cases "pending_rows caps (db w)")
  case Nil
  then have "filter (matching caps) (tasks (db w)) = []"
    by (metis length_0_conv length_order_by(1) pending_rows_matching)
  with Nil assms(3) show ?thesis by (auto simp: ClaimPendingTask_calm [OF assms(1)] filter_empty_conv)
next
  case (Cons r rs)
  have rows: "order_by_asc tk_CreatedAt (filter (matching caps) (tasks (db w))) = r # rs"
    using Cons by (simp add: pending_rows_matching)
  have "sorted (map tk_CreatedAt (r # rs))" unfolding rows [symmetric] by (rule sorted_order_by_asc)
  moreover have "set (r # rs) = {x \<in> set (tasks (db w)). matching caps x}" unfolding rows [symmetric] by simp
  ultimately have r: "r \<in> set (tasks (db w))" "matching caps r"
      "\<forall>r' \<in> set (tasks (db w)). matching caps r' \<longrightarrow> tk_CreatedAt r \<le> tk_CreatedAt r'" by auto
  obtain t where t: "scanTask r = Inr t" "result = Some t"
      "w' = snd (AssignTask E (tk_ID t) a (clock E (Suc (tick w)) + five_minutes) (next_tick (next_tick w)))"
    using assms(3) Cons by (auto simp: ClaimPendingTask_calm [OF assms(1)] split: sum.splits)
  have id: "tk_ID t = tk_ID r" using t(1) by (auto simp: scanTask_def split: sum.splits)
  have at: "row_at tk_ID (tasks (db w)) (tk_ID t) = Some r"
    using r(1) id assms(2) by (auto simp: wf_db_def wf_tasks_def intro: row_at_unique)
  have "task_cycle (db w') = (task_cycle (db w))(tk_ID t \<mapsto> Assigned a (timestamptz E (clock E (tick w + 1) + five_minutes)))"
    using at r(2) t(3) guarded_update(1) [of "db w" "assigned_row a (timestamptz E (clock E (Suc (tick w)) + five_minutes))
        (clock E (Suc (Suc (tick w))))" "tk_ID t" "\<lambda>r. tk_Status r = ''PENDING''"] assms(2)
    by (auto simp: fun_eq_iff AssignTask_def ignore_rows_calm [OF assms(1)] matching_def row_defs lifecycle_of_def)
  with r id t(2) show ?thesis by auto
qed

text \<open>
  C14. Polling hands out the oldest task that fits: a pending task fits a poll that names no
  capability, whatever the task requires, and a poll that names some when the task requires one of
  those. When a poll returns a task, it fits, no task that fits is older, and it is now assigned to
  the agent for five minutes, all other tasks as they were; when it returns none, no task fits and
  nothing has changed.
\<close>

theorem poll_assigns_oldest:
  assumes "calm E" and "wf_db (db w)" and "ClaimPendingTask E caps a w = (Inr result, w')"
  shows "case result of
      None \<Rightarrow> (\<forall>r \<in> set (tasks (db w)). \<not> matching caps r) \<and> db w' = db w
    | Some t \<Rightarrow>
        (\<exists>r \<in> set (tasks (db w)). tk_ID r = tk_ID t \<and> matching caps r \<and>
           (\<forall>r' \<in> set (tasks (db w)). matching caps r' \<longrightarrow> tk_CreatedAt r \<le> tk_CreatedAt r')) \<and>
        task_cycle (db w') = (task_cycle (db w))(tk_ID t \<mapsto> Assigned a (timestamptz E (clock E (tick w + 1) + five_minutes)))"
  using assms by (rule poll_effect)

theorem poll_assigns_oldest_witness:
  "task_cycle (db (snd (ClaimPendingTask calm_env [''cap''] ''alice'' example_world))) 9 =
     Some (Assigned ''alice'' (101 + five_minutes))"
proof -
  have "pending_rows [''cap''] (db example_world) = [example_task]"
    by (simp add: pending_rows_def order_by_asc_def example_defs overlaps_def)
  moreover obtain t where t: "scanTask example_task = Inr t" "tk_ID t = 9"
    by (simp add: scanTask_def example_defs json_Unmarshal_def scan_optional_def)
  ultimately have p: "ClaimPendingTask calm_env [''cap''] ''alice'' example_world =
      (Inr (Some t), snd (ClaimPendingTask calm_env [''cap''] ''alice'' example_world))"
    by (simp add: ClaimPendingTask_calm [OF calm_env_calm])
  have "wf_db (db example_world)" "tick example_world = 100" using example_wf by (simp_all add: example_world_def)
  with poll_assigns_oldest [OF calm_env_calm _ p] t(2) show ?thesis by simp
qed

end
