(* ===== verification/Definition_Properties.thy ===== *)
theory Definition_Properties
  imports Public_Server Example_Environment
begin

text \<open>
  Properties of workflow definitions: parsing, ISO 8601 durations with their wrap-around, and the
  cache of the registry.
\<close>

section \<open>Parsing\<close>

text \<open>
  C38. A definition that parses has one state per node of the document, in their order, each an
  operation or a delay as its node says; it keeps the document's text, its identifier and its
  start state, and has no tenant.
\<close>

theorem parse_result:
  assumes "Parse Y data = Inr def"
  shows "\<exists>raw. yaml_Unmarshal Y data = Inr raw \<and> wd_ID def = raw_ID raw \<and> wd_Start def = raw_Start raw \<and>
    wd_YAML def = data \<and> wd_Tenant def = [] \<and>
    list_all2 (\<lambda>node st. \<exists>name typ. decode_base Y node = Inr (name, typ) \<and>
      (typ = ''operation'' \<and> (\<exists>b acts. decode_operation Y node = Inr (b, acts) \<and> st = OperationState b acts) \<or>
       typ = ''delay'' \<and> (\<exists>b dur. decode_delay Y node = Inr (b, dur) \<and> st = DelayState b dur)))
      (raw_States raw) (wd_States def)"
proof -
  have kind: "\<exists>name typ. decode_base Y node = Inr (name, typ) \<and>
      (typ = ''operation'' \<and> (\<exists>b acts. decode_operation Y node = Inr (b, acts) \<and> st = OperationState b acts) \<or>
       typ = ''delay'' \<and> (\<exists>b dur. decode_delay Y node = Inr (b, dur) \<and> st = DelayState b dur))"
    if "parseState Y node = Inr st" for node st
    using that by (auto simp: parseState_def split: sum.splits if_splits)
  obtain raw where raw: "yaml_Unmarshal Y data = Inr raw"
    "list_all2 (\<lambda>n s. parseState Y n = Inr s) (raw_States raw) (wd_States def)"
    "wd_ID def = raw_ID raw" "wd_Start def = raw_Start raw"
    using assms by (rule Parse_states)
  with Parse_fields [OF assms] show ?thesis
    by (intro exI [of _ raw]) (auto elim!: list_all2_mono dest!: kind)
qed

theorem parse_result_witness: "length (wd_States example_definition) = 2 \<and> wd_Tenant example_definition = []"
proof -
  from parse_result [OF example_parse] obtain raw where "yaml_Unmarshal example_yaml ''wf'' = Inr raw"
    "wd_Tenant example_definition = []" "length (raw_States raw) = length (wd_States example_definition)"
    by (auto dest: list_all2_lengthD)
  then show ?thesis by (auto simp: example_yaml_def)
qed

section \<open>Durations\<close>

lemma digits_split:
  assumes "list_all is_digit ds" and "\<not> is_digit u"
  shows "takeWhile is_digit (ds @ u # r) = ds" and "dropWhile is_digit (ds @ u # r) = u # r"
  using assms by (induction ds) auto

lemma opt_group_digits:
  "list_all is_digit ds \<Longrightarrow> ds \<noteq> [] \<Longrightarrow> \<not> is_digit u \<Longrightarrow> opt_group u (ds @ u # r) = (ds, r)"
  by (simp add: opt_group_def digits_split)

lemma not_digits [simp]:
  "\<not> is_digit CHR ''D''" "\<not> is_digit CHR ''H''" "\<not> is_digit CHR ''M''" "\<not> is_digit CHR ''T''"
  "\<not> is_digit CHR ''P''" "\<not> is_digit CHR ''S''" "\<not> is_digit CHR ''.''"
  by (simp_all add: is_digit_def)

lemma go_rejects_P: "time_ParseDuration (CHR ''P'' # s) = None"
  by (simp add: time_ParseDuration_def duration_items.simps duration_item_def Let_def)

lemma Atoi_word: "digits_value s < 2 ^ 63 \<Longrightarrow> Atoi_value s = word_of_int (digits_value s)"
  by (simp add: Atoi_value_def)

text \<open>A component of a duration with its unit, absent when it has no digits.\<close>

definition component :: "string \<Rightarrow> char \<Rightarrow> string" where
  "component ds u = (if ds = [] then [] else ds @ [u])"

lemma opt_group_component:
  assumes "list_all is_digit ds" and "\<not> is_digit u" and "opt_group u r = ([], r)"
  shows "opt_group u (component ds u @ r) = (ds, r)"
  using assms opt_group_digits [of ds u r] by (simp add: component_def)

lemma opt_group_other:
  assumes "list_all is_digit ds" and "\<not> is_digit v" and "u \<noteq> v"
  shows "opt_group u (component ds v) = ([], component ds v)"
  using assms digits_split [of ds v "[]"] by (simp add: component_def opt_group_def)

definition iso_text :: "string \<Rightarrow> string \<Rightarrow> string \<Rightarrow> string" where
  "iso_text d h m =
     ''P'' @ component d CHR ''D'' @
     (if h = [] \<and> m = [] then [] else ''T'' @ component h CHR ''H'' @ component m CHR ''M'')"

lemma iso_text_groups:
  assumes "list_all is_digit d" and "list_all is_digit h" and "list_all is_digit m"
  shows "iso8601Re (iso_text d h m) = Some (d, h, m, [])"
proof -
  let ?t = "if h = [] \<and> m = [] then [] else ''T'' @ component h CHR ''H'' @ component m CHR ''M''"
  have "opt_group CHR ''D'' ?t = ([], ?t)" by (simp add: opt_group_def)
  then have 1: "opt_group CHR ''D'' (component d CHR ''D'' @ ?t) = (d, ?t)" using assms(1) by (simp add: opt_group_component)
  have 2: "opt_group CHR ''H'' (component h CHR ''H'' @ component m CHR ''M'') = (h, component m CHR ''M'')"
    using assms(2,3) by (simp add: opt_group_component opt_group_other)
  have 3: "opt_group CHR ''M'' (component m CHR ''M'') = (m, [])"
    using opt_group_component [OF assms(3), of "CHR ''M''" "[]"] by (simp add: opt_group_def)
  show ?thesis using 1 2 3 by (auto simp: iso8601Re_def iso_text_def opt_seconds_def)
qed

text \<open>What \<open>Atoi\<close> makes of a number too large for an \<open>int\<close>: the largest one.\<close>

definition clamped :: "string \<Rightarrow> int" where
  "clamped ds = min (digits_value ds) (2 ^ 63 - 1)"

lemma Atoi_clamped: "Atoi_value ds = word_of_int (clamped ds)"
  by (simp add: Atoi_value_def clamped_def min_def)

text \<open>
  C39. An ISO duration of days, hours and minutes, each of them optional, is read as the number of
  nanoseconds it names, but nothing is checked: a number of days, hours or minutes that does not fit an
  \<open>int\<close> counts as the largest \<open>int\<close>, and the three products are added modulo \<open>2 ^ 64\<close>. When the sum is
  less than \<open>2 ^ 63\<close> it is the value of the duration; a text without any component is refused.
\<close>

theorem iso_duration_value:
  assumes "list_all is_digit d" and "list_all is_digit h" and "list_all is_digit m"
    and "ns = clamped d * 86400000000000 + clamped h * 3600000000000 + clamped m * 60000000000"
  shows "if d = [] \<and> h = [] \<and> m = [] then \<exists>e. ParseDuration oob (iso_text d h m) = Inl e
    else \<exists>x. ParseDuration oob (iso_text d h m) = Inr x \<and> x = word_of_int ns \<and> (ns < 2 ^ 63 \<longrightarrow> sint x = ns)"
proof -
  have "clamped ds \<ge> 0" for ds
  proof -
    have "0 \<le> foldl (\<lambda>n c. 10 * n + int (digit_val c)) k xs" if "0 \<le> k" for k xs
      using that by (induction xs arbitrary: k) simp_all
    then show ?thesis by (simp add: clamped_def digits_value_def)
  qed
  then have "0 \<le> ns" by (simp add: assms(4))
  then have "sint (word_of_int ns :: 64 word) = ns" if "ns < 2 ^ 63"
    using that by (simp add: signed_of_int signed_take_bit_int_eq_self)
  moreover have "time_ParseDuration (iso_text d h m) = None" by (simp add: iso_text_def go_rejects_P)
  moreover have "Atoi_value [] = 0" by (simp add: Atoi_value_def digits_value_def)
  moreover have "clamped [] = 0" by (simp add: clamped_def digits_value_def)
  ultimately show ?thesis
    using iso_text_groups [OF assms(1-3)] unfolding assms(4)
    by (auto simp: ParseDuration_def Let_def Atoi_clamped)
qed

theorem iso_duration_value_witness:
  "\<exists>x. ParseDuration 0 ''P1DT2H30M'' = Inr x \<and> sint x = 95400000000000"
  using iso_duration_value [of "''1''" "''2''" "''30''" _ 0, OF _ _ _ refl]
  by (simp add: iso_text_def component_def clamped_def is_digit_def digits_value_def digit_val_def)

text \<open>
  The missing check has a consequence: a delay of 106752 days, one more than an \<open>int64\<close> of
  nanoseconds holds, parses without error to a negative duration, a timer in the past.
\<close>

theorem long_delay_overflows: "\<exists>x. ParseDuration oob ''P106752D'' = Inr x \<and> sint x < 0"
proof -
  have iso: "iso8601Re ''P106752D'' = Some (''106752'', [], [], [])"
    by (simp add: iso8601Re_def opt_group_def is_digit_def)
  have "digits_value ''106752'' = 106752" by (simp add: digits_value_def digit_val_def)
  then have "ParseDuration oob ''P106752D'' = Inr (word_of_int 106752 * 24 * 3600000000000)"
    using go_rejects_P [of "''106752D''"] by (simp add: ParseDuration_def iso Atoi_word Let_def)
  moreover have "sint (word_of_int 106752 * 24 * 3600000000000 :: 64 word) < 0"
    by code_simp
  ultimately show ?thesis by blast
qed

section \<open>The registry\<close>

text \<open>
  A definition is read from the highest version in the table and served from the cache for five
  minutes: within that time \<open>Get\<close> returns the same definition whatever the table holds by
  then, without a query.
\<close>

theorem registry_serves_cache:
  fixes w w2 :: "'z registry_world_scheme"
  assumes "calm E" and "reg_cache w i = None" and "latest_yaml i (db w) = Inr content"
    and "Parse (yaml E) content = Inr def" and "reg_Get E i w = (r, w1)"
    and "reg_cache w2 i = reg_cache w1 i" and "clock E (tick w2) < clock E (Suc (tick w)) + five_minutes"
  shows "r = Inr def \<and> reg_Get E i w2 = (Inr def, next_tick w2)"
proof -
  have load: "r = Inr def \<and> reg_cache w1 i = Some \<lparr>cd_def = def, cd_expiresAt = clock E (Suc (tick w)) + five_minutes\<rparr>"
    using assms(2-5) by (auto simp: reg_Get_def reg_load_def db_query_calm [OF assms(1)] db_rows_calm [OF assms(1)] time_Now_def)
  with assms(6,7) show ?thesis by (simp add: reg_Get_def time_Now_def)
qed

definition registry_process :: registry_world where
  "registry_process = \<lparr>db = example_db, tick = 100, broker = [], reg_has_db = True, reg_cache = (\<lambda>_. None)\<rparr>"

theorem registry_serves_cache_witness:
  "fst (reg_Get calm_env ''wf'' ((snd (reg_Get calm_env ''wf'' registry_process))\<lparr>db := empty_database\<rparr>)) =
   Inr example_definition"
proof -
  let ?w1 = "snd (reg_Get calm_env ''wf'' registry_process)"
  have get: "reg_Get calm_env ''wf'' registry_process = (fst (reg_Get calm_env ''wf'' registry_process), ?w1)"
    by simp
  have "latest_yaml ''wf'' (db registry_process) = Inr ''wf''"
    by (simp add: latest_yaml_def registry_process_def example_defs order_by_desc_def first_row_def)
  moreover have "tick ?w1 = 102"
    by (simp add: reg_Get_def reg_load_def db_query_calm db_rows_calm time_Now_def registry_process_def latest_yaml_def
        example_defs order_by_desc_def first_row_def next_tick_def example_parse)
  ultimately show ?thesis
    using registry_serves_cache [OF calm_env_calm _ _ _ get, of "''wf''" example_definition "?w1\<lparr>db := empty_database\<rparr>"]
    by (simp add: registry_process_def example_parse five_minutes_def)
qed

lemma next_tick_cache [simp]: "reg_cache (next_tick w) = reg_cache w"
  by (simp add: next_tick_def)

lemma more_cache: "world.more w' = world.more w \<Longrightarrow> reg_cache w' = reg_cache w"
  by (cases w; cases w') (auto simp: registry_world.defs)

lemma db_exec_cache: "db_exec E stmt w = (r, w') \<Longrightarrow> reg_cache w' = reg_cache w"
  using db_exec_frame(3) [of E stmt w] by (intro more_cache) simp

lemma db_query_cache: "db_query E q w = (r, w') \<Longrightarrow> reg_cache w' = reg_cache w"
  unfolding db_query_def by (rule db_exec_cache)

text \<open>
  Updating a definition, and deleting one, does not touch the cache: for up to five minutes new
  instances are started from the old text.
\<close>

theorem definition_changes_leave_cache:
  "reg_cache (snd (UpdateWorkflowDefinition E req w)) = reg_cache w \<and>
   reg_cache (snd (api_DeleteWorkflowDefinition E i w)) = reg_cache w"
proof
  show "reg_cache (snd (UpdateWorkflowDefinition E req w)) = reg_cache w"
    by (auto simp: UpdateWorkflowDefinition_def UpdateWorkflowDefinitionYAML_def
        split: sum.splits prod.splits dest!: db_exec_cache db_query_cache)
  have "reg_cache (snd (DeleteWorkflowDefinition E u w)) = reg_cache w" for u
    by (auto simp: DeleteWorkflowDefinition_def require_rows_def wrap_err_def
        split: sum.splits prod.splits dest!: db_exec_cache)
  then show "reg_cache (snd (api_DeleteWorkflowDefinition E i w)) = reg_cache w"
    by (auto simp: api_DeleteWorkflowDefinition_def split: sum.splits prod.splits) (metis snd_conv)+
qed

text \<open>
  A definition that comes from a file is never stored: the parser sets no tenant, so the store
  that follows always fails, and the database is not even asked.
\<close>

theorem file_definition_not_stored: "db (snd (getFromFile E i w)) = db w"
proof -
  have "db (snd (reg_Store E def v)) = db v" if "wd_Tenant def = []" for def and v :: "'b registry_world_scheme"
    using that by (simp add: reg_Store_def)
  then show ?thesis
    by (auto simp: getFromFile_def Let_def ParseFile_def reg_Store_def dest: Parse_fields(2) split: sum.splits)
qed

section \<open>Creating and reading a definition\<close>

lemma upsert_new:
  assumes "upsert_definition i def now d = Inr (u, d')" and "wd_Version def = ''1''"
    and "\<forall>r \<in> set (workflow_definitions d). dr_DefinitionID r \<noteq> wd_ID def"
  shows "latest_yaml (wd_ID def) d' = Inr (wd_YAML def)"
proof -
  have v: "int4_of_text ''1'' = Some 1" by code_simp
  let ?row = "\<lparr>dr_ID = i, dr_TenantID = wd_Tenant def, dr_Name = wd_Name def, dr_DefinitionID = wd_ID def,
      dr_Version = 1, dr_YAMLContent = wd_YAML def, dr_CreatedBy = None, dr_CreatedAt = now, dr_UpdatedAt = now\<rparr>"
  have "rows_affected (\<lambda>r. version_key r = (wd_Tenant def, wd_ID def, 1)) (workflow_definitions d) = 0"
    using assms(3) by (auto simp: rows_affected_zero_iff version_key_def)
  then have "workflow_definitions d' = workflow_definitions d @ [?row]"
    using assms(1,2) v by (auto simp: upsert_definition_def sql_insert_Inr split: if_splits sum.splits)
  moreover have "filter (\<lambda>r. dr_DefinitionID r = wd_ID def) (workflow_definitions d) = []"
    using assms(3) by (auto simp: filter_empty_conv)
  ultimately show ?thesis by (simp add: latest_yaml_def order_by_desc_def first_row_def)
qed

text \<open>
  C31. Of a created definition only its document survives: when \<open>CreateWorkflowDefinition\<close> has
  succeeded for an identifier the table did not have, \<open>GetWorkflowDefinition\<close> finds it under the
  identifier that was returned, with the same document; but the name is the document's and the
  tenant empty, whatever the request, and the first response, said.
\<close>

theorem created_definition_read_back:
  fixes w w1 :: "'z registry_world_scheme"
  assumes "calm E" and "CreateWorkflowDefinition E req w = (Inr msg, w1)"
    and "Parse (yaml E) (cwd_YamlContent req) = Inr def" and "wd_ID def \<noteq> []"
    and "\<forall>r \<in> set (workflow_definitions (db w)). dr_DefinitionID r \<noteq> wd_ID def"
  shows "wm_Name msg = cwd_Name req \<and> wm_Tenant msg = cwd_Tenant req \<and>
    fst (GetWorkflowDefinition E (wm_Id msg) w1) = Inr
      \<lparr>wm_Id = wm_Id msg, wm_Tenant = [], wm_Name = wd_Name def, wm_DefinitionId = wm_Id msg, wm_Version = 1,
       wm_YamlContent = cwd_YamlContent req, wm_CreatedBy = [], wm_CreatedAt = None, wm_UpdatedAt = None\<rparr>"
proof -
  obtain tid w0 where t: "tenant_id E (cwd_Tenant req) w = (Inr tid, w0)"
    using assms(2,3) by (auto simp: CreateWorkflowDefinition_def split: if_splits sum.splits prod.splits)
  have db0: "db w0 = db w"
    using t by (auto simp: tenant_id_def db_query_calm [OF assms(1)] db_rows_calm [OF assms(1)])
  let ?def = "def\<lparr>wd_Tenant := tid, wd_Name := cwd_Name req, wd_Version := ''1'', wd_YAML := cwd_YamlContent req\<rparr>"
  obtain u where s: "reg_Store E ?def w0 = (Inr u, w1)"
    and m: "wm_Id msg = wd_ID def" "wm_Name msg = cwd_Name req" "wm_Tenant msg = cwd_Tenant req"
    using assms(2,3,4) t by (auto simp: CreateWorkflowDefinition_def Let_def split: if_splits sum.splits prod.splits)
  obtain i now d' where up: "upsert_definition i ?def now (db w0) = Inr ((), d')" and d': "db w1 = d'"
    and c: "reg_cache w1 (wd_ID def) = None"
    using s by (auto simp: reg_Store_def uuid_New_def db_exec_calm [OF assms(1)] Let_def split: if_splits sum.splits)
  have y: "latest_yaml (wd_ID def) (db w1) = Inr (cwd_YamlContent req)"
    using upsert_new [OF up] assms(5) by (simp add: db0 d')
  have "fst (reg_Get E (wd_ID def) w1) = Inr def"
    using c y assms(3) by (simp add: reg_Get_def reg_load_def db_query_calm [OF assms(1)] db_rows_calm [OF assms(1)] time_Now_def)
  then show ?thesis
    using m Parse_fields [OF assms(3)] by (auto simp: GetWorkflowDefinition_def split: prod.splits)
qed

theorem created_definition_read_back_witness:
  "let r = CreateWorkflowDefinition calm_env \<lparr>cwd_Tenant = ''acme'', cwd_Name = ''Mine'', cwd_YamlContent = ''wf'',
       cwd_CreatedBy = []\<rparr> (registry_process\<lparr>db := example_db\<lparr>workflow_definitions := []\<rparr>\<rparr>)
   in \<exists>msg msg'. fst r = Inr msg \<and> wm_Name msg = ''Mine'' \<and>
     fst (GetWorkflowDefinition calm_env (wm_Id msg) (snd r)) = Inr msg' \<and> wm_Name msg' = ''Workflow''"
proof -
  let ?req = "\<lparr>cwd_Tenant = ''acme'', cwd_Name = ''Mine'', cwd_YamlContent = ''wf'', cwd_CreatedBy = []\<rparr>"
  let ?w = "registry_process\<lparr>db := example_db\<lparr>workflow_definitions := []\<rparr>\<rparr>"
  let ?r = "CreateWorkflowDefinition calm_env ?req ?w"
  have "case fst ?r of Inl e \<Rightarrow> False | Inr msg \<Rightarrow> True" by code_simp
  then obtain msg where r: "?r = (Inr msg, snd ?r)" by (auto split: sum.splits intro: that [OF prod_eqI])
  have "Parse (yaml calm_env) (cwd_YamlContent ?req) = Inr example_definition" "wd_ID example_definition \<noteq> []"
    by (simp_all add: example_parse) (simp add: example_definition_def)
  with created_definition_read_back [OF calm_env_calm r] have "wm_Name msg = ''Mine'' \<and>
      (\<exists>msg'. fst (GetWorkflowDefinition calm_env (wm_Id msg) (snd ?r)) = Inr msg' \<and> wm_Name msg' = ''Workflow'')"
    by (auto simp: example_definition_def)
  with r show ?thesis by (metis (no_types, lifting) fst_conv)
qed

end
