(* ===== verification/Process_Properties.thy ===== *)
theory Process_Properties
  imports Supervisor_Properties Orchestrator_Main Public_Server
begin

text \<open>
  Properties of the two commands: what the orchestrator starts when it starts, and the worker it
  starts for a deployed workflow.
\<close>

section \<open>Recovery at start-up\<close>

lemma StartWorker_fresh:
  assumes "\<forall>n args. \<exists>pid. proc_Start E n args = Inr pid" and "map_of (sup_workers w) iid = None"
  shows "sup_commands (snd (StartWorker E iid def ten w)) =
      sup_commands w @ [worker_args E (sup_binary w) iid def ten]"
    and "map fst (sup_workers (snd (StartWorker E iid def ten w))) = map fst (sup_workers w) @ [iid]"
    and "sup_binary (snd (StartWorker E iid def ten w)) = sup_binary w"
proof -
  obtain pid where "proc_Start E (tick w) (worker_args E (sup_binary w) iid def ten) = Inr pid"
    using assms(1) by blast
  then show "sup_commands (snd (StartWorker E iid def ten w)) =
      sup_commands w @ [worker_args E (sup_binary w) iid def ten]"
    and "map fst (sup_workers (snd (StartWorker E iid def ten w))) = map fst (sup_workers w) @ [iid]"
    and "sup_binary (snd (StartWorker E iid def ten w)) = sup_binary w"
    using assms(2) by (simp_all add: StartWorker_def Let_def time_Now_def next_tick_def)
qed

lemma restart_workers_commands:
  assumes "\<forall>n args. \<exists>pid. proc_Start E n args = Inr pid"
  shows "distinct (map fst (sup_workers w) @ map wi_ID insts) \<Longrightarrow>
    sup_commands (restart_workers E insts w) = sup_commands w @
      map (\<lambda>i. worker_args E (sup_binary w) (wi_ID i) (wi_WorkflowDefinitionID i) (wi_Tenant i)) insts \<and>
    map fst (sup_workers (restart_workers E insts w)) = map fst (sup_workers w) @ map wi_ID insts"
proof (induction insts arbitrary: w)
  case (Cons i insts)
  have "map_of (sup_workers w) (wi_ID i) = None" using Cons.prems by (auto simp: map_of_None_fst)
  note fresh = StartWorker_fresh [OF assms this]
  let ?w = "snd (StartWorker E (wi_ID i) (wi_WorkflowDefinitionID i) (wi_Tenant i) w)"
  have "distinct (map fst (sup_workers ?w) @ map wi_ID insts)" using Cons.prems by (auto simp: fresh)
  from Cons.IH [OF this] show ?case by (simp add: fresh)
qed simp

lemma startup_recovery_calm:
  assumes "calm E" and "\<forall>r \<in> set (workflow_instances (db w)). \<exists>m. json_Unmarshal (wi_DimensionalState r) = Inr m"
  obtains insts where "startup_recovery E w = restart_workers E insts (next_tick w)"
    and "map (\<lambda>i. (wi_ID i, wi_WorkflowDefinitionID i, wi_Tenant i)) insts =
      map (\<lambda>r. (wi_ID r, wi_WorkflowDefinitionID r, wi_Tenant r))
        (filter (\<lambda>r. wi_Status r = ''RUNNING'') (workflow_instances (db w)))"
proof -
  let ?rows = "filter (\<lambda>r. wi_Status r = ''RUNNING'') (workflow_instances (db w))"
  have "\<forall>r \<in> set ?rows. \<exists>i. scanInstance (Inr r) = Inr i"
  proof
    fix r assume "r \<in> set ?rows"
    then obtain m where "json_Unmarshal (wi_DimensionalState r) = Inr m" using assms(2) by auto
    then show "\<exists>i. scanInstance (Inr r) = Inr i" by (simp add: scanInstance_def)
  qed
  from scan_rows_all [OF this]
  obtain insts where i: "scan_rows (\<lambda>r. scanInstance (Inr r)) ?rows = Inr insts" by (rule exE)
  have "map (\<lambda>i. (wi_ID i, wi_WorkflowDefinitionID i, wi_Tenant i)) insts =
      map (\<lambda>r. (wi_ID r, wi_WorkflowDefinitionID r, wi_Tenant r)) ?rows"
    using i by (rule scan_rows_map [rotated]) (auto simp: scanInstance_def split: sum.splits)
  moreover have "startup_recovery E w = restart_workers E insts (next_tick w)"
    using i by (simp add: startup_recovery_def ListActiveInstances_def queryInstances_def db_query_calm [OF assms(1)] db_rows_calm [OF assms(1)])
  ultimately show thesis by (rule that [rotated])
qed

text \<open>
  C34. A restarted orchestrator gives every running instance its worker back: one command per row
  with the status \<open>RUNNING\<close>, in the order of the table, with the instance, the definition and the
  tenant of the row, and no other command.
\<close>

theorem recovery_restarts_running:
  assumes "calm E" and "wf_db (db w)" and "\<forall>n args. \<exists>pid. proc_Start E n args = Inr pid"
    and "\<forall>r \<in> set (workflow_instances (db w)). \<exists>m. json_Unmarshal (wi_DimensionalState r) = Inr m"
  shows "sup_commands (startup_recovery E (NewSupervisor binary w)) =
      map (\<lambda>r. worker_args E binary (wi_ID r) (wi_WorkflowDefinitionID r) (wi_Tenant r))
        (filter (\<lambda>r. wi_Status r = ''RUNNING'') (workflow_instances (db w))) \<and>
    map fst (ListWorkers (startup_recovery E (NewSupervisor binary w))) =
      map wi_ID (filter (\<lambda>r. wi_Status r = ''RUNNING'') (workflow_instances (db w)))"
proof -
  let ?rows = "filter (\<lambda>r. wi_Status r = ''RUNNING'') (workflow_instances (db w))"
  let ?w = "NewSupervisor binary w"
  have db: "db ?w = db w" by (simp add: NewSupervisor_def)
  obtain insts where run: "startup_recovery E ?w = restart_workers E insts (next_tick ?w)"
    and eq: "map (\<lambda>i. (wi_ID i, wi_WorkflowDefinitionID i, wi_Tenant i)) insts =
      map (\<lambda>r. (wi_ID r, wi_WorkflowDefinitionID r, wi_Tenant r)) ?rows"
    using startup_recovery_calm [OF assms(1), of ?w] assms(4) unfolding db by blast
  have ids: "map wi_ID insts = map wi_ID ?rows" using arg_cong [OF eq, of "map fst"] by (simp add: o_def)
  have cmds: "map (\<lambda>i. worker_args E binary (wi_ID i) (wi_WorkflowDefinitionID i) (wi_Tenant i)) insts =
      map (\<lambda>r. worker_args E binary (wi_ID r) (wi_WorkflowDefinitionID r) (wi_Tenant r)) ?rows"
    using arg_cong [OF eq, of "map (\<lambda>(i, d, t). worker_args E binary i d t)"] by (simp add: o_def)
  have "distinct (map wi_ID ?rows)"
    using assms(2) by (simp add: wf_db_def wf_events_def unique_key_def distinct_map_filter)
  then have "distinct (map fst (sup_workers (next_tick ?w)) @ map wi_ID insts)"
    by (simp add: ids NewSupervisor_def)
  moreover have "sup_binary (next_tick ?w) = binary" "sup_workers (next_tick ?w) = []" "sup_commands (next_tick ?w) = []"
    by (simp_all add: next_tick_def NewSupervisor_def)
  ultimately show ?thesis
    using restart_workers_commands [OF assms(3), of "next_tick ?w" insts]
    unfolding run ListWorkers_def by (simp add: ids cmds)
qed

theorem recovery_restarts_running_witness:
  "sup_commands (startup_recovery calm_env (NewSupervisor ''bin'' example_supervisor)) =
     [worker_args calm_env ''bin'' 7 ''wf'' ''t'']"
proof -
  have "db example_supervisor = example_db" by (simp add: example_supervisor_def)
  moreover have "\<forall>n args. \<exists>pid. proc_Start calm_env n args = Inr pid" by (simp add: calm_env_def)
  moreover have "\<forall>r \<in> set (workflow_instances example_db). \<exists>m. json_Unmarshal (wi_DimensionalState r) = Inr m"
    by (simp add: example_defs json_Unmarshal_def)
  ultimately show ?thesis
    using recovery_restarts_running [OF calm_env_calm, of example_supervisor "''bin''"] example_wf
    by (simp add: example_defs)
qed

section \<open>The worker of a deployed workflow\<close>

text \<open>The registry caches only what it has parsed, and a parsed definition has no tenant.\<close>

definition untenanted :: "'z registry_world_scheme \<Rightarrow> bool" where
  "untenanted w \<longleftrightarrow> (\<forall>i c. reg_cache w i = Some c \<longrightarrow> wd_Tenant (cd_def c) = [])"

lemma db_exec_registry: "db_exec E f w = (r, w') \<Longrightarrow> registry_world.more w' = registry_world.more w \<and> reg_cache w' = reg_cache w"
  using db_exec_frame(3) [of E f w] by (cases w; cases w') (auto simp: registry_world.defs)

lemma db_query_registry: "db_query E q w = (r, w') \<Longrightarrow> registry_world.more w' = registry_world.more w \<and> reg_cache w' = reg_cache w"
  using db_query_frame(3) [of E q w] by (cases w; cases w') (auto simp: registry_world.defs)

lemma reg_Store_registry:
  "reg_Store E def w = (r, w') \<Longrightarrow> registry_world.more w' = registry_world.more w \<and> (untenanted w \<longrightarrow> untenanted w')"
  by (auto simp: reg_Store_def uuid_New_simp next_tick_def untenanted_def split: if_splits prod.splits sum.splits
      dest!: db_exec_registry)

lemma reg_Get_registry:
  assumes "reg_Get E i w = (r, w')" and "untenanted w"
  shows "registry_world.more w' = registry_world.more w \<and> untenanted w' \<and> (\<forall>def. r = Inr def \<longrightarrow> wd_Tenant def = [])"
proof -
  have from_file: "registry_world.more v' = registry_world.more v \<and> untenanted v' \<and> (\<forall>def. x = Inr def \<longrightarrow> wd_Tenant def = [])"
    if "getFromFile E i v = (x, v')" and "untenanted v" for x and v v' :: "'a registry_world_scheme"
    using that reg_Store_registry [OF surjective_pairing, of E _ "next_tick v"]
    by (auto simp: getFromFile_def Let_def ParseFile_def untenanted_def next_tick_def dest: Parse_fields(2) split: sum.splits)
  have load: "registry_world.more v' = registry_world.more v \<and> untenanted v' \<and> (\<forall>def. x = Inr def \<longrightarrow> wd_Tenant def = [])"
    if "reg_load E i v = (x, v')" and u: "untenanted v" for x and v v' :: "'a registry_world_scheme"
  proof -
    obtain q v1 where q: "db_query E (\<lambda>n d. latest_yaml i d) v = (q, v1)" by fastforce
    note f = db_query_registry [OF q]
    have u1: "untenanted v1" using f u by (simp add: untenanted_def)
    show ?thesis
    proof (cases q)
      case (Inl e)
      with that(1) q f from_file [OF _ u1] show ?thesis using u1 by (auto simp: reg_load_def split: if_splits)
    next
      case (Inr yaml_text)
      have "wd_Tenant def = []" if "Parse (yaml E) yaml_text = Inr def" for def by (rule Parse_fields(2) [OF that])
      with Inr that(1) q f u1 show ?thesis
        by (cases "Parse (yaml E) yaml_text") (auto simp: reg_load_def time_Now_simp Let_def next_tick_def untenanted_def split: if_splits)
    qed
  qed
  show ?thesis
  proof (cases "reg_cache w i")
    case None
    with assms load show ?thesis by (simp add: reg_Get_def)
  next
    case (Some c)
    let ?v = "(next_tick w)\<lparr>reg_cache := (reg_cache w)(i := None)\<rparr>"
    have "untenanted ?v" "wd_Tenant (cd_def c) = []" using assms(2) Some by (auto simp: untenanted_def)
    with Some assms load [of ?v r w'] show ?thesis
      by (auto simp: reg_Get_def time_Now_simp next_tick_def untenanted_def split: if_splits)
  qed
qed

lemma CreateWorkflowInstance_more: "CreateWorkflowInstance E inst w = (r, w') \<Longrightarrow> world.more w' = world.more w"
  by (auto simp: CreateWorkflowInstance_def split: sum.splits dest!: db_exec_more)

lemma AppendEvents_more_pair: "AppendEvents E iid v evs w = (r, w') \<Longrightarrow> world.more w' = world.more w"
  using AppendEvents_more [of E iid v evs w] by simp

lemma StartWorkflow_more: "StartWorkflow E def ten input w = (r, w') \<Longrightarrow> world.more w' = world.more w"
  by (auto simp: StartWorkflow_def Let_def uuid_New_simp time_Now_simp next_tick_def split: prod.splits sum.splits
      dest!: CreateWorkflowInstance_more AppendEvents_more_pair)

lemma world_more_sup:
  fixes w w' :: "'z supervisor_world_scheme"
  assumes "world.more w' = world.more w"
  shows "engine_world.more w' = engine_world.more w" and "reg_cache w' = reg_cache w"
  using assms by (cases w; cases w'; auto simp: supervisor_world.defs)+

lemma registry_more_sup:
  fixes w w' :: "'z supervisor_world_scheme"
  assumes "registry_world.more w' = registry_world.more w"
  shows "engine_world.more w' = engine_world.more w"
  using assms by (cases w; cases w'; auto simp: supervisor_world.defs)

text \<open>
  C37. A deployed workflow gets a worker that exits at once. Whenever \<open>DeployWorkflow\<close> succeeds it has
  started exactly one command, for the instance it answers with, and the process of that command, in any
  environment, ends in \<open>main\<close> before it has touched anything: the definition comes out of the registry,
  where definitions have no tenant, and the worker refuses an empty tenant.
\<close>

theorem deployed_worker_exits:
  fixes w :: "'z supervisor_world_scheme"
  assumes "DeployWorkflow E defId w = (Inr resp, w')"
    and "\<forall>i c. reg_cache w i = Some c \<longrightarrow> wd_Tenant (cd_def c) = []"
  shows "\<exists>command. sup_commands w' = sup_commands w @ [command] \<and> command ! 2 = dwr_InstanceId resp \<and>
    (\<forall>E' A getenv v. worker_process E' A getenv (tl command) v =
       (Exited ''instance-id, workflow-def-id, and tenant are required'', v))"
proof -
  obtain def w1 where get: "reg_Get E defId w = (Inr def, w1)"
    using assms(1) by (auto simp: DeployWorkflow_def split: prod.splits sum.splits)
  have "untenanted w" using assms(2) by (simp add: untenanted_def)
  from reg_Get_registry [OF get this]
  have ten: "wd_Tenant def = []" and f1: "registry_world.more w1 = registry_world.more w" by simp_all
  obtain iid w2 where sw: "StartWorkflow E def [] None w1 = (Inr iid, w2)"
    and st: "StartWorker E iid (wd_ID def) [] w2 = (Inr (), w')" and resp: "dwr_InstanceId resp = uuid_String E iid"
    using assms(1) get ten by (auto simp: DeployWorkflow_def start_instance_def split: prod.splits sum.splits)
  have "engine_world.more w2 = engine_world.more w"
    using world_more_sup(1) [OF StartWorkflow_more [OF sw]] registry_more_sup [OF f1] by simp
  then have cmds: "sup_commands w2 = sup_commands w" by (rule sup_fields_frame(6))
  let ?command = "worker_args E (sup_binary w2) iid (wd_ID def) []"
  have "sup_commands w' = sup_commands w @ [?command]"
    using st cmds by (auto simp: StartWorker_def time_Now_def Let_def split: if_splits sum.splits)
  moreover have "?command ! 2 = dwr_InstanceId resp" by (simp add: worker_args_def resp)
  moreover have "worker_main getenv (tl ?command) = None" for getenv by (simp add: worker_main_args)
  ultimately show ?thesis by (intro exI [of _ ?command]) (simp add: worker_process_def)
qed

theorem deployed_worker_exits_witness:
  "\<exists>command. sup_commands (snd (DeployWorkflow calm_env ''wf'' example_supervisor)) = [command] \<and>
     (\<forall>A getenv (v :: worker_world). worker_process calm_env A getenv (tl command) v =
       (Exited ''instance-id, workflow-def-id, and tenant are required'', v))"
proof -
  have "case fst (DeployWorkflow calm_env ''wf'' example_supervisor) of Inl e \<Rightarrow> False | Inr resp \<Rightarrow> True" by code_simp
  then have "\<exists>resp. fst (DeployWorkflow calm_env ''wf'' example_supervisor) = Inr resp" by (simp split: sum.splits)
  then obtain resp where r: "DeployWorkflow calm_env ''wf'' example_supervisor =
      (Inr resp, snd (DeployWorkflow calm_env ''wf'' example_supervisor))"
    by (metis prod.collapse)
  have c: "sup_commands example_supervisor = []" by (simp add: example_supervisor_def)
  have "\<forall>i c. reg_cache example_supervisor i = Some c \<longrightarrow> wd_Tenant (cd_def c) = []"
    by (auto simp: example_supervisor_def example_definition_def split: if_splits)
  from deployed_worker_exits [OF r this] c show ?thesis by auto
qed

end
