(* ===== verification/Event_Numbering.thy ===== *)
theory Event_Numbering
  imports Engine_Steps
begin

text \<open>
  The numbering of the event history. A database is \<open>tight\<close> when the events of every instance
  are numbered one to n in the order they were recorded (signals, which have the number 0, aside)
  and its version counts them. An engine that has read an instance knows \<open>seen\<close>: while the version
  stays what it was, the history is as long as it was. \<open>follows\<close> is what every commit must respect.
\<close>

section \<open>Tight histories\<close>

definition events_of :: "uuid \<Rightarrow> database \<Rightarrow> history_row list" where
  "events_of iid d = filter (\<lambda>h. hr_Instance h = iid) (workflow_history d)"

definition numbers_of :: "uuid \<Rightarrow> database \<Rightarrow> int list" where
  "numbers_of iid d = filter (\<lambda>n. n \<noteq> 0) (map hr_SequenceNum (events_of iid d))"

definition one_to :: "nat \<Rightarrow> int list" where
  "one_to n = map int [1..<Suc n]"

lemma one_to_simps [simp]: "one_to 0 = []" "one_to (Suc n) = one_to n @ [int n + 1]"
  by (simp_all add: one_to_def)

definition tight :: "database \<Rightarrow> bool" where
  "tight d \<longleftrightarrow> wf_db d \<and>
     (\<forall>iid. numbers_of iid d = one_to (length (numbers_of iid d))) \<and>
     (\<forall>r \<in> set (workflow_instances d). wi_Version r = int (length (events_of (wi_ID r) d)))"

definition seen :: "uuid \<Rightarrow> int \<Rightarrow> nat \<Rightarrow> database \<Rightarrow> bool" where
  "seen iid v n d \<longleftrightarrow>
     (\<exists>r. row_at wi_ID (workflow_instances d) iid = Some r \<and> v \<le> wi_Version r \<and>
        (wi_Version r = v \<longrightarrow> length (numbers_of iid d) = n))"

definition follows :: "database \<Rightarrow> database \<Rightarrow> bool" where
  "follows d d' \<longleftrightarrow> tight d \<and> tight d' \<and> (\<forall>iid v n. seen iid v n d \<longrightarrow> seen iid v n d')"

lemma follows_refl: "tight d \<Longrightarrow> follows d d"
  by (simp add: follows_def)

lemma follows_trans: "follows d d1 \<Longrightarrow> follows d1 d2 \<Longrightarrow> follows d d2"
  by (simp add: follows_def)

lemma follows_tight: "follows d d' \<Longrightarrow> tight d'"
  by (simp add: follows_def)

lemma follows_seen: "follows d d' \<Longrightarrow> seen iid v n d \<Longrightarrow> seen iid v n d'"
  by (simp add: follows_def)

text \<open>The version has moved on: whatever number is expected, the next append will be refused.\<close>

lemma spent_iff:
  "(\<forall>n. seen iid v n d) \<longleftrightarrow> (\<exists>r. row_at wi_ID (workflow_instances d) iid = Some r \<and> v < wi_Version r)"
proof
  assume all: "\<forall>n. seen iid v n d"
  obtain r where r: "row_at wi_ID (workflow_instances d) iid = Some r" "v \<le> wi_Version r"
      "wi_Version r = v \<longrightarrow> length (numbers_of iid d) = Suc (length (numbers_of iid d))"
    using spec [OF all, of "Suc (length (numbers_of iid d))"] unfolding seen_def by blast
  then have "v < wi_Version r" by (cases "wi_Version r = v") auto
  with r(1) show "\<exists>r. row_at wi_ID (workflow_instances d) iid = Some r \<and> v < wi_Version r" by blast
qed (auto simp: seen_def)

section \<open>Commits that do not append\<close>

lemma tight_same_history:
  assumes "tight d" and "wf_db d'" and "workflow_history d' = workflow_history d"
    and "\<And>r'. r' \<in> set (workflow_instances d') \<Longrightarrow>
      (\<exists>r \<in> set (workflow_instances d). wi_ID r' = wi_ID r \<and> wi_Version r' = wi_Version r) \<or>
      wi_ID r' \<notin> instance_ids d \<and> wi_Version r' = 0"
  shows "tight d'"
proof -
  have ev: "events_of i d' = events_of i d" "numbers_of i d' = numbers_of i d" for i
    by (simp_all add: events_of_def numbers_of_def assms(3))
  have "wi_Version r' = int (length (events_of (wi_ID r') d'))" if "r' \<in> set (workflow_instances d')" for r'
    using assms(4) [OF that]
  proof
    assume "wi_ID r' \<notin> instance_ids d \<and> wi_Version r' = 0"
    moreover from this have "events_of (wi_ID r') d = []"
      using assms(1) by (auto simp: tight_def wf_db_def wf_events_def events_of_def filter_empty_conv)
    ultimately show ?thesis by (simp add: ev)
  qed (use assms(1) in \<open>auto simp: tight_def ev\<close>)
  with assms(1,2) show ?thesis by (simp add: tight_def ev)
qed

lemma follows_same_history:
  assumes "tight d" and "tight d'" and "workflow_history d' = workflow_history d"
    and "\<And>iid r. row_at wi_ID (workflow_instances d) iid = Some r \<Longrightarrow>
      \<exists>r'. row_at wi_ID (workflow_instances d') iid = Some r' \<and> wi_Version r' = wi_Version r"
  shows "follows d d'"
proof -
  have "numbers_of i d' = numbers_of i d" for i
    by (simp add: events_of_def numbers_of_def assms(3))
  with assms show ?thesis by (fastforce simp: follows_def seen_def)
qed

lemma quiet_step:
  assumes "store_step False d d'" and "tight d"
  shows "workflow_history d' = workflow_history d"
    and "\<And>r'. r' \<in> set (workflow_instances d') \<Longrightarrow>
      (\<exists>r \<in> set (workflow_instances d). wi_ID r' = wi_ID r \<and> wi_Version r' = wi_Version r) \<or>
      wi_ID r' \<notin> instance_ids d \<and> wi_Version r' = 0"
    and "\<And>iid r. row_at wi_ID (workflow_instances d) iid = Some r \<Longrightarrow>
      \<exists>r'. row_at wi_ID (workflow_instances d') iid = Some r' \<and> wi_Version r' = wi_Version r"
  using assms(1)
proof (induction rule: store_step.induct)
  case (definition_upsert i def now d d')
  {
    case 1
    then show ?case using definition_upsert by (auto elim: upsert_cases)
  next
    case 2
    then show ?case using definition_upsert by (auto elim!: upsert_cases)
  next
    case 3
    then show ?case using definition_upsert by (auto elim!: upsert_cases)
  }
qed ((auto simp: sql_insert_Inr instance_ids_def row_at_append set_sql_update row_defs
    status.row_at_update phase.row_at_update), metis+)

lemma quiet_follows:
  assumes "store_step False d d'" and "tight d"
  shows "follows d d'"
proof -
  have "wf_db d'" using wf.step [OF assms(1)] assms(2) by (simp add: tight_def)
  then have "tight d'"
    using tight_same_history [OF assms(2) _ quiet_step(1,2) [OF assms]] by blast
  with assms(2) show ?thesis by (rule follows_same_history) (rule quiet_step [OF assms])+
qed

text \<open>
  Result sets arrive complete, and the other clients are engines too: their commits respect the
  numbering.
\<close>

definition orderly :: "'n environment \<Rightarrow> bool" where
  "orderly E \<longleftrightarrow> complete_rows E \<and> (\<forall>n d. tight d \<longrightarrow> follows d (others E n d))"

lemma calm_orderly: "calm E \<Longrightarrow> orderly E"
  by (simp add: calm_def orderly_def follows_refl)

interpretation follows: db_invariant False "follows d0" for d0
  by unfold_locales (blast intro: follows_trans follows_tight quiet_follows)

lemma orderly_rely: "orderly E \<Longrightarrow> rely E (follows d0)"
  by (auto simp: orderly_def rely_def intro: follows_trans follows_tight)

lemma evolves_follows:
  "evolves False E d d' \<Longrightarrow> orderly E \<Longrightarrow> follows d0 d \<Longrightarrow> follows d0 d'"
  using follows.evolves_keeps orderly_rely by blast

section \<open>Appends\<close>

text \<open>The number an engine may give the next event: a signal's zero, or one more than it has seen.\<close>

definition next_number :: "uuid \<Rightarrow> int \<Rightarrow> int \<Rightarrow> database \<Rightarrow> bool" where
  "next_number iid v k d \<longleftrightarrow> k = 0 \<or> (\<exists>n. seen iid v n d \<and> k = int n + 1)"

lemma follows_next_number: "follows d d' \<Longrightarrow> next_number iid v k d \<Longrightarrow> next_number iid v k d'"
  by (auto simp: next_number_def dest: follows_seen)

text \<open>An append as a commit finds it: the version matches and the number is the expected one.\<close>

definition expected_append :: "uuid \<Rightarrow> int \<Rightarrow> HistoryEvent \<Rightarrow> database \<Rightarrow> bool" where
  "expected_append iid v ev d \<longleftrightarrow> tight d \<and>
     0 < rows_affected (version_matches iid v) (workflow_instances d) \<and> accepts_events iid [ev] d \<and>
     next_number iid v (he_SequenceNum ev) d"

lemma append_wf: "expected_append iid v ev d \<Longrightarrow> wf_db (append_effect iid v now [ev] d)"
  using wf.step [OF store_step.append [OF TrueI]] by (simp add: expected_append_def tight_def)

lemma append_row:
  assumes "expected_append iid v ev d"
  obtains r where "row_at wi_ID (workflow_instances d) iid = Some r" and "wi_Version r = v"
  using version_row_hit [of "workflow_instances d" iid v] assms
  by (auto simp: expected_append_def tight_def wf_db_def wf_events_def)

lemma append_row_at:
  assumes "expected_append iid v ev d"
  shows "row_at wi_ID (workflow_instances (append_effect iid v now [ev] d)) i =
    map_option (\<lambda>r. if i = iid then version_row now r else r) (row_at wi_ID (workflow_instances d) i)"
proof -
  obtain r where r: "row_at wi_ID (workflow_instances d) iid = Some r" "wi_Version r = v"
    using assms by (rule append_row)
  have "row_at wi_ID (workflow_instances (append_effect iid v now [ev] d)) i =
      map_option (\<lambda>r. if version_matches iid v r then version_row now r else r) (row_at wi_ID (workflow_instances d) i)"
    by (simp add: append_effect_def version.row_at_update)
  with r show ?thesis
    by (cases "row_at wi_ID (workflow_instances d) i") (auto simp: version_matches_def dest: row_at_SomeD)
qed

lemma append_events_of:
  "events_of i (append_effect iid v now [ev] d) =
     events_of i d @ (if i = iid then history_rows iid now [ev] else [])"
  by (simp add: events_of_def append_effect_def)

lemma append_numbers_of:
  "numbers_of i (append_effect iid v now [ev] d) =
     numbers_of i d @ (if i = iid \<and> he_SequenceNum ev \<noteq> 0 then [he_SequenceNum ev] else [])"
  by (simp add: numbers_of_def append_events_of)

lemma append_number:
  assumes "expected_append iid v ev d" and "he_SequenceNum ev \<noteq> 0"
  shows "he_SequenceNum ev = int (length (numbers_of iid d)) + 1"
  using assms(1) by (rule append_row) (use assms in \<open>auto simp: expected_append_def next_number_def seen_def\<close>)

lemma append_tight:
  assumes "expected_append iid v ev d"
  shows "tight (append_effect iid v now [ev] d)" (is "tight ?d")
proof -
  have t: "numbers_of i d = one_to (length (numbers_of i d))" for i
    using assms by (simp add: expected_append_def tight_def)
  then have "numbers_of i ?d = one_to (length (numbers_of i ?d))" for i
    using append_number [OF assms] by (simp add: append_numbers_of)
  moreover have "wi_Version r' = int (length (events_of (wi_ID r') ?d))" if "r' \<in> set (workflow_instances ?d)" for r'
  proof -
    have "row_at wi_ID (workflow_instances ?d) (wi_ID r') = Some r'"
      using append_wf [OF assms] that by (intro row_at_unique) (simp_all add: wf_db_def wf_events_def)
    then obtain r where r: "row_at wi_ID (workflow_instances d) (wi_ID r') = Some r"
        "r' = (if wi_ID r' = iid then version_row now r else r)"
      by (auto simp: append_row_at [OF assms])
    then have "wi_Version r = int (length (events_of (wi_ID r') d))"
      using assms row_at_SomeD [OF r(1)] by (auto simp: expected_append_def tight_def)
    with r(2) show ?thesis by (cases "wi_ID r' = iid") (auto simp: append_events_of row_defs)
  qed
  ultimately show ?thesis using append_wf [OF assms] by (simp add: tight_def)
qed

lemma append_spent:
  assumes "expected_append iid v ev d"
  shows "seen iid v n (append_effect iid v now [ev] d)"
  using assms by (rule append_row) (simp add: seen_def append_row_at [OF assms] row_defs)

lemma append_seen:
  assumes "expected_append iid v ev d" and "seen i u n d"
  shows "seen i u n (append_effect iid v now [ev] d)"
proof (cases "i = iid")
  case True
  obtain r where "row_at wi_ID (workflow_instances d) iid = Some r" "wi_Version r = v"
    using assms(1) by (rule append_row)
  with True assms show ?thesis by (auto simp: seen_def append_row_at row_defs)
next
  case False
  with assms show ?thesis by (auto simp: seen_def append_row_at append_numbers_of)
qed

lemma append_follows: "expected_append iid v ev d \<Longrightarrow> follows d (append_effect iid v now [ev] d)"
  using append_tight append_seen by (simp add: follows_def expected_append_def)

lemma AppendEvents_follows:
  assumes "AppendEvents E iid v [ev] w = (r, w')" and "orderly E" and "follows d0 (db w)"
    and "next_number iid v (he_SequenceNum ev) (db w)"
  shows "follows d0 (db w')"
  using assms(1)
proof (cases rule: AppendEvents_cases)
  case (nothing e n n')
  then have "evolves False E (db w) (db w')" by (auto simp: evolves.others)
  then show ?thesis using assms(2,3) by (rule evolves_follows)
next
  case commits
  then obtain n n' now d where d: "d = others E n' (others E n (db w))"
    and hit: "0 < rows_affected (version_matches iid v) (workflow_instances d)"
    and acc: "accepts_events iid [ev] d" and w': "db w' = append_effect iid v now [ev] d"
    by (auto simp: appended_def)
  have "evolves False E (db w) d" unfolding d by (intro evolves.others evolves.stays)
  then have f: "follows (db w) d"
    using assms(2) follows_refl [OF follows_tight [OF assms(3)]] by (rule evolves_follows)
  have "expected_append iid v ev d"
    using follows_tight [OF f] hit acc follows_next_number [OF f assms(4)] by (simp add: expected_append_def)
  then have "follows d (db w')" unfolding w' by (rule append_follows)
  with assms(3) f show ?thesis by (blast intro: follows_trans)
qed

text \<open>
  With a reliable database, where no statement fails and no answer is lost, an append that carries the expected number either commits or finds that
  the version has moved on: in both cases the version is spent.
\<close>

definition reliable :: "'n environment \<Rightarrow> bool" where
  "reliable E \<longleftrightarrow> (\<forall>n. db_up E n \<and> db_ack E n)"

lemma seen_accepts:
  assumes "tight d" and "seen iid v n d" and "0 < rows_affected (version_matches iid v) (workflow_instances d)"
    and "he_SequenceNum ev = int n + 1" and "marshalable (json_of_map (he_Payload ev))"
  shows "accepts_events iid [ev] d"
proof -
  obtain r where "row_at wi_ID (workflow_instances d) iid = Some r" "wi_Version r = v"
    using version_row_hit [of "workflow_instances d" iid v] assms(1,3)
    by (auto simp: tight_def wf_db_def wf_events_def)
  with assms(2) have n: "numbers_of iid d = one_to n" using assms(1) by (auto simp: seen_def tight_def)
  have "(iid, int n + 1) \<notin> history_key ` set (workflow_history d)"
  proof
    assume "(iid, int n + 1) \<in> history_key ` set (workflow_history d)"
    then have "int n + 1 \<in> set (numbers_of iid d)"
      by (auto simp: history_key_def numbers_of_def events_of_def)
    then show False by (auto simp: n one_to_def)
  qed
  with assms(4,5) show ?thesis by (simp add: accepts_events_def)
qed

lemma AppendEvents_reliable:
  assumes "AppendEvents E iid v [ev] w = (r, w')" and "reliable E"
    and d: "d = others E (Suc (tick w)) (others E (tick w) (db w))"
  shows "rows_affected (version_matches iid v) (workflow_instances d) = 0 \<Longrightarrow> db w' = d"
    and "0 < rows_affected (version_matches iid v) (workflow_instances d) \<Longrightarrow> accepts_events iid [ev] d \<Longrightarrow>
      db w' = append_effect iid v (clock E (tick w)) [ev] d"
proof -
  have up: "db_up E n" "db_ack E n" for n using assms(2) by (simp_all add: reliable_def)
  show "db w' = d" if "rows_affected (version_matches iid v) (workflow_instances d) = 0"
    using assms(1) that by (auto simp: AppendEvents_unfold db_exec_def up Let_def d)
  assume hit: "0 < rows_affected (version_matches iid v) (workflow_instances d)"
    and acc: "accepts_events iid [ev] d"
  let ?now = "clock E (tick w)"
  let ?d1 = "d\<lparr>workflow_instances := sql_update (version_matches iid v) (version_row ?now) (workflow_instances d)\<rparr>"
  obtain d2 w3 where i: "insert_events E iid ?now [ev] ?d1
      (next_tick (next_tick (w\<lparr>db := others E (tick w) (db w)\<rparr>)\<lparr>db := d\<rparr>)) = (Inr d2, w3)"
    using version_matches_ids [OF hit] acc
    by (auto simp: accepts_events_def json_Marshal_def insert_history_eq up version.key_set_update)
  have "db w' = d2"
    using assms(1) hit i by (auto simp: AppendEvents_unfold db_exec_def up Let_def d split: prod.splits sum.splits)
  with append_tx_Inr(1) [OF i hit] show "db w' = append_effect iid v ?now [ev] d" by simp
qed

lemma AppendEvents_spends:
  assumes "AppendEvents E iid v [ev] w = (r, w')" and "orderly E" and "reliable E" and "tight (db w)"
    and "seen iid v n (db w)" and "he_SequenceNum ev = int n + 1" and "marshalable (json_of_map (he_Payload ev))"
  shows "seen iid v m (db w')"
proof -
  let ?d = "others E (Suc (tick w)) (others E (tick w) (db w))"
  have "evolves False E (db w) ?d" by (intro evolves.others evolves.stays)
  then have f: "follows (db w) ?d" using assms(2) follows_refl [OF assms(4)] by (rule evolves_follows)
  note d = follows_tight [OF f] follows_seen [OF f assms(5)]
  show ?thesis
  proof (cases "rows_affected (version_matches iid v) (workflow_instances ?d) = 0")
    case True
    then have "db w' = ?d" by (rule AppendEvents_reliable(1) [OF assms(1,3) refl])
    moreover have "seen iid v m ?d"
      using d True version_row_hit [of "workflow_instances ?d" iid v]
      by (auto simp: seen_def tight_def wf_db_def wf_events_def)
    ultimately show ?thesis by simp
  next
    case False
    then have hit: "0 < rows_affected (version_matches iid v) (workflow_instances ?d)" by simp
    note acc = seen_accepts [OF d hit assms(6,7)]
    have "expected_append iid v ev ?d"
      using d hit acc assms(6) by (auto simp: expected_append_def next_number_def)
    moreover have "db w' = append_effect iid v (clock E (tick w)) [ev] ?d"
      using AppendEvents_reliable(2) [OF assms(1,3) refl hit acc] .
    ultimately show ?thesis using append_spent by simp
  qed
qed

end
