(* ===== verification/Engine_Numbering.thy ===== *)
theory Engine_Numbering
  imports Event_Numbering
begin

text \<open>
  The engine numbers its events as a tight history requires. What it knows of an instance it got
  from \<open>LoadInstance\<close>; every operation between the load and the append keeps that knowledge.
\<close>

lemmas quiet_follows_ops =
  uuid_New_evolves [OF _ evolves.stays, THEN evolves_follows]
  time_Now_evolves [OF _ evolves.stays, THEN evolves_follows]
  instance_updates_evolve(2) [OF _ _ evolves.stays, THEN evolves_follows]
  instance_updates_evolve(3) [OF _ evolves.stays, THEN evolves_follows]

lemma update_follows:
  "orderly E \<Longrightarrow> st \<in> written_statuses \<Longrightarrow> follows d (db w) \<Longrightarrow>
   follows d (db (snd (UpdateWorkflowStatus E iid st w)))"
  by (rule evolves_follows [OF UpdateWorkflowStatus_snd [OF _ evolves.stays]])

section \<open>Loading\<close>

lemma history_of_positive:
  assumes "\<forall>k \<in> set (numbers_of iid d). 0 < k"
  shows "length (history_of iid 0 d) = length (numbers_of iid d)"
proof -
  have "hr_SequenceNum h \<noteq> 0 \<longleftrightarrow> 0 < hr_SequenceNum h"
    if "h \<in> set (workflow_history d)" "hr_Instance h = iid" for h
    using assms that by (auto simp: numbers_of_def events_of_def)
  then have "filter (\<lambda>h. hr_Instance h = iid \<and> 0 < hr_SequenceNum h) (workflow_history d) =
      filter (\<lambda>h. hr_Instance h = iid \<and> hr_SequenceNum h \<noteq> 0) (workflow_history d)"
    by (intro filter_cong) auto
  then show ?thesis
    by (simp add: history_of_def numbers_of_def events_of_def filter_map o_def conj_commute)
qed

lemma history_of_length: "tight d \<Longrightarrow> length (history_of iid 0 d) = length (numbers_of iid d)"
proof (rule history_of_positive)
  assume "tight d"
  then have n: "numbers_of iid d = one_to (length (numbers_of iid d))" by (simp add: tight_def)
  show "\<forall>k \<in> set (numbers_of iid d). 0 < k" by (subst n) (auto simp: one_to_def)
qed

lemma LoadInstance_seen:
  assumes "LoadInstance E iid w = (Inr (inst, evs), w')" and "orderly E" and "follows d0 (db w)"
  shows "follows d0 (db w')" and "wi_ID inst = iid" and "seen iid (wi_Version inst) (length evs) (db w')"
proof -
  obtain row w1 where q1: "db_query E (\<lambda>n d. first_row (filter (\<lambda>r. wi_ID r = iid) (workflow_instances d))) w = (row, w1)"
    by fastforce
  with assms(1) have s: "scanInstance row = Inr inst" and q2: "queryHistory E iid 0 w1 = (Inr evs, w')"
    by (auto simp: LoadInstance_def split: sum.splits prod.splits)
  then obtain r where r: "row = Inr r" by (cases row) (auto simp: scanInstance_def split: if_splits)
  have f1: "follows d0 (db w1)"
    using db_query_evolves [OF q1 evolves.stays] assms(2,3) by (rule evolves_follows)
  show f2: "follows d0 (db w')"
    using queryHistory_evolves [OF q2 evolves.stays] assms(2) f1 by (rule evolves_follows)
  have r1: "row_at wi_ID (workflow_instances (db w1)) iid = Some r"
    using q1 r by (auto simp: db_query_def db_exec_def Let_def first_row_key split: if_splits sum.splits option.splits)
  then show id: "wi_ID inst = iid" using scanInstance_fields [of r inst] s r by (auto dest: row_at_SomeD)
  have v: "wi_Version inst = wi_Version r" using scanInstance_fields [of r inst] s r by simp
  have "seen iid (wi_Version r) (length (numbers_of iid (db w1))) (db w1)" using r1 by (simp add: seen_def)
  then have "seen iid (wi_Version r) (length (numbers_of iid (db w1))) (db w')"
    using queryHistory_evolves [OF q2 evolves.stays] assms(2) follows_refl [OF follows_tight [OF f1]]
    by (blast intro: follows_seen evolves_follows)
  moreover have "length evs = length (numbers_of iid (db w'))"
  proof -
    have "scan_rows scan_event (history_of iid 0 (db w')) = Inr evs"
      using q2 assms(2) by (auto simp: queryHistory_def orderly_def db_rows_complete db_query_def db_exec_def Let_def split: if_splits sum.splits)
    then show ?thesis using scan_rows_length history_of_length [OF follows_tight [OF f2]] by metis
  qed
  ultimately show "seen iid (wi_Version inst) (length evs) (db w')" by (auto simp: seen_def v)
qed

section \<open>Starting an instance\<close>

lemma CreateWorkflowInstance_seen:
  assumes "CreateWorkflowInstance E inst w = (Inr u, w')" and "wi_Version inst = 0" and "tight (db w')"
  shows "seen (wi_ID inst) 0 0 (db w')"
proof -
  obtain r where r: "row_at wi_ID (workflow_instances (db w')) (wi_ID inst) = Some r" "wi_Version r = 0"
    using assms(1,2) by (auto simp: CreateWorkflowInstance_def db_exec_def Let_def sql_insert_Inr row_at_append
        row_at_None_iff [THEN iffD2] split: sum.splits if_splits)
  then have "events_of (wi_ID inst) (db w') = []" using assms(3) by (auto simp: tight_def dest!: row_at_SomeD)
  with r show ?thesis by (simp add: seen_def numbers_of_def)
qed

lemma StartWorkflow_follows:
  assumes "StartWorkflow E def ten input w = (r, w')" and "orderly E" and "follows d (db w)"
  shows "follows d (db w')"
proof -
  obtain i w1 where u: "uuid_New E w = (i, w1)" by fastforce
  obtain now w2 where n: "time_Now E w1 = (now, w2)" by fastforce
  define inst :: "gomap WorkflowInstance" where
    "inst = \<lparr>wi_ID = i, wi_WorkflowDefinitionID = wd_ID def, wi_Tenant = ten, wi_Status = ''RUNNING'',
       wi_CurrentPhase = wd_Start def, wi_DimensionalState = input, wi_Version = 0, wi_CreatedAt = now,
       wi_UpdatedAt = now\<rparr>"
  obtain c w3 where c: "CreateWorkflowInstance E inst w2 = (c, w3)" by fastforce
  have "evolves False E (db w) (db w3)"
    using u n c by (auto simp: inst_def dest!: uuid_New_evolves [where d = "db w"] time_Now_evolves [where d = "db w"]
        instance_updates_evolve(1) [where d = "db w"])
  then have f: "follows d (db w3)" using assms(2,3) by (rule evolves_follows)
  show ?thesis
  proof (cases c)
    case (Inl e)
    with assms(1) u n c f show ?thesis by (auto simp: StartWorkflow_def inst_def)
  next
    case (Inr x)
    with c have "seen i 0 0 (db w3)"
      using CreateWorkflowInstance_seen [OF _ _ follows_tight [OF f], of E inst w2] by (simp add: inst_def)
    then have k: "next_number i 0 1 (db w3)" by (auto simp: next_number_def)
    from assms(1) u n c Inr obtain ev r4 where "AppendEvents E i 0 [ev] w3 = (r4, w')" "he_SequenceNum ev = 1"
      by (auto simp: StartWorkflow_def inst_def split: prod.splits sum.splits)
    with k show ?thesis using AppendEvents_follows [OF _ assms(2) f] by metis
  qed
qed

section \<open>Events of a loaded instance\<close>

lemma loaded_append_follows:
  "AppendEvents E iid v [ev] w = (r, w') \<Longrightarrow> he_SequenceNum ev = int n + 1 \<Longrightarrow> seen iid v n (db w) \<Longrightarrow>
   orderly E \<Longrightarrow> follows d (db w) \<Longrightarrow> follows d (db w')"
  by (rule AppendEvents_follows) (auto simp: next_number_def)

text \<open>The clock does not touch the database.\<close>

lemma time_Now_db: "time_Now E w = (now, w') \<Longrightarrow> db w' = db w" and uuid_New_db: "uuid_New E w = (i, w') \<Longrightarrow> db w' = db w"
  by (auto simp: time_Now_def uuid_New_def)

lemma advance_step_follows:
  assumes "advance_step E inst evs st w = (r, w')" and "orderly E" and "follows d (db w)"
    and "seen (wi_ID inst) (wi_Version inst) (length evs) (db w)"
  shows "follows d (db w')"
proof -
  have app: "follows d (db w2)" if "AppendEvents E (wi_ID inst) (wi_Version inst)
      [engine_event (1 + int (length evs)) ty p now] w1 = (a, w2)" "db w1 = db w" for ty p now w1 a w2
    using loaded_append_follows [OF that(1) _ _ assms(2), of "length evs" d] that(2) assms(3,4)
    by (simp add: engine_event_def)
  show ?thesis
    using assms(1-3) by (auto simp: advance_step_def Let_def algebra_simps split: prod.splits sum.splits if_splits
        dest!: time_Now_db app quiet_follows_ops(3,4) [where ?d0.0 = d])
qed

lemma scheduled_event_fields [simp]:
  "he_SequenceNum (scheduled_event t k b a now) = k"
  "marshalable (json_of_map (he_Payload (scheduled_event t k b a now)))"
  by (simp_all add: scheduled_event_def json_of_map_def)

lemma schedule_actions_follows:
  assumes "reliable E" and "orderly E"
  shows "schedule_actions E inst k b i acts w = (r, w') \<Longrightarrow> follows d (db w) \<Longrightarrow>
    seen (wi_ID inst) (wi_Version inst) (k + i) (db w) \<Longrightarrow> follows d (db w')"
proof (induction acts arbitrary: i w)
  case (Cons a acts)
  obtain t w1 where u: "uuid_New E w = (t, w1)" by fastforce
  obtain c w2 where c: "CreateTask E (task_of_action t (wi_ID inst) b a) w1 = (c, w2)" by fastforce
  have "evolves False E (db w) (db w2)"
    using CreateTask_evolves [OF c new_task_of_action] uuid_New_db [OF u] by simp
  then have ev: "follows d' (db w) \<Longrightarrow> follows d' (db w2)" for d' using assms(2) by (rule evolves_follows)
  show ?case
  proof (cases c)
    case (Inl e)
    with Cons.prems u c show ?thesis by (auto intro: update_follows [OF assms(2)] ev)
  next
    case (Inr x)
    obtain now w3 where n: "time_Now E w2 = (now, w3)" by fastforce
    let ?ev = "scheduled_event (uuid_String E t) (int (k + i + 1)) b a now"
    obtain y w4 where ap: "AppendEvents E (wi_ID inst) (wi_Version inst) [?ev] w3 = (y, w4)" by fastforce
    have f3: "follows d (db w3)" and s3: "seen (wi_ID inst) (wi_Version inst) (k + i) (db w3)"
      using ev [OF Cons.prems(2)] ev [OF follows_refl [OF follows_tight [OF Cons.prems(2)]]] Cons.prems(3)
        time_Now_db [OF n] by (auto dest: follows_seen)
    have f4: "follows d (db w4)" using loaded_append_follows [OF ap _ s3 assms(2) f3] by simp
    have s4: "seen (wi_ID inst) (wi_Version inst) (k + Suc i) (db w4)"
      using AppendEvents_spends [OF ap assms(2,1) follows_tight [OF f3] s3] by simp
    let ?w5 = "if rabbit_channel E then publishTask E (task_of_action t (wi_ID inst) b a) w4 else w4"
    have "schedule_actions E inst k b (Suc i) acts ?w5 = (r, w')"
      using Cons.prems(1) u c n ap Inr by (simp add: algebra_simps)
    moreover have "db ?w5 = db w4" by simp
    ultimately show ?thesis using Cons.IH [of "Suc i" ?w5] f4 s4 by simp
  qed
qed simp

lemma processOperationState_follows:
  assumes "processOperationState E inst evs b acts w = (r, w')" and "reliable E" and "orderly E"
    and "follows d (db w)" and "seen (wi_ID inst) (wi_Version inst) (length evs) (db w)"
  shows "follows d (db w')"
proof (cases "acts = []")
  case True
  with assms show ?thesis
    by (auto simp: processOperationState_def split: prod.splits sum.splits dest!: advance_step_follows)
next
  case False
  then have "\<exists>ok. schedule_actions E inst (length evs) b 0 acts w = (ok, w')"
    using assms(1) by (auto simp: processOperationState_def split: prod.splits bool.splits)
  with assms(2-5) show ?thesis by (auto dest: schedule_actions_follows)
qed

lemma processDelayState_follows:
  assumes "orderly E" and "follows d (db w)" and "seen (wi_ID inst) (wi_Version inst) (length evs) (db w)"
  shows "follows d (db (processDelayState E inst evs b dur w))"
proof (cases "ParseDuration (float_oob E) dur")
  case (Inl e)
  then show ?thesis using assms by (simp add: processDelayState_def update_follows)
next
  case (Inr t)
  obtain now w1 where n: "time_Now E w = (now, w1)" by fastforce
  obtain c w2 where c: "CreateTimer E (wi_ID inst) (now + sint t) ''delay''
      (Some [(''next_state'', JStr (bs_Transition b))]) w1 = (c, w2)" by fastforce
  have ev: "follows d' (db w) \<Longrightarrow> follows d' (db w2)" for d'
    using evolves_follows [OF CreateTimer_evolves [OF c evolves.stays] assms(1)] time_Now_db [OF n] by simp
  show ?thesis
  proof (cases c)
    case (Inl e)
    with Inr n c show ?thesis by (simp add: processDelayState_def update_follows ev assms)
  next
    case (Inr x)
    obtain now' w3 where n': "time_Now E w2 = (now', w3)" by fastforce
    let ?ev = "engine_event (int (length evs) + 1) ''TimerScheduled''
        [(''fire_at'', JStr (time_text E (now + sint t))), (''next_state'', JStr (bs_Transition b))] now'"
    obtain y w4 where ap: "AppendEvents E (wi_ID inst) (wi_Version inst) [?ev] w3 = (y, w4)" by fastforce
    have "follows d (db w3)" "seen (wi_ID inst) (wi_Version inst) (length evs) (db w3)"
      using ev [OF assms(2)] ev [OF follows_refl [OF follows_tight [OF assms(2)]]] assms(3) time_Now_db [OF n']
      by (auto dest: follows_seen)
    then have "follows d (db w4)"
      using loaded_append_follows [OF ap _ _ assms(1)] by (simp add: engine_event_def)
    with \<open>ParseDuration (float_oob E) dur = Inr t\<close> n c Inr n' ap show ?thesis
      by (simp add: processDelayState_def Let_def algebra_simps)
  qed
qed

lemma processState_follows:
  assumes "processState E inst evs st w = (r, w')" and "reliable E" and "orderly E"
    and "follows d (db w)" and "seen (wi_ID inst) (wi_Version inst) (length evs) (db w)"
  shows "follows d (db w')"
  using assms processDelayState_follows [OF assms(3-5)] update_follows [OF assms(3) _ assms(4)]
  by (auto simp: processState_def split: state.splits dest: processOperationState_follows)

lemma execute_step_follows:
  assumes "execute_step E iid def w = (r, w')" and "reliable E" and "orderly E" and "follows d (db w)"
  shows "follows d (db w')"
proof -
  obtain l w1 where l: "LoadInstance E iid w = (l, w1)" by fastforce
  have f: "follows d (db w1)"
    using LoadInstance_evolves [OF l evolves.stays] assms(3,4) by (rule evolves_follows)
  show ?thesis
  proof (cases l)
    case (Inl e)
    with assms(1) l f show ?thesis by (simp add: execute_step_def)
  next
    case (Inr p)
    obtain inst evs where p: "p = (inst, evs)" by fastforce
    have "seen (wi_ID inst) (wi_Version inst) (length evs) (db w1)"
      using LoadInstance_seen [OF _ assms(3,4)] l Inr p by auto
    with assms l Inr p f show ?thesis
      by (auto simp: execute_step_def update_follows split: if_splits option.splits dest: processState_follows)
  qed
qed

lemma executeWorkflow_follows_imp:
  "executeWorkflow E iid def w = Some w' \<Longrightarrow> reliable E \<longrightarrow> orderly E \<longrightarrow> follows d (db w) \<longrightarrow> follows d (db w')"
proof (induction rule: executeWorkflow.raw_induct [rotated, consumes 1, case_names step])
  case (step exec E iid def w w')
  obtain again w1 where s: "execute_step E iid def w = (again, w1)" by fastforce
  with step show ?case by (auto split: if_splits dest: execute_step_follows)
qed

lemma executeWorkflow_follows:
  "executeWorkflow E iid def w = Some w' \<Longrightarrow> reliable E \<Longrightarrow> orderly E \<Longrightarrow> follows d (db w) \<Longrightarrow> follows d (db w')"
  using executeWorkflow_follows_imp by blast

lemma advanceFromState_follows:
  assumes "advanceFromState E inst evs st def w = Some (r, w')" and "reliable E" and "orderly E"
    and "follows d (db w)" and "seen (wi_ID inst) (wi_Version inst) (length evs) (db w)"
  shows "follows d (db w')"
  using assms advance_step_follows [OF _ assms(3-5), of st]
  by (auto simp: advanceFromState_def split: prod.splits sum.splits if_splits dest!: executeWorkflow_follows)

section \<open>Resuming\<close>

lemma evolves_seen:
  "evolves False E d d' \<Longrightarrow> orderly E \<Longrightarrow> tight d \<Longrightarrow> seen iid v n d \<Longrightarrow> seen iid v n d'"
  by (blast intro: follows_seen evolves_follows follows_refl)

text \<open>Loading an instance and then its definition.\<close>

lemma load_and_get_seen:
  assumes "LoadInstance E iid w = (Inr (inst, evs), w1)" and "reg_Get E def_id w1 = (g, w2)"
    and "orderly E" and "follows d (db w)"
  shows "follows d (db w2)" and "wi_ID inst = iid"
    and "seen (wi_ID inst) (wi_Version inst) (length evs) (db w2)"
proof -
  note l = LoadInstance_seen [OF assms(1,3,4)]
  have ev: "evolves False E (db w1) (db w2)" by (rule reg_Get_evolves [OF assms(2) evolves.stays])
  show "follows d (db w2)" using ev assms(3) l(1) by (rule evolves_follows)
  show "wi_ID inst = iid" by (rule l(2))
  then show "seen (wi_ID inst) (wi_Version inst) (length evs) (db w2)"
    using evolves_seen [OF ev assms(3) follows_tight [OF l(1)] l(3)] by simp
qed

lemma resumeWorkflowAfterTask_follows:
  assumes "resumeWorkflowAfterTask E iid w = Some (r, w')" and "reliable E" and "orderly E"
    and "follows d (db w)"
  shows "follows d (db w')"
proof -
  obtain c w1 where c: "CountPendingTasks E iid w = (c, w1)" by fastforce
  obtain l w2 where l: "LoadInstance E iid w1 = (l, w2)" by fastforce
  have f1: "follows d (db w1)"
    using CountPendingTasks_evolves [OF c evolves.stays] assms(3,4) by (rule evolves_follows)
  have f2: "follows d (db w2)"
    using LoadInstance_evolves [OF l evolves.stays] assms(3) f1 by (rule evolves_follows)
  show ?thesis
  proof (cases l)
    case (Inl e)
    with assms(1) c l f1 f2 show ?thesis by (auto simp: resumeWorkflowAfterTask_def split: sum.splits if_splits)
  next
    case (Inr p)
    obtain inst evs where p: "p = (inst, evs)" by fastforce
    obtain g w3 where g: "reg_Get E (wi_WorkflowDefinitionID inst) w2 = (g, w3)" by fastforce
    note s = load_and_get_seen [OF l [unfolded Inr p] g assms(3) f1]
    have up: "follows d (db w5)" if "UpdateWorkflowStatus E iid ''FAILED'' w3 = (r5, w5)" for r5 w5
      using update_follows [OF assms(3) _ s(1), of "''FAILED''" iid] that by simp
    from assms(1) c l Inr p g f1 s(1) show ?thesis
      by (auto simp: resumeWorkflowAfterTask_def split: sum.splits if_splits option.splits
          dest: up advanceFromState_follows [OF _ assms(2,3) s(1,3)])
  qed
qed

lemma ResumeAfterTimer_follows:
  assumes "ResumeAfterTimer E t w = (r, w')" and "orderly E" and "follows d (db w)"
  shows "follows d (db w')"
proof -
  obtain l w1 where l: "LoadInstance E (tm_WorkflowInstanceID t) w = (l, w1)" by fastforce
  have f1: "follows d (db w1)"
    using LoadInstance_evolves [OF l evolves.stays] assms(2,3) by (rule evolves_follows)
  show ?thesis
  proof (cases l)
    case (Inl e)
    with assms(1) l f1 show ?thesis by (simp add: ResumeAfterTimer_def)
  next
    case (Inr p)
    obtain inst evs where p: "p = (inst, evs)" by fastforce
    obtain g w2 where g: "reg_Get E (wi_WorkflowDefinitionID inst) w1 = (g, w2)" by fastforce
    note s = load_and_get_seen [OF l [unfolded Inr p] g assms(2,3)]
    have app: "follows d (db w4)" if "AppendEvents E (wi_ID inst) (wi_Version inst)
        [engine_event (1 + int (length evs)) ty pl now] w3 = (a, w4)" "db w3 = db w2" for ty pl now w3 a w4
      using loaded_append_follows [OF that(1) _ _ assms(2), of "length evs" d] that(2) s
      by (simp add: engine_event_def)
    from assms(1,2) l Inr p g s(1) show ?thesis
      by (auto simp: ResumeAfterTimer_def Let_def algebra_simps split: prod.splits sum.splits
          dest!: time_Now_db app quiet_follows_ops(4) [where ?d0.0 = d])
  qed
qed

lemma fire_timers_follows:
  "orderly E \<Longrightarrow> follows d (db w) \<Longrightarrow> follows d (db (fire_timers E ts w))"
proof (induction ts arbitrary: w)
  case (Cons t ts)
  obtain m w1 where m: "MarkTimerFired E (tm_ID t) w = (m, w1)" by fastforce
  have "follows d (db w1)"
    using MarkTimerFired_evolves [OF m evolves.stays] Cons.prems by (rule evolves_follows)
  moreover from this have "follows d (db (snd (ResumeAfterTimer E t w1)))"
    by (rule ResumeAfterTimer_follows [OF surjective_pairing Cons.prems(1)])
  ultimately show ?case using Cons.IH Cons.prems(1) m by (auto split: sum.splits)
qed simp

lemma checkTimers_follows:
  assumes "orderly E" and "follows d (db w)"
  shows "follows d (db (checkTimers E w))"
proof -
  obtain now w1 where n: "time_Now E w = (now, w1)" by fastforce
  obtain p w2 where p: "GetPendingTimers E now w1 = (p, w2)" by fastforce
  have "follows d (db w2)"
    using GetPendingTimers_evolves [OF p evolves.stays] assms time_Now_db [OF n] by (metis evolves_follows)
  with n p assms(1) show ?thesis
    by (auto simp: checkTimers_def intro: fire_timers_follows split: sum.splits)
qed

section \<open>Goroutines\<close>

text \<open>A goroutine that advances an instance carries what its creator has read.\<close>

definition job_ok :: "database \<Rightarrow> job \<Rightarrow> bool" where
  "job_ok d j = (case j of
     Job_advanceFromState inst evs st def \<Rightarrow> seen (wi_ID inst) (wi_Version inst) (length evs) d
   | _ \<Rightarrow> True)"

lemma follows_job_ok: "follows d d' \<Longrightarrow> job_ok d j \<Longrightarrow> job_ok d' j"
  by (auto simp: job_ok_def dest: follows_seen split: job.splits)

lemma run_job_follows:
  "run_job E j w = Some w' \<Longrightarrow> reliable E \<Longrightarrow> orderly E \<Longrightarrow> job_ok (db w) j \<Longrightarrow> follows d (db w) \<Longrightarrow>
   follows d (db w')"
  by (auto simp: run_job_def job_ok_def split: job.splits
      dest: executeWorkflow_follows resumeWorkflowAfterTask_follows advanceFromState_follows)

end
