(* ===== verification/Goroutines.thy ===== *)
theory Goroutines
  imports System
begin

text \<open>
  Which operations start goroutines: those of the store, the registry and the servers leave the
  list of goroutines alone, the engine's operations on tasks and timers add one.
\<close>

named_theorems same_jobs \<open>operations that start no goroutine\<close>

lemma next_tick_jobs [simp]: "goroutines (next_tick w) = goroutines w"
  by (simp add: next_tick_def)

lemma db_exec_jobs [same_jobs]: "db_exec E stmt w = (r, w') \<Longrightarrow> goroutines w' = goroutines w"
  by (auto simp: db_exec_def Let_def split: if_splits sum.splits)

lemma db_query_jobs [same_jobs]: "db_query E q w = (r, w') \<Longrightarrow> goroutines w' = goroutines w"
  unfolding db_query_def by (rule db_exec_jobs)

lemma db_rows_jobs [same_jobs]: "db_rows E q w = (r, w') \<Longrightarrow> goroutines w' = goroutines w"
  unfolding db_rows_def by (rule db_query_jobs)

lemma clock_jobs [same_jobs]:
  "uuid_New E w = (i, w') \<Longrightarrow> goroutines w' = goroutines w"
  "time_Now E w = (now, w') \<Longrightarrow> goroutines w' = goroutines w"
  by (auto simp: uuid_New_def time_Now_def)

lemma query_result_jobs:
  assumes "(case db_rows E q w of (s, w1) \<Rightarrow> F s w1) = (r, w')" and "\<And>s w1. snd (F s w1) = w1"
  shows "goroutines w' = goroutines w"
proof -
  obtain s w1 where q: "db_rows E q w = (s, w1)" by fastforce
  with assms(1) assms(2) [of s w1] have "w' = w1" by simp
  with db_rows_jobs [OF q] show ?thesis by simp
qed

lemma query_jobs [same_jobs]:
  "queryHistory E iid s w = (r1, w') \<Longrightarrow> goroutines w' = goroutines w"
  "queryInstances E q w = (r2, w') \<Longrightarrow> goroutines w' = goroutines w"
  "GetPendingTimers E t w = (r3, w') \<Longrightarrow> goroutines w' = goroutines w"
  "GetTask E i w = (r4, w') \<Longrightarrow> goroutines w' = goroutines w"
  "GetPendingTasks E caps m w = (r5, w') \<Longrightarrow> goroutines w' = goroutines w"
  "ListTasksForInstance E iid s' m off w = (r5, w') \<Longrightarrow> goroutines w' = goroutines w"
  "ListTasksForAgent E a ten s' w = (r5, w') \<Longrightarrow> goroutines w' = goroutines w"
  "GetTaskAuditLog E i w = (r7, w') \<Longrightarrow> goroutines w' = goroutines w"
  "ListWorkflowDefinitions E g w = (r8, w') \<Longrightarrow> goroutines w' = goroutines w"
  unfolding queryHistory_def queryInstances_def GetPendingTimers_def GetTask_def GetPendingTasks_def
    ListTasksForInstance_def ListTasksForAgent_def GetTaskAuditLog_def ListWorkflowDefinitions_def
  by (erule query_result_jobs; auto split: sum.split list.split)+

lemmas query_alias_jobs [same_jobs] =
  query_jobs(1) [of E iid s, folded GetHistoryEvents_def] for E iid s

lemma list_jobs [same_jobs]:
  "ListActiveInstances E w = (r2, w') \<Longrightarrow> goroutines w' = goroutines w"
  "ListWorkflowInstances E f w = (r2, w') \<Longrightarrow> goroutines w' = goroutines w"
  "CountPendingTasks E iid w = (r6, w') \<Longrightarrow> goroutines w' = goroutines w"
  unfolding ListActiveInstances_def ListWorkflowInstances_def CountPendingTasks_def
  by (rule query_jobs db_query_jobs; assumption)+

lemma LoadInstance_jobs [same_jobs]: "LoadInstance E iid w = (r, w') \<Longrightarrow> goroutines w' = goroutines w"
  by (auto simp: LoadInstance_def split: prod.splits sum.splits dest!: same_jobs)

lemma insert_events_jobs: "insert_events E iid now evs d w = (r, w') \<Longrightarrow> goroutines w' = goroutines w"
  by (induction evs arbitrary: d w) (auto split: sum.splits if_splits)

lemma AppendEvents_jobs [same_jobs]: "AppendEvents E iid v evs w = (r, w') \<Longrightarrow> goroutines w' = goroutines w"
  by (auto simp: AppendEvents_unfold split: prod.splits sum.splits if_splits dest!: same_jobs insert_events_jobs)

lemma statement_jobs [same_jobs]:
  "CreateWorkflowInstance E inst w = (r1, w') \<Longrightarrow> goroutines w' = goroutines w"
  "UpdateWorkflowStatus E iid st w = (r1, w') \<Longrightarrow> goroutines w' = goroutines w"
  "UpdateCurrentPhase E iid ph w = (r1, w') \<Longrightarrow> goroutines w' = goroutines w"
  "CreateTimer E iid t ty m w = (r2, w') \<Longrightarrow> goroutines w' = goroutines w"
  "MarkTimerFired E i w = (r1, w') \<Longrightarrow> goroutines w' = goroutines w"
  "CreateTask E task w = (r1, w') \<Longrightarrow> goroutines w' = goroutines w"
  "AppendTaskAudit E entry w = (r1, w') \<Longrightarrow> goroutines w' = goroutines w"
  "UpdateWorkflowDefinitionYAML E i y w = (r1, w') \<Longrightarrow> goroutines w' = goroutines w"
  by (auto simp: CreateWorkflowInstance_def UpdateWorkflowStatus_def UpdateCurrentPhase_def CreateTimer_def
      MarkTimerFired_def CreateTask_def AppendTaskAudit_def UpdateWorkflowDefinitionYAML_def Let_def
      split: prod.splits sum.splits if_splits dest!: same_jobs)

lemma exec_tasks_jobs: "goroutines (snd (exec_tasks E P upd w)) = goroutines w"
  unfolding exec_tasks_def by (rule db_exec_jobs [OF surjective_pairing])

lemma db_exec_snd_jobs: "goroutines (snd (db_exec E stmt w)) = goroutines w"
  by (rule db_exec_jobs [OF surjective_pairing])

lemma task_update_jobs [same_jobs]:
  "AssignTask E i a dl w = (r1, w') \<Longrightarrow> goroutines w' = goroutines w"
  "ClaimTask E i a dl w = (r1, w') \<Longrightarrow> goroutines w' = goroutines w"
  "ReleaseTask E i a w = (r1, w') \<Longrightarrow> goroutines w' = goroutines w"
  "store_CompleteTask E i m w = (r1, w') \<Longrightarrow> goroutines w' = goroutines w"
  "CompleteTaskWithEvidence E i m m' w = (r1, w') \<Longrightarrow> goroutines w' = goroutines w"
  "store_FailTask E i m w = (r1, w') \<Longrightarrow> goroutines w' = goroutines w"
  "ExtendTaskDeadline E i dl w = (r1, w') \<Longrightarrow> goroutines w' = goroutines w"
  "ReassignTask E i a b w = (r1, w') \<Longrightarrow> goroutines w' = goroutines w"
  "DeleteWorkflowDefinition E i w = (r1, w') \<Longrightarrow> goroutines w' = goroutines w"
  by (auto simp: AssignTask_def ClaimTask_def ReleaseTask_def store_CompleteTask_def
      CompleteTaskWithEvidence_def store_FailTask_def ExtendTaskDeadline_def ReassignTask_def
      DeleteWorkflowDefinition_def exec_tasks_jobs db_exec_snd_jobs split: sum.splits if_splits dest!: wrapper_snd)

lemma registry_jobs [same_jobs]:
  "reg_Store E def w = (r1, w') \<Longrightarrow> goroutines w' = goroutines w"
  by (auto simp: reg_Store_def split: if_splits prod.splits sum.splits dest!: same_jobs)

lemma getFromFile_jobs [same_jobs]: "getFromFile E i w = (r, w') \<Longrightarrow> goroutines w' = goroutines w"
  by (auto simp: getFromFile_def Let_def registry_jobs [OF surjective_pairing] split: sum.splits)

lemma reg_load_jobs [same_jobs]: "reg_load E i w = (r, w') \<Longrightarrow> goroutines w' = goroutines w"
  by (auto simp: reg_load_def split: prod.splits sum.splits if_splits dest!: same_jobs)

lemma reg_Get_jobs [same_jobs]: "reg_Get E i w = (r, w') \<Longrightarrow> goroutines w' = goroutines w"
  by (auto simp: reg_Get_def Let_def split: prod.splits option.splits if_splits dest!: same_jobs)

section \<open>The engine\<close>

lemma publishTask_jobs [simp]: "goroutines (publishTask E t w) = goroutines w"
  by (auto simp: publishTask_def Let_def split: sum.splits)

lemma StartWorkflow_jobs [same_jobs]: "StartWorkflow E def ten input w = (r, w') \<Longrightarrow> goroutines w' = goroutines w"
  by (auto simp: StartWorkflow_def Let_def split: prod.splits sum.splits dest!: same_jobs)

lemma update_status_snd_jobs [simp]: "goroutines (snd (UpdateWorkflowStatus E iid st w)) = goroutines w"
  by (rule statement_jobs(2) [OF surjective_pairing])

lemma schedule_actions_jobs [same_jobs]:
  "schedule_actions E inst k b i acts w = (r, w') \<Longrightarrow> goroutines w' = goroutines w"
proof (induction acts arbitrary: i w)
  case (Cons a acts)
  obtain t w1 where u: "uuid_New E w = (t, w1)" by fastforce
  obtain c w2 where c: "CreateTask E (task_of_action t (wi_ID inst) b a) w1 = (c, w2)" by fastforce
  obtain now w3 where n: "time_Now E w2 = (now, w3)" by fastforce
  obtain y w4 where ap: "AppendEvents E (wi_ID inst) (wi_Version inst)
      [scheduled_event (uuid_String E t) (int (k + i + 1)) b a now] w3 = (y, w4)" by fastforce
  have "goroutines w2 = goroutines w" and "goroutines w4 = goroutines w"
    using u c n ap by (auto dest!: same_jobs)
  with Cons.prems u c n ap Cons.IH [of "Suc i"] show ?case
    by (cases c) (auto simp: algebra_simps split: if_splits)
qed simp

lemma advance_step_jobs [same_jobs]: "advance_step E inst evs st w = (r, w') \<Longrightarrow> goroutines w' = goroutines w"
  by (auto simp: advance_step_def Let_def split: prod.splits sum.splits if_splits dest!: same_jobs)

lemma processOperationState_jobs [same_jobs]:
  "processOperationState E inst evs b acts w = (r, w') \<Longrightarrow> goroutines w' = goroutines w"
  by (auto simp: processOperationState_def split: prod.splits sum.splits bool.splits if_splits dest!: same_jobs)

lemma processDelayState_jobs [simp]: "goroutines (processDelayState E inst evs b dur w) = goroutines w"
  by (auto simp: processDelayState_def Let_def AppendEvents_jobs [OF surjective_pairing]
      split: prod.splits sum.splits dest!: same_jobs)

lemma processState_jobs [same_jobs]: "processState E inst evs st w = (r, w') \<Longrightarrow> goroutines w' = goroutines w"
  by (auto simp: processState_def split: state.splits dest!: same_jobs)

lemma execute_step_jobs [same_jobs]: "execute_step E iid def w = (r, w') \<Longrightarrow> goroutines w' = goroutines w"
  by (auto simp: execute_step_def split: prod.splits sum.splits if_splits option.splits dest!: same_jobs)

lemma executeWorkflow_jobs [same_jobs]:
  "executeWorkflow E iid def w = Some w' \<Longrightarrow> goroutines w' = goroutines w"
proof (induction rule: executeWorkflow.raw_induct [rotated, consumes 1, case_names step])
  case (step exec E iid def w w')
  obtain again w1 where s: "execute_step E iid def w = (again, w1)" by fastforce
  with step execute_step_jobs [OF s] show ?case by (auto split: if_splits)
qed

lemma advanceFromState_jobs [same_jobs]:
  "advanceFromState E inst evs st def w = Some (r, w') \<Longrightarrow> goroutines w' = goroutines w"
  by (auto simp: advanceFromState_def split: prod.splits sum.splits if_splits dest!: same_jobs)

lemma resumeWorkflowAfterTask_jobs [same_jobs]:
  "resumeWorkflowAfterTask E iid w = Some (r, w') \<Longrightarrow> goroutines w' = goroutines w"
  by (auto simp: resumeWorkflowAfterTask_def split: prod.splits sum.splits if_splits option.splits dest!: same_jobs)

lemma run_job_jobs [same_jobs]: "run_job E j w = Some w' \<Longrightarrow> goroutines w' = goroutines w"
  by (auto simp: run_job_def split: job.splits dest!: same_jobs)

lemma ClaimPendingTask_jobs [same_jobs]:
  "ClaimPendingTask E caps a w = (r, w') \<Longrightarrow> goroutines w' = goroutines w"
  by (auto simp: ClaimPendingTask_def Let_def split: prod.splits sum.splits list.splits dest!: same_jobs)

lemma GetWorkflowState_jobs [same_jobs]: "GetWorkflowState E iid w = (r, w') \<Longrightarrow> goroutines w' = goroutines w"
  by (auto simp: GetWorkflowState_def split: prod.splits sum.splits dest!: same_jobs)

text \<open>The others add goroutines that load what they need themselves.\<close>

definition plain_jobs :: "job set \<Rightarrow> 'z engine_world_scheme \<Rightarrow> bool" where
  "plain_jobs J w \<longleftrightarrow>
     set (goroutines w) \<subseteq> J \<union> range Job_resumeWorkflowAfterTask \<union> {Job_executeWorkflow iid def | iid def. True}"

lemma plain_jobs_go [simp]:
  "plain_jobs J (go (Job_resumeWorkflowAfterTask iid) w) \<longleftrightarrow> plain_jobs J w"
  "plain_jobs J (go (Job_executeWorkflow iid def) w) \<longleftrightarrow> plain_jobs J w"
  by (auto simp: plain_jobs_def go_def)

lemma plain_jobs_same: "goroutines w' = goroutines w \<Longrightarrow> plain_jobs J w \<Longrightarrow> plain_jobs J w'"
  by (simp add: plain_jobs_def)

lemma task_end_jobs:
  "CompleteTask E i m w = (r1, w') \<Longrightarrow> plain_jobs J w \<Longrightarrow> plain_jobs J w'"
  "FailTask E i er w = (r1, w') \<Longrightarrow> plain_jobs J w \<Longrightarrow> plain_jobs J w'"
  by (auto simp: CompleteTask_def FailTask_def split: prod.splits sum.splits dest!: same_jobs
      intro: plain_jobs_same)

lemma ResumeAfterTimer_jobs: "ResumeAfterTimer E t w = (r, w') \<Longrightarrow> plain_jobs J w \<Longrightarrow> plain_jobs J w'"
  by (auto simp: ResumeAfterTimer_def Let_def split: prod.splits sum.splits dest!: same_jobs intro: plain_jobs_same)

lemma fire_timers_jobs: "plain_jobs J w \<Longrightarrow> plain_jobs J (fire_timers E ts w)"
proof (induction ts arbitrary: w)
  case (Cons t ts)
  obtain m w1 where m: "MarkTimerFired E (tm_ID t) w = (m, w1)" by fastforce
  then have w1: "plain_jobs J w1" using Cons.prems by (auto dest: same_jobs intro: plain_jobs_same)
  then have "plain_jobs J (snd (ResumeAfterTimer E t w1))" by (rule ResumeAfterTimer_jobs [OF surjective_pairing])
  with m w1 show ?case by (auto intro: Cons.IH split: sum.splits)
qed simp

lemma checkTimers_jobs: "plain_jobs J w \<Longrightarrow> plain_jobs J (checkTimers E w)"
  by (auto simp: checkTimers_def Let_def split: prod.splits sum.splits dest!: same_jobs
      intro: fire_timers_jobs plain_jobs_same)

section \<open>The servers\<close>

lemma supervisor_jobs [same_jobs]:
  "StartWorker E iid def ten w = (r, w') \<Longrightarrow> goroutines w' = goroutines w"
  "StopWorker E iid w = (r, w') \<Longrightarrow> goroutines w' = goroutines w"
  by (auto simp: StartWorker_def StopWorker_def Let_def time_Now_def split: if_splits sum.splits option.splits)

lemma StopWorker_snd_jobs [simp]: "goroutines (snd (StopWorker E iid w)) = goroutines w"
  by (rule supervisor_jobs [OF surjective_pairing])

lemma supervisor_exit_jobs [simp]:
  "goroutines (monitorWorker iid p ex w) = goroutines w" "goroutines (shutdown w) = goroutines w"
  by (auto simp: monitorWorker_def shutdown_def StopAll_def Let_def split: option.splits)

lemma restart_workers_jobs [simp]: "goroutines (restart_workers E insts w) = goroutines w"
  by (induction insts arbitrary: w) (simp_all add: supervisor_jobs(1) [OF surjective_pairing])

lemma startup_recovery_jobs [simp]: "goroutines (startup_recovery E w) = goroutines w"
  by (auto simp: startup_recovery_def split: prod.splits sum.splits dest!: same_jobs)

lemma tenant_id_jobs [same_jobs]: "tenant_id E name w = (r, w') \<Longrightarrow> goroutines w' = goroutines w"
  unfolding tenant_id_def by (rule db_query_jobs)

lemma audit_jobs [simp]: "goroutines (audit E i t a m x w) = goroutines w"
  by (auto simp: audit_def statement_jobs [OF surjective_pairing] split: prod.splits dest!: same_jobs)

lemma definition_handler_jobs [same_jobs]:
  "CreateWorkflowDefinition E creq rw = (r1, rw') \<Longrightarrow> goroutines rw' = goroutines rw"
  "GetWorkflowDefinition E i rw = (r1, rw') \<Longrightarrow> goroutines rw' = goroutines rw"
  "UpdateWorkflowDefinition E ureq rw = (r1, rw') \<Longrightarrow> goroutines rw' = goroutines rw"
  "api_DeleteWorkflowDefinition E i w = (r2, w') \<Longrightarrow> goroutines w' = goroutines w"
  "api_ListWorkflowDefinitions E lreq w = (r3, w') \<Longrightarrow> goroutines w' = goroutines w"
  subgoal by (auto simp: CreateWorkflowDefinition_def Let_def split: if_splits prod.splits sum.splits dest!: same_jobs)
  subgoal by (auto simp: GetWorkflowDefinition_def split: prod.splits sum.splits dest!: same_jobs)
  subgoal by (auto simp: UpdateWorkflowDefinition_def split: if_splits prod.splits sum.splits dest!: same_jobs)
  subgoal by (auto simp: api_DeleteWorkflowDefinition_def split: if_splits prod.splits sum.splits dest!: same_jobs)
  subgoal by (auto simp: api_ListWorkflowDefinitions_def Let_def split: if_splits prod.splits sum.splits dest!: same_jobs)
  done

lemma start_instance_jobs [same_jobs]:
  "start_instance E def ten input m w = (r, w') \<Longrightarrow> goroutines w' = goroutines w"
  by (auto simp: start_instance_def split: prod.splits sum.splits dest!: same_jobs)

lemma lifecycle_handler_jobs [same_jobs]:
  "DeployWorkflow E i w = (r1, w') \<Longrightarrow> goroutines w' = goroutines w"
  "api_StartWorkflow E S sreq w = (r2, w') \<Longrightarrow> goroutines w' = goroutines w"
  "CancelWorkflow E i w = (r3, w') \<Longrightarrow> goroutines w' = goroutines w"
  "SignalWorkflow E S greq v = (r3, v') \<Longrightarrow> goroutines v' = goroutines v"
  "GetInstance E i v = (r4, v') \<Longrightarrow> goroutines v' = goroutines v"
  "ListInstances E ireq v = (r5, v') \<Longrightarrow> goroutines v' = goroutines v"
  "StopInstance E preq w = (r3, w') \<Longrightarrow> goroutines w' = goroutines w"
  subgoal by (auto simp: DeployWorkflow_def split: prod.splits sum.splits dest!: same_jobs)
  subgoal by (auto simp: api_StartWorkflow_def split: prod.splits sum.splits dest!: same_jobs)
  subgoal by (auto simp: CancelWorkflow_def split: prod.splits sum.splits dest!: same_jobs)
  subgoal by (auto simp: SignalWorkflow_def Let_def split: if_splits prod.splits sum.splits dest!: same_jobs)
  subgoal by (auto simp: GetInstance_def split: if_splits prod.splits sum.splits dest!: same_jobs)
  subgoal by (auto simp: ListInstances_def split: prod.splits sum.splits dest!: same_jobs)
  subgoal by (auto simp: StopInstance_def Let_def split: if_splits prod.splits sum.splits dest!: same_jobs)
  done

lemma pushTasks_round_jobs: "pushTasks_round E S a caps ctx snds c w = (r, c', w') \<Longrightarrow> goroutines w' = goroutines w"
  by (auto simp: pushTasks_round_def split: if_splits prod.splits sum.splits option.splits dest!: same_jobs)

lemma task_handler_jobs [same_jobs]:
  "PollTask E S a w = (r1, w') \<Longrightarrow> goroutines w' = goroutines w"
  "api_GetWorkflowState E S i w = (r3, w') \<Longrightarrow> goroutines w' = goroutines w"
  "ListWorkflows E wreq w = (r4, w') \<Longrightarrow> goroutines w' = goroutines w"
  "StreamWorkflowEvents E S i n fa w = (r5, es, w') \<Longrightarrow> goroutines w' = goroutines w"
  "ListTasks E treq w = (r6, w') \<Longrightarrow> goroutines w' = goroutines w"
  "api_GetTask E S i w = (r7, w') \<Longrightarrow> goroutines w' = goroutines w"
  "ListMyTasks E mreq w = (r6, w') \<Longrightarrow> goroutines w' = goroutines w"
  "GetTaskHistory E S i w = (r8, w') \<Longrightarrow> goroutines w' = goroutines w"
  "ExtendTaskLease E i dl w = (r9, w') \<Longrightarrow> goroutines w' = goroutines w"
  subgoal by (auto simp: PollTask_def split: prod.splits sum.splits option.splits dest!: same_jobs)
  subgoal by (auto simp: api_GetWorkflowState_def split: prod.splits sum.splits dest!: same_jobs)
  subgoal by (auto simp: ListWorkflows_def split: prod.splits sum.splits dest!: same_jobs)
  subgoal by (auto simp: StreamWorkflowEvents_def split: if_splits prod.splits sum.splits option.splits dest!: same_jobs)
  subgoal by (auto simp: ListTasks_def split: prod.splits sum.splits dest!: same_jobs)
  subgoal by (auto simp: api_GetTask_def split: if_splits prod.splits sum.splits dest!: same_jobs)
  subgoal by (auto simp: ListMyTasks_def split: if_splits prod.splits sum.splits dest!: same_jobs)
  subgoal by (auto simp: GetTaskHistory_def split: prod.splits sum.splits dest!: same_jobs)
  subgoal by (auto simp: ExtendTaskLease_def split: prod.splits sum.splits option.splits dest!: same_jobs)
  done

lemma resolution_handler_jobs [same_jobs]:
  "api_ClaimTask E S i a w = (r1, w') \<Longrightarrow> goroutines w' = goroutines w"
  "api_ReleaseTask E i a m w = (r2, w') \<Longrightarrow> goroutines w' = goroutines w"
  "UpdateTaskProgress E S i a m st pc w = (r2, w') \<Longrightarrow> goroutines w' = goroutines w"
  "api_ReassignTask E i a b m w = (r2, w') \<Longrightarrow> goroutines w' = goroutines w"
  subgoal by (auto simp: api_ClaimTask_def Let_def split: if_splits prod.splits sum.splits dest!: same_jobs)
  subgoal by (auto simp: api_ReleaseTask_def split: prod.splits sum.splits dest!: same_jobs)
  subgoal by (auto simp: UpdateTaskProgress_def Let_def split: sum.splits)
  subgoal by (auto simp: api_ReassignTask_def split: prod.splits sum.splits dest!: same_jobs)
  done

lemma watch_loop_jobs: "watch_loop E i t rounds k sent w = (r, es, w') \<Longrightarrow> goroutines w' = goroutines w"
  by (induction E i t rounds k sent w rule: watch_loop.induct)
    (auto simp: Let_def split: if_splits prod.splits sum.splits dest!: same_jobs)

lemma WatchTask_jobs: "WatchTask E i rounds w = (r, es, w') \<Longrightarrow> goroutines w' = goroutines w"
  by (auto simp: WatchTask_def split: sum.splits elim: watch_loop_jobs)

lemma task_end_handler_jobs:
  "handle_message E S m c w = (c', w') \<Longrightarrow> plain_jobs J w \<Longrightarrow> plain_jobs J w'"
  "api_CompleteTask E S i st w = (r, w') \<Longrightarrow> plain_jobs J w \<Longrightarrow> plain_jobs J w'"
  "api_FailTask E i er w = (r, w') \<Longrightarrow> plain_jobs J w \<Longrightarrow> plain_jobs J w'"
  "SubmitTaskFailure E i a er w = (r', w') \<Longrightarrow> plain_jobs J w \<Longrightarrow> plain_jobs J w'"
  subgoal by (auto simp: handle_message_def split: AgentToServer.splits sum.splits TaskOutcome.splits
        intro: task_end_jobs [OF surjective_pairing])
  subgoal by (auto simp: api_CompleteTask_def split: prod.splits sum.splits dest: task_end_jobs)
  subgoal by (auto simp: api_FailTask_def split: prod.splits sum.splits dest: task_end_jobs)
  subgoal by (auto simp: SubmitTaskFailure_def Let_def split: prod.splits sum.splits dest!: task_end_jobs
        intro: plain_jobs_same)
  done

lemma message_jobs:
  "plain_jobs J w \<Longrightarrow> plain_jobs J (snd (snd (Connect E S [RecvMsg m] c w)))"
  by (auto split: prod.splits dest: task_end_handler_jobs(1))

end
