(* ===== verification/System_Numbering.thy ===== *)
theory System_Numbering
  imports Engine_Numbering Goroutines
begin

text \<open>
  The numbering of the history under the steps of the whole process: a state is \<open>safe\<close> after a
  database \<open>d0\<close> when it follows \<open>d0\<close>, with a tight history, and every goroutine still knows where the
  history of its instance ends.
\<close>

section \<open>Handlers that append\<close>

lemma start_instance_follows:
  assumes "start_instance E def ten input m w = (r, w')" and "orderly E" and "follows d (db w)"
  shows "follows d (db w')"
proof -
  obtain s w1 where s: "StartWorkflow E def ten input w = (s, w1)" by fastforce
  have f: "follows d (db w1)" by (rule StartWorkflow_follows [OF s assms(2,3)])
  show ?thesis
  proof (cases s)
    case (Inl e)
    with assms(1) s f show ?thesis by (simp add: start_instance_def)
  next
    case (Inr iid)
    obtain x w2 where x: "StartWorker E iid (wd_ID def) ten w1 = (x, w2)" by fastforce
    with f have "follows d (db w2)" by (simp add: StartWorker_db)
    with assms(1,2) s Inr x show ?thesis
      by (auto simp: start_instance_def update_follows split: sum.splits)
  qed
qed

lemma reg_Get_follows: "reg_Get E i w = (r, w') \<Longrightarrow> orderly E \<Longrightarrow> follows d (db w) \<Longrightarrow> follows d (db w')"
  by (rule evolves_follows [OF reg_Get_evolves [OF _ evolves.stays]])

lemma lifecycle_follows:
  "DeployWorkflow E i w = (r1, w') \<Longrightarrow> orderly E \<Longrightarrow> follows d (db w) \<Longrightarrow> follows d (db w')"
  "api_StartWorkflow E S sreq w = (r2, w') \<Longrightarrow> orderly E \<Longrightarrow> follows d (db w) \<Longrightarrow> follows d (db w')"
  by (auto simp: DeployWorkflow_def api_StartWorkflow_def split: prod.splits sum.splits
      dest!: reg_Get_follows start_instance_follows)

lemma SignalWorkflow_follows:
  assumes "SignalWorkflow E S req w = (r, w')" and "orderly E" and "follows d (db w)"
  shows "follows d (db w')"
proof -
  have load: "follows d (db w1)" if "LoadInstance E i w = (l, w1)" for i l w1
    using LoadInstance_evolves [OF that evolves.stays] assms(2,3) by (rule evolves_follows)
  have app: "follows d (db w2)" if "AppendEvents E i v [ev] w1 = (a, w2)" "he_SequenceNum ev = 0"
      "follows d (db w1)" for i v ev w1 a w2
    using AppendEvents_follows [OF that(1) assms(2) that(3)] that(2) by (simp add: next_number_def)
  show ?thesis
    using assms(1,3) by (auto simp: SignalWorkflow_def Let_def split: if_splits prod.splits sum.splits
        dest!: load app)
qed

section \<open>Safe states\<close>

definition safe :: "database \<Rightarrow> 'z engine_world_scheme \<Rightarrow> bool" where
  "safe d0 w \<longleftrightarrow> follows d0 (db w) \<and> (\<forall>j \<in> set (goroutines w). job_ok (db w) j)"

lemma safe_follows: "safe d0 w \<Longrightarrow> follows (db w) (db w)"
  by (auto simp: safe_def intro: follows_refl follows_tight)

lemma plain_job_ok:
  assumes "plain_jobs (set (goroutines w)) w'" and "safe d0 w" and "follows (db w) (db w')"
  shows "safe d0 w'"
proof -
  have "job_ok (db w') j" if "j \<in> set (goroutines w')" for j
  proof -
    from assms(1) that consider "j \<in> set (goroutines w)" | iid where "j = Job_resumeWorkflowAfterTask iid"
      | iid def where "j = Job_executeWorkflow iid def"
      unfolding plain_jobs_def by blast
    then show ?thesis
    proof cases
      case 1
      with assms(2,3) show ?thesis by (auto simp: safe_def intro: follows_job_ok)
    qed (simp_all add: job_ok_def)
  qed
  then show ?thesis using assms(2,3) by (auto simp: safe_def intro: follows_trans)
qed

lemma plain_jobs_refl: "plain_jobs (set (goroutines w)) w"
  unfolding plain_jobs_def by blast

lemma safe_step:
  "goroutines w' = goroutines w \<Longrightarrow> follows (db w) (db w') \<Longrightarrow> safe d0 w \<Longrightarrow> safe d0 w'"
  by (rule plain_job_ok [OF plain_jobs_same [OF _ plain_jobs_refl]])

text \<open>Steps that append nothing and start no goroutine, or only ones that load what they need.\<close>

lemma quiet_safe:
  assumes "evolves False E (db w) (db w')" and "orderly E" and "goroutines w' = goroutines w" and "safe d0 w"
  shows "safe d0 w'"
  using assms(3) evolves_follows [OF assms(1,2) safe_follows [OF assms(4)]] assms(4) by (rule safe_step)

lemma plain_safe:
  assumes "evolves False E (db w) (db w')" and "orderly E"
    and "\<And>J. plain_jobs J w \<Longrightarrow> plain_jobs J w'" and "safe d0 w"
  shows "safe d0 w'"
  using assms(3) [OF plain_jobs_refl] assms(4) evolves_follows [OF assms(1,2) safe_follows [OF assms(4)]]
  by (rule plain_job_ok)

lemma go_safe: "safe d0 w \<Longrightarrow> job_ok (db w) j \<Longrightarrow> safe d0 (go j w)"
  by (simp add: safe_def go_def)

lemma SubmitTaskResult_safe:
  assumes "SubmitTaskResult E i m m' w = (r, w')" and "orderly E" and "safe d0 w"
  shows "safe d0 w'"
proof -
  have q: "safe d0 v'" if "evolves False E (db v) (db v')" "goroutines v' = goroutines v" "safe d0 v" for v v'
    by (rule quiet_safe [OF that(1) assms(2) that(2,3)])
  obtain t w1 where t: "GetTask E i w = (t, w1)" by fastforce
  have s1: "safe d0 w1" using q [OF GetTask_evolves [OF t evolves.stays] query_jobs(4) [OF t] assms(3)] .
  show ?thesis
  proof (cases t)
    case (Inl e)
    with assms(1) t s1 show ?thesis by (simp add: SubmitTaskResult_def)
  next
    case T: (Inr task)
    let ?iid = "tk_WorkflowInstanceID task"
    obtain c w2 where c: "CompleteTaskWithEvidence E i m m' w1 = (c, w2)" by fastforce
    obtain p w3 where p: "CountPendingTasks E ?iid w2 = (p, w3)" by fastforce
    obtain l w4 where l: "LoadInstance E ?iid w3 = (l, w4)" by fastforce
    have s2: "safe d0 w2" using q [OF task_updates_evolve(5) [OF c evolves.stays] task_update_jobs(5) [OF c] s1] .
    have s3: "safe d0 w3" using q [OF CountPendingTasks_evolves [OF p evolves.stays] list_jobs(3) [OF p] s2] .
    have s4: "safe d0 w4" using q [OF LoadInstance_evolves [OF l evolves.stays] LoadInstance_jobs [OF l] s3] .
    show ?thesis
    proof (cases l)
      case (Inl e)
      with assms(1) t T c p l s2 s3 s4 show ?thesis
        by (auto simp: SubmitTaskResult_def job_ok_def split: sum.splits if_splits intro: go_safe)
    next
      case L: (Inr x)
      obtain inst evs where x: "x = (inst, evs)" by fastforce
      obtain g w5 where g: "reg_Get E (wi_WorkflowDefinitionID inst) w4 = (g, w5)" by fastforce
      have s5: "safe d0 w5" using q [OF reg_Get_evolves [OF g evolves.stays] reg_Get_jobs [OF g] s4] .
      have ok: "job_ok (db w5) (Job_advanceFromState inst evs st def)" for st def
        using load_and_get_seen(3) [OF l [unfolded L x] g assms(2) safe_follows [OF s3]] by (simp add: job_ok_def)
      have up: "safe d0 (snd (UpdateWorkflowStatus E ?iid ''FAILED'' w5))"
        using q [OF UpdateWorkflowStatus_snd [OF _ evolves.stays] update_status_snd_jobs s5] by simp
      from assms(1) t T c p l L x g s2 s3 s4 s5 show ?thesis
        by (auto simp: SubmitTaskResult_def job_ok_def up split: sum.splits if_splits option.splits
            intro: go_safe go_safe [OF _ ok])
    qed
  qed
qed

lemma audit_safe: "orderly E \<Longrightarrow> safe d0 w \<Longrightarrow> safe d0 (audit E i t a m x w)"
  by (rule quiet_safe [OF audit_evolves [OF evolves.stays]]) simp_all

lemma api_SubmitTaskResult_safe:
  "api_SubmitTaskResult E S i a ev w = (r, w') \<Longrightarrow> orderly E \<Longrightarrow> safe d0 w \<Longrightarrow> safe d0 w'"
  by (auto simp: api_SubmitTaskResult_def split: prod.splits sum.splits
      dest!: SubmitTaskResult_safe intro: audit_safe)

section \<open>Steps of the process\<close>

lemma appending_handlers_safe:
  "DeployWorkflow E i w = (r1, w') \<Longrightarrow> orderly E \<Longrightarrow> safe d0 w \<Longrightarrow> safe d0 w'"
  "api_StartWorkflow E S sreq w = (r2, w') \<Longrightarrow> orderly E \<Longrightarrow> safe d0 w \<Longrightarrow> safe d0 w'"
  "SignalWorkflow E S greq v = (r3, v') \<Longrightarrow> orderly E \<Longrightarrow> safe d0 v \<Longrightarrow> safe d0 v'"
  by (blast intro: safe_step lifecycle_handler_jobs lifecycle_follows SignalWorkflow_follows safe_follows)+

lemma checkTimers_safe: "orderly E \<Longrightarrow> safe d0 w \<Longrightarrow> safe d0 (checkTimers E w)"
  by (rule plain_job_ok [OF checkTimers_jobs [OF plain_jobs_refl]])
    (auto intro: checkTimers_follows safe_follows)

lemma job_safe:
  assumes "run_job E j (w\<lparr>goroutines := js @ js'\<rparr>) = Some w'" and "goroutines w = js @ j # js'"
    and "reliable E" and "orderly E" and "safe d0 w"
  shows "safe d0 w'"
proof -
  let ?w = "w\<lparr>goroutines := js @ js'\<rparr>"
  have s: "safe d0 ?w" and ok: "job_ok (db ?w) j" using assms(2,5) by (auto simp: safe_def)
  have "follows (db ?w) (db w')" by (rule run_job_follows [OF assms(1,3,4) ok safe_follows [OF s]])
  with run_job_jobs [OF assms(1)] show ?thesis using s by (rule safe_step)
qed

lemmas handler_evolves =
  definition_handlers_evolve [OF surjective_pairing evolves.stays]
  lifecycle_handlers_evolve(3,5-7) [OF surjective_pairing evolves.stays]
  task_handlers_evolve(1-5,7-9) [OF surjective_pairing evolves.stays]
  resolution_handlers_evolve [OF surjective_pairing evolves.stays]
  task_handlers_evolve(6) [OF triple evolves.stays] Connect_evolves [OF triple evolves.stays]
  pushTasks_round_evolves [OF triple evolves.stays] WatchTask_evolves [OF triple evolves.stays]
  startup_recovery_evolves [OF evolves.stays]

lemmas handler_jobs =
  definition_handler_jobs [OF surjective_pairing] lifecycle_handler_jobs [OF surjective_pairing]
  task_handler_jobs(1-3,5-9) [OF surjective_pairing] resolution_handler_jobs [OF surjective_pairing]
  task_handler_jobs(4) [OF triple] pushTasks_round_jobs [OF triple] WatchTask_jobs [OF triple]
  startup_recovery_jobs

lemma sys_step_safe:
  "sys_step E S w w' \<Longrightarrow> reliable E \<Longrightarrow> orderly E \<Longrightarrow> safe d0 w \<Longrightarrow> safe d0 w'"
proof (induction rule: sys_step.induct)
  case (36 w js j js' w')
  show ?case by (rule job_safe [OF 36(2,1,3-5)])
next
  case (35 iid p w exit)
  have "evolves False E (db w) (db (monitorWorker iid p exit w))" by (simp add: evolves.stays)
  then show ?case using 35(3) supervisor_exit_jobs(1) 35(4) by (rule quiet_safe)
next
  case (37 w)
  have "evolves False E (db w) (db (shutdown w))" by (simp add: shutdown_def evolves.stays)
  then show ?case using 37(2) supervisor_exit_jobs(2) 37(3) by (rule quiet_safe)
next
  case (13 w m c)
  show ?case
    by (rule plain_safe [OF Connect_evolves [OF triple evolves.stays] 13(2) message_jobs 13(3)])
qed (assumption | rule appending_handlers_safe [OF surjective_pairing]
    api_SubmitTaskResult_safe [OF surjective_pairing] checkTimers_safe
    plain_safe [OF task_handlers_evolve(2) [OF surjective_pairing evolves.stays] _
      task_end_handler_jobs(2) [OF surjective_pairing]]
    plain_safe [OF task_handlers_evolve(3) [OF surjective_pairing evolves.stays] _
      task_end_handler_jobs(3) [OF surjective_pairing]]
    plain_safe [OF resolution_handlers_evolve(4) [OF surjective_pairing evolves.stays] _
      task_end_handler_jobs(4) [OF surjective_pairing]]
    handler_jobs handler_evolves quiet_safe)+

lemma reachable_safe:
  "reachable E S w w' \<Longrightarrow> reliable E \<Longrightarrow> orderly E \<Longrightarrow> safe d0 w \<Longrightarrow> safe d0 w'"
  by (induction rule: reachable.induct) (auto intro: sys_step_safe)

end
