(* ===== verification/Workflow_Machine.thy ===== *)
theory Workflow_Machine
  imports Progress_Properties
begin

text \<open>
  What a run of the engine promises, without its database: the states of a definition as a machine.
  Entering a state leads at once into another (\<open>Inl\<close>) or the run ends there with an outcome
  (\<open>Inr\<close>); \<open>settles\<close> is the run from a state to its outcome, with the number of states it passes.
  \<open>machine_effect\<close> is what an outcome means for the tables, and \<open>execute_step_settled\<close> and
  \<open>execute_step_passes\<close> show that one round of the engine is one step of the machine.
\<close>

section \<open>The machine\<close>

datatype run_outcome =
    WaitsForTasks BaseState "Action list"
  | WaitsForTimer BaseState "64 word"
  | Completes
  | Fails

text \<open>The parameter \<open>oob\<close> is the value a float out of range is converted to (\<open>ParseDuration\<close>).\<close>

definition entered :: "64 word \<Rightarrow> WorkflowDefinition \<Rightarrow> string \<Rightarrow> string + run_outcome" where
  "entered oob def ph =
     (if ph = [] then Inr Fails
      else case findState def ph of
        None \<Rightarrow> Inr Fails
      | Some (OperationState b acts) \<Rightarrow>
          if acts \<noteq> [] then Inr (WaitsForTasks b acts)
          else if bs_EndFlag b then Inr Completes
          else if bs_Transition b = [] then Inr Fails
          else Inl (bs_Transition b)
      | Some (DelayState b duration) \<Rightarrow>
          (case ParseDuration oob duration of Inl e \<Rightarrow> Inr Fails | Inr d \<Rightarrow> Inr (WaitsForTimer b d))
      | Some (OtherState b) \<Rightarrow> Inr Fails)"

inductive settles :: "64 word \<Rightarrow> WorkflowDefinition \<Rightarrow> string \<Rightarrow> nat \<Rightarrow> string \<Rightarrow> run_outcome \<Rightarrow> bool"
  for oob def where
  stop: "entered oob def ph = Inr out \<Longrightarrow> settles oob def ph 0 ph out"
| pass: "entered oob def ph = Inl ph1 \<Longrightarrow> settles oob def ph1 n ph' out \<Longrightarrow> settles oob def ph (Suc n) ph' out"

code_pred (modes: i \<Rightarrow> i \<Rightarrow> i \<Rightarrow> o \<Rightarrow> o \<Rightarrow> o \<Rightarrow> bool) settles .

inductive_simps settles_iff: "settles oob def ph n ph' out"

text \<open>
  Leaving a state whose tasks are finished, and the run that follows. The end flag counts before the
  transition; a phase the definition does not have fails the instance.
\<close>

definition leaving :: "WorkflowDefinition \<Rightarrow> string \<Rightarrow> string + run_outcome" where
  "leaving def ph =
     (case findState def ph of
        None \<Rightarrow> Inr Fails
      | Some st \<Rightarrow>
          if End st then Inr Completes
          else if GetTransition st = [] then Inr Fails
          else Inl (GetTransition st))"

inductive moves_on :: "64 word \<Rightarrow> WorkflowDefinition \<Rightarrow> string \<Rightarrow> nat \<Rightarrow> string \<Rightarrow> run_outcome \<Rightarrow> bool"
  for oob def where
  ends: "leaving def ph = Inr out \<Longrightarrow> moves_on oob def ph 0 ph out"
| enters: "leaving def ph = Inl ph1 \<Longrightarrow> settles oob def ph1 n ph' out \<Longrightarrow> moves_on oob def ph (Suc n) ph' out"

code_pred (modes: i \<Rightarrow> i \<Rightarrow> i \<Rightarrow> o \<Rightarrow> o \<Rightarrow> o \<Rightarrow> bool) moves_on .

text \<open>The machine is deterministic: a state settles in at most one way.\<close>

lemma settles_determ:
  "settles oob def ph n ph' out \<Longrightarrow> settles oob def ph m ph'' out' \<Longrightarrow> m = n \<and> ph'' = ph' \<and> out' = out"
proof (induction arbitrary: m ph'' out' rule: settles.induct)
  case (stop ph out)
  from stop(2) show ?case by cases (use stop(1) in simp_all)
next
  case (pass ph ph1 n ph' out)
  from pass(4) show ?case
  proof cases
    case stop
    with pass(1) show ?thesis by simp
  next
    case (pass ph2 k)
    with \<open>entered oob def ph = Inl ph1\<close> pass.IH show ?thesis by simp
  qed
qed

text \<open>The phase and the outcome at the end belong together.\<close>

lemma settles_end: "settles oob def ph n ph' out \<Longrightarrow> entered oob def ph' = Inr out"
  by (induction rule: settles.induct) simp_all

section \<open>What an outcome means for the tables\<close>

text \<open>
  \<open>t\<close> is the interaction at which the run begins: a timer is set with the clock of a later one.
\<close>

definition machine_effect ::
  "'n environment \<Rightarrow> uuid \<Rightarrow> nat \<Rightarrow> run_outcome \<Rightarrow> database \<Rightarrow> database \<Rightarrow> bool" where
  "machine_effect E iid t out d d' \<longleftrightarrow>
     (case out of
        WaitsForTasks b acts \<Rightarrow>
          status_of iid d' = status_of iid d \<and> timers d' = timers d \<and>
          (\<exists>rows. tasks d' = tasks d @ rows \<and> list_all2 (created_by iid b) acts rows)
      | WaitsForTimer b delay \<Rightarrow>
          status_of iid d' = status_of iid d \<and> tasks d' = tasks d \<and>
          (\<exists>i k. t \<le> k \<and> timers d' = timers d @ [delay_timer i iid b (timestamptz E (clock E k + sint delay))])
      | Completes \<Rightarrow> status_of iid d' = Some ''COMPLETED'' \<and> tasks d' = tasks d \<and> timers d' = timers d
      | Fails \<Rightarrow> status_of iid d' = Some ''FAILED'' \<and> tasks d' = tasks d \<and> timers d' = timers d)"

lemma machine_effect_earlier:
  assumes "machine_effect E iid t1 out d1 d'" and "t \<le> t1" and "status_of iid d1 = status_of iid d"
    and "tasks d1 = tasks d" and "timers d1 = timers d"
  shows "machine_effect E iid t out d d'"
  using assms by (auto simp: machine_effect_def split: run_outcome.splits) (blast intro: order_trans)

section \<open>One round of the engine\<close>

lemma entered_Inl:
  "entered oob def ph = Inl ph1 \<Longrightarrow>
   ph \<noteq> [] \<and> ph1 \<noteq> [] \<and> (\<exists>st. findState def ph = Some st \<and> silent st \<and> GetTransition st = ph1)"
  by (auto simp: entered_def silent_def End_def GetTransition_def split: if_splits option.splits state.splits sum.splits)

lemma silent_entered:
  "ph \<noteq> [] \<Longrightarrow> findState def ph = Some st \<Longrightarrow> silent st \<Longrightarrow> entered oob def ph = Inl (GetTransition st)"
  by (auto simp: entered_def silent_def End_def GetTransition_def split: state.splits)

lemma AppendEvents_tables:
  assumes "calm E" and "AppendEvents E i v evs w = (r, w')"
  shows "tasks (db w') = tasks (db w) \<and> timers (db w') = timers (db w)"
  using AppendEvents_calm(3) [OF assms(1), of i v evs w] assms(2)
  by (simp add: append_effect_def split: if_splits)

lemma advance_step_tables:
  assumes "calm E" and "advance_step E inst evs st w = (r, w')"
  shows "tasks (db w') = tasks (db w) \<and> timers (db w') = timers (db w)"
  using assms(2) by (auto simp: advance_step_def time_Now_simp Let_def UpdateCurrentPhase_calm [OF assms(1)]
      UpdateWorkflowStatus_calm [OF assms(1)] split: if_splits prod.splits dest!: AppendEvents_tables [OF assms(1)])

lemma advance_step_completes:
  assumes "calm E" and "End st" and "status_of (wi_ID inst) (db w) = Some s"
  obtains w' where "advance_step E inst evs st w = (Inr False, w')"
    and "status_of (wi_ID inst) (db w') = Some ''COMPLETED''"
    and "phase_of (wi_ID inst) (db w') = phase_of (wi_ID inst) (db w)"
    and "tasks (db w') = tasks (db w)" and "timers (db w') = timers (db w)"
proof -
  obtain w' where w': "advance_step E inst evs st w = (Inr False, w')"
      "status_of (wi_ID inst) (db w') = Some ''COMPLETED''"
    using advance_step_end [OF assms(1,2), of inst evs w] assms(3) by auto
  have app: "phase_of i (db w2) = phase_of i (db w1)" if "AppendEvents E j v es w1 = (r, w2)" for i j v es w1 r w2
    using AppendEvents_calm_row [OF assms(1), of wi_CurrentPhase w1 i j v es] that
    by (simp add: phase_of_def row_defs)
  have "phase_of (wi_ID inst) (db w') = phase_of (wi_ID inst) (db w)"
    using w'(1) assms(2) by (auto simp: advance_step_def time_Now_simp Let_def UpdateWorkflowStatus_calm [OF assms(1)]
        phase_of_def instance_at_status option.map_comp o_def row_defs split: prod.splits dest!: app)
  with w' advance_step_tables [OF assms(1) w'(1)] that show thesis by blast
qed

text \<open>
  The interactions that a run through \<open>n\<close> states may take, and what it must find: arguments that can
  be written as JSON and identifiers that no row has.
\<close>

definition room_for :: "'n environment \<Rightarrow> nat \<Rightarrow> nat \<Rightarrow> run_outcome \<Rightarrow> database \<Rightarrow> bool" where
  "room_for E t n out d \<longleftrightarrow>
     (case out of
        WaitsForTasks b acts \<Rightarrow>
          (\<forall>a \<in> set acts. marshalable (json_of_map (ac_Arguments a))) \<and>
          fresh_ids E t (8 * n + 8 * length acts + 2) (tasks d)
      | WaitsForTimer b delay \<Rightarrow>
          (\<forall>k \<in> {t..<t + 8 * n + 4}. fresh_uuid E k \<notin> (\<lambda>r. tm_ID (tr_Timer r)) ` set (timers d))
      | _ \<Rightarrow> True)"

lemma room_for_later:
  "room_for E t n out d \<Longrightarrow> tasks d' = tasks d \<Longrightarrow> timers d' = timers d \<Longrightarrow> t \<le> t' \<Longrightarrow>
   t' + 8 * n' \<le> t + 8 * n \<Longrightarrow> room_for E t' n' out d'"
  by (auto simp: room_for_def split: run_outcome.splits elim: fresh_ids_later)

lemma execute_step_passes:
  assumes "calm E" and "readable (db w) iid" and "phase_of iid (db w) = Some ph"
    and "entered (float_oob E) def ph = Inl ph1"
  obtains w1 where "execute_step E iid def w = (True, w1)" and "readable (db w1) iid"
    and "phase_of iid (db w1) = Some ph1" and "status_of iid (db w1) = status_of iid (db w)"
    and "tasks (db w1) = tasks (db w)" and "timers (db w1) = timers (db w)"
    and "tick w \<le> tick w1" and "tick w1 \<le> tick w + 8"
proof -
  obtain st where st: "ph \<noteq> []" "findState def ph = Some st" "silent st" "GetTransition st = ph1"
    using entered_Inl [OF assms(4)] by blast
  then obtain b where b: "st = OperationState b []" by (auto simp: silent_def split: state.splits)
  have tr: "\<not> End st" "GetTransition st \<noteq> []" using st(3) by (auto simp: silent_def)
  obtain inst evs where l: "loads (db w) iid inst evs" using readable_loads [OF assms(2)] by blast
  let ?w = "next_tick (next_tick w)"
  have load: "LoadInstance E iid w = (Inr (inst, evs), ?w)" using l by (simp add: LoadInstance_calm [OF assms(1)])
  have fields: "wi_ID inst = iid" "wi_CurrentPhase inst = ph" using loads_fields [OF l] assms(3) by auto
  have r: "readable (db ?w) (wi_ID inst)" using assms(2) fields by simp
  obtain w1 where w1: "advance_step E inst evs st ?w = (Inr True, w1)" "readable (db w1) (wi_ID inst)"
      "phase_of (wi_ID inst) (db w1) = map_option (\<lambda>_. GetTransition st) (phase_of (wi_ID inst) (db ?w))"
      "status_of (wi_ID inst) (db w1) = status_of (wi_ID inst) (db ?w)"
      "tick ?w \<le> tick w1" "tick w1 \<le> tick ?w + 6"
    by (rule advance_step_next [OF assms(1) r tr, of evs])
  have "execute_step E iid def w = (True, w1)"
    using load fields st(1,2) w1(1) b by (simp add: execute_step_def processState_def processOperationState_def)
  with w1 fields st(4) assms(3) advance_step_tables [OF assms(1) w1(1)] show thesis
    by (intro that [of w1]) simp_all
qed

lemma execute_step_stops:
  assumes "calm E" and "phase_of iid (db w) = Some ph" and "entered (float_oob E) def ph = Inr out"
  obtains w1 where "execute_step E iid def w = (False, w1)"
proof (cases "execute_step E iid def w")
  case (Pair again w1)
  have "\<not> again"
  proof
    assume again
    with Pair have "execute_step E iid def w = (True, w1)" by simp
    from execute_step_True [OF assms(1) this] assms(2,3) silent_entered show False by fastforce
  qed
  with Pair that show thesis by simp
qed

text \<open>The instance fails: nothing but its status changes.\<close>

lemma fails_effect:
  assumes "calm E" and "phase_of iid (db w) = Some ph"
  shows "phase_of iid (db (snd (UpdateWorkflowStatus E iid ''FAILED'' w))) = Some ph \<and>
    machine_effect E iid t Fails (db w) (db (snd (UpdateWorkflowStatus E iid ''FAILED'' w)))"
  using assms(2) by (auto simp: UpdateWorkflowStatus_calm [OF assms(1)] machine_effect_def phase_of_def status_of_def
      instance_at_status row_defs)

lemma loads_instance_id: "loads d iid inst evs \<Longrightarrow> iid \<in> instance_ids d"
  unfolding loads_def instance_at_def instance_ids_def by (metis image_eqI row_at_SomeD)

lemma tasks_effect:
  assumes "calm E" and "loads (db w) iid inst evs" and "room_for E (tick w) 0 (WaitsForTasks b acts) (db w)"
  obtains w' where "schedule_actions E inst (length evs) b 0 acts (next_tick (next_tick w)) = (True, w')"
    and "phase_of iid (db w') = phase_of iid (db w)"
    and "machine_effect E iid t (WaitsForTasks b acts) (db w) (db w')"
proof -
  let ?w = "next_tick (next_tick w)"
  have id: "wi_ID inst = iid" by (rule loads_fields(1) [OF assms(2)])
  have "iid \<in> instance_ids (db ?w)" using loads_instance_id [OF assms(2)] by simp
  moreover have "fresh_ids E (tick ?w) (8 * length acts) (tasks (db ?w))"
    using assms(3) by (auto simp: room_for_def elim: fresh_ids_later)
  ultimately obtain rows w' where s: "schedule_actions E inst (length evs) b 0 acts ?w = (True, w')"
      "tasks (db w') = tasks (db ?w) @ rows" "list_all2 (created_by iid b) acts rows"
    using schedule_tasks [OF assms(1) id [symmetric], of ?w acts] assms(3) by (fastforce simp: room_for_def)
  with schedule_keeps_instance [OF assms(1) s(1), of iid] show thesis
    by (intro that [of w']) (auto simp: machine_effect_def)
qed

lemma timer_effect:
  assumes "calm E" and "loads (db w) iid inst evs" and "room_for E (tick w) 0 (WaitsForTimer b delay) (db w)"
    and "ParseDuration (float_oob E) duration = Inr delay"
  shows "phase_of iid (db (processDelayState E inst evs b duration (next_tick (next_tick w)))) = phase_of iid (db w) \<and>
    machine_effect E iid (tick w) (WaitsForTimer b delay) (db w)
      (db (processDelayState E inst evs b duration (next_tick (next_tick w))))"
proof -
  let ?w = "next_tick (next_tick w)"
  have id: "wi_ID inst = iid" by (rule loads_fields(1) [OF assms(2)])
  have i: "wi_ID inst \<in> instance_ids (db ?w)" using loads_instance_id [OF assms(2)] id by simp
  have "fresh_uuid E (Suc (tick ?w)) \<notin> (\<lambda>t. tm_ID (tr_Timer t)) ` set (timers (db ?w))"
    using assms(3) by (simp add: room_for_def)
  note t = processDelayState_timer [OF assms(1) i assms(4) this, of evs b]
  have "\<exists>u k. tick w \<le> k \<and> timers (db (processDelayState E inst evs b duration ?w)) =
      timers (db w) @ [delay_timer u iid b (timestamptz E (clock E k + sint delay))]"
    unfolding t(1) by (rule exI [of _ "fresh_uuid E (Suc (tick ?w))"], rule exI [of _ "tick ?w"]) (simp add: id)
  with t(2-4) id show ?thesis by (simp add: machine_effect_def)
qed

lemma execute_step_settled:
  assumes "calm E" and "readable (db w) iid" and "phase_of iid (db w) = Some ph"
    and "entered (float_oob E) def ph = Inr out" and "room_for E (tick w) 0 out (db w)"
  obtains w' where "execute_step E iid def w = (False, w')" and "phase_of iid (db w') = Some ph"
    and "machine_effect E iid (tick w) out (db w) (db w')"
proof -
  let ?w = "next_tick (next_tick w)"
  obtain inst evs where l: "loads (db w) iid inst evs" using readable_loads [OF assms(2)] by blast
  have load: "LoadInstance E iid w = (Inr (inst, evs), ?w)" using l by (simp add: LoadInstance_calm [OF assms(1)])
  have id: "wi_ID inst = iid" "wi_CurrentPhase inst = ph" using loads_fields [OF l] assms(3) by auto
  have at: "phase_of iid (db ?w) = Some ph" using assms(3) by simp
  obtain s where st: "status_of (wi_ID inst) (db ?w) = Some s"
    using at id(1) by (auto simp: phase_of_def status_of_def)
  note found = that
  have fails: thesis if "execute_step E iid def w = (False, snd (UpdateWorkflowStatus E iid ''FAILED'' ?w))" "out = Fails"
  proof (rule found [OF that(1)])
    note f = fails_effect [OF assms(1) at, of "tick w"]
    from f show "phase_of iid (db (snd (UpdateWorkflowStatus E iid ''FAILED'' ?w))) = Some ph" by (rule conjunct1)
    from f that(2) show "machine_effect E iid (tick w) out (db w) (db (snd (UpdateWorkflowStatus E iid ''FAILED'' ?w)))"
      by simp
  qed
  show thesis
  proof (cases "if ph = [] then None else findState def ph")
    case None
    then have "out = Fails" using assms(4) by (auto simp: entered_def split: if_splits)
    with None show thesis using load id by (intro fails) (auto simp: execute_step_def split: if_splits)
  next
    case (Some st)
    then have f: "ph \<noteq> []" "findState def ph = Some st" by (auto split: if_splits)
    have step: "execute_step E iid def w = processState E inst evs st ?w"
      using load id f by (simp add: execute_step_def)
    show thesis
    proof (cases st)
      case (OtherState b)
      with f assms(4) step id(1) show thesis by (intro fails) (simp_all add: entered_def processState_def)
    next
      case (DelayState b duration)
      show thesis
      proof (cases "ParseDuration (float_oob E) duration")
        case (Inl e)
        with DelayState f assms(4) step id(1) show thesis
          by (intro fails) (simp_all add: entered_def processState_def processDelayState_def)
      next
        case (Inr delay)
        then have "out = WaitsForTimer b delay" using DelayState f assms(4) by (simp add: entered_def)
        with timer_effect [OF assms(1) l _ Inr, of b] assms(3,5) DelayState step show thesis
          by (intro found [of "processDelayState E inst evs b duration ?w"]) (simp_all add: processState_def)
      qed
    next
      case op: (OperationState b acts)
      show thesis
      proof (cases "acts = []")
        case False
        then have out: "out = WaitsForTasks b acts" using op f assms(4) by (simp add: entered_def)
        obtain w' where w': "schedule_actions E inst (length evs) b 0 acts ?w = (True, w')"
            "phase_of iid (db w') = phase_of iid (db w)" "machine_effect E iid (tick w) out (db w) (db w')"
          unfolding out by (rule tasks_effect [OF assms(1) l assms(5) [unfolded out], of "tick w"])
        with False op step assms(3) show thesis
          by (intro found [of w']) (simp_all add: processState_def processOperationState_def)
      next
        case True
        note adv = advance_step_completes [OF assms(1) _ st, of "OperationState b []" evs]
        show thesis
        proof (cases "bs_EndFlag b")
          case True
          then have "out = Completes" using op \<open>acts = []\<close> f assms(4) by (simp add: entered_def)
          moreover have "End (OperationState b [])" using True by (simp add: End_def)
          then obtain w' where w': "advance_step E inst evs (OperationState b []) ?w = (Inr False, w')"
              "status_of (wi_ID inst) (db w') = Some ''COMPLETED''"
              "phase_of (wi_ID inst) (db w') = phase_of (wi_ID inst) (db ?w)"
              "tasks (db w') = tasks (db ?w)" "timers (db w') = timers (db ?w)"
            by (rule adv)
          ultimately show thesis using op \<open>acts = []\<close> step id(1) at
            by (intro found [of w']) (simp_all add: processState_def processOperationState_def machine_effect_def)
        next
          case False
          then have "out = Fails" "bs_Transition b = []"
            using op \<open>acts = []\<close> f assms(4) by (auto simp: entered_def split: if_splits)
          with False op \<open>acts = []\<close> step id(1) show thesis
            by (intro fails) (simp_all add: processState_def processOperationState_def advance_step_def End_def
                GetTransition_def UpdateWorkflowStatus_calm [OF assms(1)])
        qed
      qed
    qed
  qed
qed

section \<open>Leaving a state\<close>

lemma advance_step_leaves:
  assumes "calm E" and "readable (db w) (wi_ID inst)" and "phase_of (wi_ID inst) (db w) = Some ph"
    and "findState def ph = Some st"
  shows "case leaving def ph of
      Inl ph1 \<Rightarrow> \<exists>w1. advance_step E inst evs st w = (Inr True, w1) \<and> readable (db w1) (wi_ID inst) \<and>
        phase_of (wi_ID inst) (db w1) = Some ph1 \<and>
        status_of (wi_ID inst) (db w1) = status_of (wi_ID inst) (db w) \<and>
        tasks (db w1) = tasks (db w) \<and> timers (db w1) = timers (db w) \<and>
        tick w \<le> tick w1 \<and> tick w1 \<le> tick w + 6
    | Inr out \<Rightarrow> \<exists>w1. advance_step E inst evs st w = (Inr False, w1) \<and>
        phase_of (wi_ID inst) (db w1) = Some ph \<and> machine_effect E (wi_ID inst) t out (db w) (db w1)"
proof -
  obtain s where s: "status_of (wi_ID inst) (db w) = Some s"
    using assms(3) by (auto simp: phase_of_def status_of_def)
  consider "End st" | "\<not> End st" "GetTransition st = []" | "\<not> End st" "GetTransition st \<noteq> []" by blast
  then show ?thesis
  proof cases
    case 1
    then obtain w1 where "advance_step E inst evs st w = (Inr False, w1)"
        "status_of (wi_ID inst) (db w1) = Some ''COMPLETED''"
        "phase_of (wi_ID inst) (db w1) = phase_of (wi_ID inst) (db w)"
        "tasks (db w1) = tasks (db w)" "timers (db w1) = timers (db w)"
      by (rule advance_step_completes [OF assms(1) _ s, of _ evs])
    with 1 assms(3,4) show ?thesis by (auto simp: leaving_def machine_effect_def)
  next
    case 2
    with fails_effect [OF assms(1,3), of t] assms(4) show ?thesis
      by (simp add: leaving_def advance_step_def UpdateWorkflowStatus_calm [OF assms(1)])
  next
    case 3
    then obtain w1 where w1: "advance_step E inst evs st w = (Inr True, w1)" "readable (db w1) (wi_ID inst)"
        "phase_of (wi_ID inst) (db w1) = map_option (\<lambda>_. GetTransition st) (phase_of (wi_ID inst) (db w))"
        "status_of (wi_ID inst) (db w1) = status_of (wi_ID inst) (db w)"
        "tick w \<le> tick w1" "tick w1 \<le> tick w + 6"
      by (rule advance_step_next [OF assms(1,2), of st evs])
    with 3 assms(3,4) advance_step_tables [OF assms(1) w1(1)] show ?thesis by (simp add: leaving_def)
  qed
qed

end
