(* ===== verification/Machine_Properties.thy ===== *)
theory Machine_Properties
  imports Workflow_Machine
begin

text \<open>
  The engine refines the machine of \<open>Workflow_Machine\<close>: the runs that start at a state and the runs
  that leave a state whose tasks are finished end where the machine ends, and a run returns exactly
  when the machine settles.
\<close>

section \<open>Runs\<close>

lemma run_settles:
  fixes w :: "'z world_scheme"
  assumes "calm E"
  shows "settles oob def ph n ph' out \<Longrightarrow> oob = float_oob E \<Longrightarrow> readable (db w) iid \<Longrightarrow>
    phase_of iid (db w) = Some ph \<Longrightarrow> room_for E (tick w) n out (db w) \<Longrightarrow>
    \<exists>w' :: 'z world_scheme. executeWorkflow E iid def w = Some w' \<and> phase_of iid (db w') = Some ph' \<and>
      machine_effect E iid (tick w) out (db w) (db w')"
proof (induction arbitrary: w rule: settles.induct)
  case (stop ph out)
  then obtain w' where w': "execute_step E iid def w = (False, w')" "phase_of iid (db w') = Some ph"
      "machine_effect E iid (tick w) out (db w) (db w')"
    using execute_step_settled [OF assms] by metis
  then show ?case by (simp add: executeWorkflow.simps [of E iid def w])
next
  case (pass ph ph1 n ph' out)
  then obtain w1 :: "'z world_scheme" where w1: "execute_step E iid def w = (True, w1)" "readable (db w1) iid"
      "phase_of iid (db w1) = Some ph1" "status_of iid (db w1) = status_of iid (db w)"
      "tasks (db w1) = tasks (db w)" "timers (db w1) = timers (db w)"
      "tick w \<le> tick w1" "tick w1 \<le> tick w + 8"
    using execute_step_passes [OF assms, of w iid ph def ph1] by auto
  have "room_for E (tick w1) n out (db w1)"
    by (rule room_for_later [OF pass.prems(4) w1(5-7)]) (use w1(8) in simp)
  with pass.IH [OF pass.prems(1) w1(2,3)] obtain w' :: "'z world_scheme" where
      w': "executeWorkflow E iid def w1 = Some w'" "phase_of iid (db w') = Some ph'"
        "machine_effect E iid (tick w1) out (db w1) (db w')" by blast
  have "machine_effect E iid (tick w) out (db w) (db w')"
    using w'(3) w1(7,4-6) by (rule machine_effect_earlier)
  with w1(1) w' show ?case by (simp add: executeWorkflow.simps [of E iid def w])
qed

text \<open>
  C3. A run of the engine is a run of the machine: where the machine settles from the phase of an
  instance, after n states without actions, in the state ph' with an outcome, a call of
  \<open>executeWorkflow\<close> returns with the instance in ph' and exactly the outcome's effect on its status, the tasks and
  the timers: the tasks of ph', its timer, or the final status.
\<close>

theorem run_refines_machine:
  assumes "calm E" and "readable (db w) iid" and "phase_of iid (db w) = Some ph"
    and "settles (float_oob E) def ph n ph' out" and "room_for E (tick w) n out (db w)"
  shows "\<exists>w'. executeWorkflow E iid def w = Some w' \<and> phase_of iid (db w') = Some ph' \<and>
    machine_effect E iid (tick w) out (db w) (db w')"
  using run_settles [OF assms(1,4) refl assms(2,3,5)] .

definition relay_definition :: WorkflowDefinition where
  "relay_definition = example_definition\<lparr>wd_States := [
     OperationState \<lparr>bs_Name = ''one'', bs_Type = ''operation'', bs_Transition = ''two'', bs_EndFlag = False\<rparr> [],
     DelayState \<lparr>bs_Name = ''two'', bs_Type = ''delay'', bs_Transition = ''three'', bs_EndFlag = False\<rparr> ''PT1S'']\<rparr>"

lemma relay_settles:
  "settles oob relay_definition ''one'' 1 ''two''
     (WaitsForTimer \<lparr>bs_Name = ''two'', bs_Type = ''delay'', bs_Transition = ''three'', bs_EndFlag = False\<rparr> 1000000000)"
proof -
  have "ParseDuration oob ''PT1S'' = Inr 1000000000" by code_simp
  then have "entered oob relay_definition ''two'' = Inr (WaitsForTimer
      \<lparr>bs_Name = ''two'', bs_Type = ''delay'', bs_Transition = ''three'', bs_EndFlag = False\<rparr> 1000000000)"
    by (simp add: entered_def relay_definition_def findState_def GetName_def)
  moreover have "entered oob relay_definition ''one'' = Inl ''two''"
    by (simp add: entered_def relay_definition_def findState_def GetName_def)
  ultimately show ?thesis using settles.pass settles.stop by (metis One_nat_def)
qed

lemma example_readable: "readable example_db 7" "phase_of 7 example_db = Some ''one''"
  by (simp_all add: readable_def example_defs instance_at_def scanInstance_def scan_event_def json_Unmarshal_def
      phase_of_def)

theorem run_refines_machine_witness:
  "\<exists>w' t. executeWorkflow calm_env 7 relay_definition example_world = Some w' \<and> phase_of 7 (db w') = Some ''two'' \<and>
     timers (db w') = [t] \<and> tm_WorkflowInstanceID (tr_Timer t) = 7"
proof -
  let ?out = "WaitsForTimer \<lparr>bs_Name = ''two'', bs_Type = ''delay'', bs_Transition = ''three'', bs_EndFlag = False\<rparr> 1000000000"
  have r: "readable (db example_world) 7" "phase_of 7 (db example_world) = Some ''one''"
      "timers (db example_world) = []"
    using example_readable by (simp_all add: example_world_def example_defs)
  then have "room_for calm_env (tick example_world) 1 ?out (db example_world)" by (simp add: room_for_def)
  from run_refines_machine [OF calm_env_calm r(1,2) relay_settles this] r(3)
  show ?thesis by (auto simp: machine_effect_def delay_timer_def)
qed

section \<open>When a run returns\<close>

lemma returning_run_settles:
  assumes "calm E0"
  shows "executeWorkflow E iid def w = Some w' \<Longrightarrow>
    E = E0 \<longrightarrow> readable (db w) iid \<longrightarrow> phase_of iid (db w) = Some ph \<longrightarrow>
    (\<exists>n ph' out. settles (float_oob E0) def ph n ph' out)"
proof (induction arbitrary: ph rule: executeWorkflow.raw_induct [rotated, consumes 1, case_names step])
  case (step exec E iid def w w')
  show ?case
  proof (intro impI)
    assume E: "E = E0" and r: "readable (db w) iid" and ph: "phase_of iid (db w) = Some ph"
    show "\<exists>n ph' out. settles (float_oob E0) def ph n ph' out"
    proof (cases "entered (float_oob E0) def ph")
      case (Inr out)
      then show ?thesis by (blast intro: settles.stop)
    next
      case (Inl ph1)
      then obtain w1 where w1: "execute_step E iid def w = (True, w1)" "readable (db w1) iid"
          "phase_of iid (db w1) = Some ph1"
        using execute_step_passes [OF assms r ph] E by metis
      with step(2) have "exec E iid def w1 = Some w'" by simp
      from step(1) [OF this] E w1(2,3) Inl show ?thesis by (blast intro: settles.pass)
    qed
  qed
qed

lemma settled_run_returns:
  assumes "calm E"
  shows "settles oob def ph n ph' out \<Longrightarrow> oob = float_oob E \<Longrightarrow> readable (db w) iid \<Longrightarrow>
    phase_of iid (db w) = Some ph \<Longrightarrow> \<exists>w'. executeWorkflow E iid def w = Some w'"
proof (induction arbitrary: w rule: settles.induct)
  case (stop ph out)
  then obtain w1 where "execute_step E iid def w = (False, w1)"
    using execute_step_stops [OF assms] by metis
  then show ?case by (simp add: executeWorkflow.simps [of E iid def w])
next
  case (pass ph ph1 n ph' out)
  then obtain w1 where w1: "execute_step E iid def w = (True, w1)" "readable (db w1) iid"
      "phase_of iid (db w1) = Some ph1"
    using execute_step_passes [OF assms, of w iid ph def ph1] by metis
  with pass.IH [OF pass.prems(1) w1(2,3)] show ?case by (simp add: executeWorkflow.simps [of E iid def w])
qed

text \<open>
  C22. A run of \<open>executeWorkflow\<close> returns if and only if the machine settles from the phase of the
  instance: whether the engine comes back is decided by the definition alone, whatever tasks, timers
  and events there are and whether or not the inserts succeed.
\<close>

theorem run_returns_iff_settles:
  assumes "calm E" and "readable (db w) iid" and "phase_of iid (db w) = Some ph"
  shows "(\<exists>w'. executeWorkflow E iid def w = Some w') \<longleftrightarrow>
    (\<exists>n ph' out. settles (float_oob E) def ph n ph' out)"
  using returning_run_settles [OF assms(1), of E iid def w] settled_run_returns [OF assms(1) _ refl assms(2,3)]
    assms(2,3) by blast

lemma loop_never_settles: "settles oob loop_definition ph n ph' out \<Longrightarrow> ph \<noteq> ''one''"
  by (induction rule: settles.induct) (auto simp: entered_def loop_definition_def findState_def GetName_def)

theorem run_returns_iff_settles_witness:
  "executeWorkflow calm_env 7 loop_definition example_world = None \<and>
   (\<exists>w'. executeWorkflow calm_env 7 relay_definition example_world = Some w')"
proof -
  have r: "readable (db example_world) 7" "phase_of 7 (db example_world) = Some ''one''"
    using example_readable by (simp_all add: example_world_def)
  have "\<nexists>w'. executeWorkflow calm_env 7 loop_definition example_world = Some w'"
    unfolding run_returns_iff_settles [OF calm_env_calm r] using loop_never_settles by blast
  moreover have "\<exists>w'. executeWorkflow calm_env 7 relay_definition example_world = Some w'"
    unfolding run_returns_iff_settles [OF calm_env_calm r] using relay_settles by blast
  ultimately show ?thesis by simp
qed

section \<open>The last finished task\<close>

lemma advance_moves_on:
  fixes w :: "'z world_scheme"
  assumes "calm E" and "readable (db w) iid" and "wi_ID inst = iid" and "phase_of iid (db w) = Some ph"
    and "findState def ph = Some st" and "moves_on (float_oob E) def ph n ph' out"
    and "room_for E (tick w) n out (db w)"
  obtains w' :: "'z world_scheme" where "advanceFromState E inst evs st def w = Some (Inr (), w')"
    and "phase_of iid (db w') = Some ph'" and "machine_effect E iid (tick w) out (db w) (db w')"
proof -
  note adv = advance_step_leaves [OF assms(1), of w inst ph def st evs "tick w", unfolded assms(3), OF assms(2,4,5)]
  from assms(6) show thesis
  proof cases
    case ends
    with adv obtain w1 where "advance_step E inst evs st w = (Inr False, w1)" "phase_of iid (db w1) = Some ph"
        "machine_effect E iid (tick w) out (db w) (db w1)" by auto
    with ends that [of w1] show thesis by (simp add: advanceFromState_def)
  next
    case (enters ph1 m)
    with adv obtain w1 :: "'z world_scheme" where
        w1: "advance_step E inst evs st w = (Inr True, w1)" "readable (db w1) iid"
        "phase_of iid (db w1) = Some ph1" "status_of iid (db w1) = status_of iid (db w)"
        "tasks (db w1) = tasks (db w)" "timers (db w1) = timers (db w)"
        "tick w \<le> tick w1" "tick w1 \<le> tick w + 6" by auto
    have "room_for E (tick w1) m out (db w1)"
      by (rule room_for_later [OF assms(7) w1(5-7)]) (use w1(8) enters(1) in simp)
    from run_settles [OF assms(1) enters(3) refl w1(2,3) this] obtain w' :: "'z world_scheme" where
        w': "executeWorkflow E iid def w1 = Some w'" "phase_of iid (db w') = Some ph'"
        "machine_effect E iid (tick w1) out (db w1) (db w')" by blast
    have "machine_effect E iid (tick w) out (db w) (db w')"
      using w'(3) w1(7,4-6) by (rule machine_effect_earlier)
    with w1(1) w'(1,2) assms(3) show thesis by (intro that) (simp_all add: advanceFromState_def)
  qed
qed

text \<open>
  C4. When the last open task of a state is finished the workflow moves on as the machine does: the
  goroutine that \<open>CompleteTask\<close> and \<open>FailTask\<close> start returns, the instance is in the state ph' where
  the machine settles after leaving the current one, and the tables show the effect of the outcome.
\<close>

theorem finished_tasks_move_on:
  fixes w :: "'z engine_world_scheme"
  assumes "calm E" and "readable (db w) iid" and "instance_at iid (db w) = Some r"
    and "open_tasks iid (db w) = []"
    and "reg_cache w (wi_WorkflowDefinitionID r) = Some c" and "clock E (tick w + 3) < cd_expiresAt c"
    and "moves_on (float_oob E) (cd_def c) (wi_CurrentPhase r) n ph' out"
    and "room_for E (tick w) (Suc n) out (db w)"
  shows "\<exists>w'. run_job E (Job_resumeWorkflowAfterTask iid) w = Some w' \<and>
    phase_of iid (db w') = Some ph' \<and> machine_effect E iid (tick w) out (db w) (db w')"
proof -
  let ?w3 = "next_tick (next_tick (next_tick w))"
  let ?w4 = "next_tick ?w3"
  obtain inst evs where l: "loads (db w) iid inst evs" using readable_loads [OF assms(2)] by blast
  have f: "wi_ID inst = iid" "wi_CurrentPhase inst = wi_CurrentPhase r"
      "wi_WorkflowDefinitionID inst = wi_WorkflowDefinitionID r"
    using l assms(3) by (auto simp: loads_def instance_at_def dest: scanInstance_fields row_at_SomeD)
  have load: "LoadInstance E iid (next_tick w) = (Inr (inst, evs), ?w3)"
    using l by (simp add: LoadInstance_calm [OF assms(1)])
  have "reg_cache ?w3 = reg_cache w" by (simp add: next_tick_def)
  then have get: "reg_Get E (wi_WorkflowDefinitionID r) ?w3 = (Inr (cd_def c), ?w4)"
    using assms(5,6) by (intro reg_Get_cached) (simp_all add: numeral_3_eq_3)
  note resume = load get f(2,3) assms(4) resumeWorkflowAfterTask_def CountPendingTasks_def db_query_calm [OF assms(1)]
  have ph: "phase_of iid (db ?w4) = Some (wi_CurrentPhase r)" using assms(3) by (simp add: phase_of_def)
  have r4: "readable (db ?w4) iid" using assms(2) by simp
  show ?thesis
  proof (cases "findState (cd_def c) (wi_CurrentPhase r)")
    case None
    with assms(7) have "ph' = wi_CurrentPhase r" "out = Fails" by (auto simp: leaving_def elim: moves_on.cases)
    moreover have "resumeWorkflowAfterTask E iid w = Some (UpdateWorkflowStatus E iid ''FAILED'' ?w4)"
      using None by (simp add: resume)
    ultimately show ?thesis using fails_effect [OF assms(1) ph, of "tick w"] by (simp add: run_job_def)
  next
    case (Some st)
    have run: "resumeWorkflowAfterTask E iid w = advanceFromState E inst evs st (cd_def c) ?w4"
      using Some by (simp add: resume)
    have "room_for E (tick ?w4) n out (db ?w4)" by (rule room_for_later [OF assms(8)]) simp_all
    from advance_moves_on [OF assms(1) r4 f(1) ph Some assms(7) this, of evs] obtain w' :: "'z engine_world_scheme"
      where w': "advanceFromState E inst evs st (cd_def c) ?w4 = Some (Inr (), w')"
        "phase_of iid (db w') = Some ph'" "machine_effect E iid (tick ?w4) out (db ?w4) (db w')" by blast
    have "machine_effect E iid (tick w) out (db w) (db w')"
      by (rule machine_effect_earlier [OF w'(3)]) simp_all
    with run w' show ?thesis by (simp add: run_job_def)
  qed
qed

lemma two_step_moves_on:
  "moves_on oob two_step_definition ''one'' 1 ''two''
     (WaitsForTasks \<lparr>bs_Name = ''two'', bs_Type = ''operation'', bs_Transition = [], bs_EndFlag = True\<rparr> [example_action])"
proof -
  have "leaving two_step_definition ''one'' = Inl ''two''" using finished_defs by (simp add: leaving_def)
  moreover have "entered oob two_step_definition ''two'' = Inr (WaitsForTasks
      \<lparr>bs_Name = ''two'', bs_Type = ''operation'', bs_Transition = [], bs_EndFlag = True\<rparr> [example_action])"
    using finished_defs by (simp add: entered_def)
  ultimately show ?thesis using moves_on.enters settles.stop by (metis One_nat_def)
qed

theorem finished_tasks_move_on_witness:
  "\<exists>w' r. run_job calm_env (Job_resumeWorkflowAfterTask 7) finished_process = Some w' \<and>
     phase_of 7 (db w') = Some ''two'' \<and> tasks (db w') = tasks (db finished_process) @ [r]"
proof -
  let ?c = "\<lparr>cd_def = two_step_definition, cd_expiresAt = 1000\<rparr>"
  let ?out = "WaitsForTasks \<lparr>bs_Name = ''two'', bs_Type = ''operation'', bs_Transition = [], bs_EndFlag = True\<rparr> [example_action]"
  have r: "readable (db finished_process) 7" "instance_at 7 (db finished_process) = Some example_instance"
      "open_tasks 7 (db finished_process) = []"
    by (simp_all add: finished_process_def readable_def example_defs instance_at_def scanInstance_def
        scan_event_def json_Unmarshal_def open_tasks_def open_status_def row_defs)
  have c: "reg_cache finished_process (wi_WorkflowDefinitionID example_instance) = Some ?c"
      "clock calm_env (tick finished_process + 3) < cd_expiresAt ?c"
    by (simp_all add: finished_process_def example_process_def finished_defs)
  have "fresh_ids calm_env (tick finished_process) 26 (tasks (db finished_process))"
    by (rule calm_env_fresh) (simp_all add: finished_process_def example_process_def example_defs row_defs)
  then have room: "room_for calm_env (tick finished_process) (Suc 1) ?out (db finished_process)"
    by (simp add: room_for_def example_action_def)
  have m: "moves_on (float_oob calm_env) (cd_def ?c) (wi_CurrentPhase example_instance) 1 ''two'' ?out"
    using two_step_moves_on finished_defs(1) by simp
  from finished_tasks_move_on [OF calm_env_calm r c m room] show ?thesis
    by (fastforce simp: machine_effect_def list_all2_Cons1)
qed

end
