(* ===== verification/History_Properties.thy ===== *)
theory History_Properties
  imports System_Numbering Server_Properties Machine_Properties
begin

text \<open>
  What the history of an instance looks like in every reachable state, and what becomes of it when
  the database loses an event.
\<close>

section \<open>No gaps\<close>

text \<open>
  The history has no gaps: as long as no statement fails, every answer arrives and the other clients number their
  events as the engine does, in every state the process can reach the events of each instance,
  signals aside, are numbered 1, 2, ..., n in the order they were recorded, and the version of
  each instance counts its events. No interleaving of handlers, timers and goroutines breaks
  this, although a goroutine may append long after it has read the instance.
\<close>

theorem history_gap_free:
  assumes "reachable E S w w'" and "orderly E" and "reliable E"
    and "tight (db w)" and "goroutines w = []"
  shows "(\<forall>iid. \<exists>n. filter (\<lambda>k. k \<noteq> 0) (map hr_SequenceNum (filter (\<lambda>h. hr_Instance h = iid)
        (workflow_history (db w')))) = map int [1..<Suc n]) \<and>
    (\<forall>r \<in> set (workflow_instances (db w')).
       wi_Version r = int (length (filter (\<lambda>h. hr_Instance h = wi_ID r) (workflow_history (db w')))))"
proof -
  have "safe (db w) w" using assms(4,5) by (simp add: safe_def follows_refl)
  then have "tight (db w')" using reachable_safe [OF assms(1,3,2)] by (auto simp: safe_def intro: follows_tight)
  then show ?thesis unfolding tight_def events_of_def numbers_of_def one_to_def by blast
qed

lemma example_tight: "tight example_db"
  using example_wf by (simp add: tight_def numbers_of_def events_of_def one_to_def example_defs)

theorem history_gap_free_witness:
  "\<exists>n. filter (\<lambda>k. k \<noteq> 0) (map hr_SequenceNum (filter (\<lambda>h. hr_Instance h = 7)
     (workflow_history (db (snd (api_StartWorkflow calm_env identity_struct example_request example_supervisor)))))) =
     map int [1..<Suc n]"
proof -
  have "reliable calm_env" by (simp add: reliable_def)
  moreover have "tight (db example_supervisor)" "goroutines example_supervisor = []"
    using example_tight by (simp_all add: example_supervisor_def)
  ultimately show ?thesis
    using history_gap_free [OF reachable.step [OF reachable.start sys_step.intros(7)]
        calm_orderly [OF calm_env_calm]] by blast
qed

section \<open>A lost event\<close>

lemma taken_number_lost:
  assumes "calm E" and "he_SequenceNum ev \<in> set (numbers_of iid (db w))"
  shows "db (snd (AppendEvents E iid v [ev] w)) = db w"
proof -
  have "(iid, he_SequenceNum ev) \<in> history_key ` set (workflow_history (db w))"
    using assms(2) by (auto simp: numbers_of_def events_of_def history_key_def)
  then have "\<not> accepts_events iid [ev] (db w)" by (simp add: accepts_events_def)
  then show ?thesis by (simp add: AppendEvents_calm [OF assms(1)])
qed

text \<open>
  The number of the next event is taken: what the engine reads has one event less than the highest
  number recorded, or fewer. Then no event that is numbered after the count of those read is recorded.
\<close>

definition next_taken :: "uuid \<Rightarrow> database \<Rightarrow> bool" where
  "next_taken iid d \<longleftrightarrow> int (length (history_of iid 0 d)) + 1 \<in> set (numbers_of iid d)"

lemma next_taken_frame: "workflow_history d' = workflow_history d \<Longrightarrow> next_taken iid d' = next_taken iid d"
  by (simp add: next_taken_def history_of_def numbers_of_def events_of_def)

lemma refused:
  assumes "calm E" and "next_taken iid (db w)" and "loads (db w) iid inst evs" and "workflow_history (db v) = workflow_history (db w)"
    and "he_SequenceNum ev = int (length evs) + 1"
  shows "db (snd (AppendEvents E iid x [ev] v)) = db v"
proof -
  have "length evs = length (history_of iid 0 (db w))" using assms(3) scan_rows_length by (fastforce simp: loads_def)
  moreover have "numbers_of iid (db v) = numbers_of iid (db w)" using assms(4) by (simp add: numbers_of_def events_of_def)
  ultimately show ?thesis using assms(2,5) by (intro taken_number_lost [OF assms(1)]) (simp add: next_taken_def)
qed

lemma status_phase_history:
  assumes "calm E"
  shows "workflow_history (db (snd (UpdateWorkflowStatus E i st w))) = workflow_history (db w)"
    and "workflow_history (db (snd (UpdateCurrentPhase E i ph w))) = workflow_history (db w)"
  by (simp_all add: UpdateWorkflowStatus_calm [OF assms] UpdateCurrentPhase_calm [OF assms])

lemma create_history:
  assumes "calm E"
  shows "workflow_history (db (snd (CreateTask E t w))) = workflow_history (db w)"
    and "workflow_history (db (snd (CreateTimer E i dl ty m w))) = workflow_history (db w)"
  by (auto simp: CreateTask_def CreateTimer_def uuid_New_simp db_exec_calm [OF assms] Let_def
      split: sum.splits if_splits option.splits)

lemma advance_step_refused:
  assumes "calm E" and "next_taken iid (db w)" and "loads (db w) iid inst evs"
    and "workflow_history (db v) = workflow_history (db w)"
  shows "workflow_history (db (snd (advance_step E inst evs st v))) = workflow_history (db w)"
proof -
  have app: "db v2 = db v1" if "AppendEvents E (wi_ID inst) x [engine_event (1 + int (length evs)) ty p now] v1 = (y, v2)"
      "workflow_history (db v1) = workflow_history (db w)" for x ty p now v1 y v2
    using refused [OF assms(1-3) that(2), of "engine_event (1 + int (length evs)) ty p now" x] that(1) loads_fields(1) [OF assms(3)]
    by (simp add: engine_event_def add.commute)
  show ?thesis
    using assms(4) by (auto simp: advance_step_def time_Now_simp Let_def UpdateCurrentPhase_calm [OF assms(1)]
        UpdateWorkflowStatus_calm [OF assms(1)] algebra_simps split: prod.splits dest!: app)
qed

lemma execute_step_refused:
  assumes "calm E" and "next_taken iid (db w)"
    and "\<forall>b acts. ph \<noteq> [] \<longrightarrow> findState def ph = Some (OperationState b acts) \<longrightarrow> length acts \<le> 1"
    and "phase_of iid (db w) = Some ph"
  shows "workflow_history (db (snd (execute_step E iid def w))) = workflow_history (db w)"
proof (cases "fst (LoadInstance E iid w)")
  case (Inl e)
  then obtain w1 where load: "LoadInstance E iid w = (Inl e, w1)" by (cases "LoadInstance E iid w") auto
  then show ?thesis using LoadInstance_db [OF assms(1) load] by (simp add: execute_step_def)
next
  case (Inr r)
  obtain inst evs w1 where "LoadInstance E iid w = (Inr (inst, evs), w1)" using Inr by (cases "LoadInstance E iid w"; cases r) auto
  then have load: "LoadInstance E iid w = (Inr (inst, evs), next_tick (next_tick w))" and l: "loads (db w) iid inst evs"
    by (simp_all add: LoadInstance_calm [OF assms(1)])
  let ?w = "next_tick (next_tick w)"
  note adv = advance_step_refused [OF assms(1,2) l]
  have ref: "db (snd (AppendEvents E (wi_ID inst) x [ev] v)) = db v"
    if "workflow_history (db v) = workflow_history (db w)" "he_SequenceNum ev = int (length evs) + 1" for x ev v
    using refused [OF assms(1,2) l that] loads_fields(1) [OF l] by simp
  have state: "workflow_history (db (snd (processState E inst evs st ?w))) = workflow_history (db w)"
    if st: "findState def (wi_CurrentPhase inst) = Some st" "wi_CurrentPhase inst \<noteq> []" for st
  proof (cases st)
    case (OtherState b)
    then show ?thesis by (simp add: processState_def status_phase_history [OF assms(1)])
  next
    case (DelayState b d)
    have tim: "workflow_history (db v2) = workflow_history (db w)"
      if "CreateTimer E (wi_ID inst) dl ty m (next_tick ?w) = (x, v2)" for dl ty m x v2
      using create_history(2) [OF assms(1), of "wi_ID inst" dl ty m "next_tick ?w"] that by simp
    show ?thesis
      by (auto simp: DelayState processState_def processDelayState_def time_Now_simp Let_def engine_event_def
          status_phase_history [OF assms(1)] ref split: sum.splits prod.splits dest!: tim)
  next
    case (OperationState b acts)
    then have "length acts \<le> 1" using assms(3,4) st loads_fields [OF l] by auto
    then consider "acts = []" | a where "acts = [a]" by (cases acts) auto
    then show ?thesis
    proof cases
      case 1
      with adv [of ?w "OperationState b []"] OperationState show ?thesis
        by (auto simp: processState_def processOperationState_def split: sum.splits prod.splits)
    next
      case 2
      obtain t v1 where u: "uuid_New E ?w = (t, v1)" by fastforce
      have v1: "db v1 = db w" using u by (auto simp: uuid_New_simp)
      obtain c v2 where c: "CreateTask E (task_of_action t (wi_ID inst) b a) v1 = (c, v2)" by fastforce
      have v2: "workflow_history (db v2) = workflow_history (db w)"
        using create_history(1) [OF assms(1), of "task_of_action t (wi_ID inst) b a" v1] c v1 by simp
      have "workflow_history (db (snd (schedule_actions E inst (length evs) b 0 [a] ?w))) = workflow_history (db w)"
      proof (cases c)
        case (Inl e)
        then show ?thesis using u c v2 by (simp add: status_phase_history [OF assms(1)])
      next
        case (Inr x)
        have "db (snd (AppendEvents E (wi_ID inst) (wi_Version inst)
            [scheduled_event (uuid_String E t) (int (length evs + 0 + 1)) b a (clock E (tick v2))] (next_tick v2))) = db v2"
          using ref [of "next_tick v2"] v2 by (simp add: scheduled_event_def)
        then show ?thesis using Inr u c v2 by (auto simp: time_Now_simp Let_def split: prod.splits)
      qed
      then show ?thesis using 2 OperationState
        by (auto simp: processState_def processOperationState_def split: prod.splits bool.splits)
    qed
  qed
  show ?thesis
    using load state status_phase_history(1) [OF assms(1), of iid "''FAILED''" ?w]
    by (auto simp: execute_step_def split: option.splits)
qed

definition at_most_one_action :: "run_outcome \<Rightarrow> bool" where
  "at_most_one_action out = (case out of WaitsForTasks b acts \<Rightarrow> length acts \<le> 1 | _ \<Rightarrow> True)"

lemma gap_run:
  fixes w :: "'z world_scheme"
  assumes "calm E"
  shows "settles oob def ph n ph' out \<Longrightarrow> oob = float_oob E \<Longrightarrow> readable (db w) iid \<Longrightarrow>
    phase_of iid (db w) = Some ph \<Longrightarrow> next_taken iid (db w) \<Longrightarrow> at_most_one_action out \<Longrightarrow>
    executeWorkflow E iid def w = Some w' \<Longrightarrow> workflow_history (db w') = workflow_history (db w)"
proof (induction arbitrary: w rule: settles.induct)
  case (stop ph out)
  then obtain w1 where w1: "execute_step E iid def w = (False, w1)"
    using execute_step_stops [OF assms] by metis
  have "\<forall>b acts. ph \<noteq> [] \<longrightarrow> findState def ph = Some (OperationState b acts) \<longrightarrow> length acts \<le> 1"
    using stop(1,2,6) by (auto simp: entered_def at_most_one_action_def split: if_splits)
  from execute_step_refused [OF assms stop.prems(4) this stop.prems(3)] w1 stop.prems(6) show ?case
    by (simp add: executeWorkflow.simps [of E iid def w])
next
  case (pass ph ph1 n ph' out)
  then obtain w1 :: "'z world_scheme" where w1: "execute_step E iid def w = (True, w1)" "readable (db w1) iid"
      "phase_of iid (db w1) = Some ph1"
    using execute_step_passes [OF assms, of w iid ph def ph1] by metis
  have "\<forall>b acts. ph \<noteq> [] \<longrightarrow> findState def ph = Some (OperationState b acts) \<longrightarrow> length acts \<le> 1"
    using pass(1) by (auto simp: entered_def split: if_splits)
  from execute_step_refused [OF assms pass.prems(4) this pass.prems(3)] w1(1)
  have h: "workflow_history (db w1) = workflow_history (db w)" by simp
  then have "next_taken iid (db w1)" using pass.prems(4) next_taken_frame [OF h, of iid] by simp
  moreover have "executeWorkflow E iid def w1 = Some w'"
    using pass.prems(6) w1(1) by (simp add: executeWorkflow.simps [of E iid def w])
  ultimately show ?case using pass.IH [OF pass.prems(1) w1(2,3)] pass.prems(5) h by simp
qed

text \<open>
  C19. A lost event stops the record of what follows. The errors of \<open>AppendEvents\<close> are dropped, so when
  the first of two \<open>TaskScheduled\<close> events is lost to a failing statement the second leaves a gap, and
  the number that the engine gives to the next event, one more than the count of those it reads, is
  taken. From then on the runs of the engine are not recorded: a run through any number n of states
  without actions returns with the instance in the state ph' where the machine settles and with the
  outcome's effect, the final status, a task or a timer, but the history is what it was and the next
  number is still taken. (The outcome may be any but the tasks of a state with two actions or more: the
  number of its second event can be free.)
\<close>

theorem gap_ends_recording:
  assumes "calm E" and "readable (db w) iid" and "phase_of iid (db w) = Some ph"
    and "settles (float_oob E) def ph n ph' out" and "room_for E (tick w) n out (db w)"
    and "int (length (history_of iid 0 (db w))) + 1 \<in> set (numbers_of iid (db w))"
    and "case out of WaitsForTasks b acts \<Rightarrow> length acts \<le> 1 | _ \<Rightarrow> True"
  shows "\<exists>w'. executeWorkflow E iid def w = Some w' \<and> phase_of iid (db w') = Some ph' \<and>
    machine_effect E iid (tick w) out (db w) (db w') \<and> workflow_history (db w') = workflow_history (db w) \<and>
    int (length (history_of iid 0 (db w'))) + 1 \<in> set (numbers_of iid (db w'))"
proof -
  from run_settles [OF assms(1,4) refl assms(2,3,5)] obtain w' where
      w': "executeWorkflow E iid def w = Some w'" "phase_of iid (db w') = Some ph'"
        "machine_effect E iid (tick w) out (db w) (db w')" by blast
  have "next_taken iid (db w)" "at_most_one_action out"
    using assms(6,7) by (simp_all add: next_taken_def at_most_one_action_def)
  note h = gap_run [OF assms(1,4) refl assms(2,3) this w'(1)]
  with w' next_taken_frame [OF h, of iid] assms(6) show ?thesis by (auto simp: next_taken_def)
qed

text \<open>The run that loses the event: the statement that begins the transaction of the first append fails.\<close>

definition lost_world :: world where
  "lost_world = snd (schedule_actions (calm_env\<lparr>db_up := \<lambda>n. n \<noteq> 103\<rparr>) loaded_instance 1
     (base_of example_start) 0 [example_action, example_action] example_world)"

lemma lost_numbers: "numbers_of 7 (db lost_world) = [1, 3]"
  unfolding lost_world_def by code_simp

lemma lost_readable: "readable (db lost_world) 7" "phase_of 7 (db lost_world) = Some ''one''"
    "timers (db lost_world) = []" "length (history_of 7 0 (db lost_world)) = 2"
proof -
  have "list_all (\<lambda>h. case scan_event h of Inl e \<Rightarrow> False | Inr ev \<Rightarrow> True) (workflow_history (db lost_world))"
    and "case instance_at 7 (db lost_world) of None \<Rightarrow> False
      | Some r \<Rightarrow> (case scanInstance (Inr r) of Inl e \<Rightarrow> False | Inr x \<Rightarrow> True)"
    unfolding lost_world_def by code_simp+
  moreover have "(\<exists>y. x = Inr y) = (case x of Inl e \<Rightarrow> False | Inr y \<Rightarrow> True)" for x :: "go_error + HistoryEvent"
    by (cases x) simp_all
  ultimately show "readable (db lost_world) 7"
    by (simp add: readable_def list_all_iff) (auto split: option.splits sum.splits)
  show "phase_of 7 (db lost_world) = Some ''one''" "timers (db lost_world) = []"
      "length (history_of 7 0 (db lost_world)) = 2"
    unfolding lost_world_def by code_simp+
qed

theorem gap_ends_recording_witness:
  "\<exists>w' t. executeWorkflow calm_env 7 relay_definition lost_world = Some w' \<and> phase_of 7 (db w') = Some ''two'' \<and>
     timers (db w') = [t] \<and> numbers_of 7 (db w') = [1, 3]"
proof -
  let ?out = "WaitsForTimer \<lparr>bs_Name = ''two'', bs_Type = ''delay'', bs_Transition = ''three'', bs_EndFlag = False\<rparr> 1000000000"
  have "room_for calm_env (tick lost_world) 1 ?out (db lost_world)" by (simp add: room_for_def lost_readable)
  then obtain w' where w': "executeWorkflow calm_env 7 relay_definition lost_world = Some w'"
      "phase_of 7 (db w') = Some ''two''" "machine_effect calm_env 7 (tick lost_world) ?out (db lost_world) (db w')"
      "workflow_history (db w') = workflow_history (db lost_world)"
    using gap_ends_recording [OF calm_env_calm lost_readable(1,2) relay_settles] lost_numbers lost_readable(4) by auto
  then have "\<exists>t. timers (db w') = [t]" by (auto simp: machine_effect_def lost_readable(3))
  moreover have "numbers_of 7 (db w') = [1, 3]"
    using w'(4) lost_numbers by (simp add: numbers_of_def events_of_def)
  ultimately show ?thesis using w'(1,2) by blast
qed

section \<open>A history that is read in part\<close>

text \<open>The statements themselves do not depend on how result sets are delivered.\<close>

lemma insert_events_cut: "insert_events (E\<lparr>rows_cut := c\<rparr>) iid now evs d w = insert_events E iid now evs d w"
  by (induction evs arbitrary: d w) (simp_all split: sum.split)

lemma db_exec_cut: "db_exec (E\<lparr>rows_cut := c\<rparr>) = db_exec E"
  by (rule ext)+ (simp add: db_exec_def Let_def split: sum.split)

lemma AppendEvents_cut: "AppendEvents (E\<lparr>rows_cut := c\<rparr>) iid v evs w = AppendEvents E iid v evs w"
  by (simp add: AppendEvents_def Let_def db_exec_cut insert_events_cut cong: if_cong sum.case_cong prod.case_cong)

lemma advance_step_cut: "advance_step (E\<lparr>rows_cut := c\<rparr>) inst evs st w = advance_step E inst evs st w"
  by (simp add: advance_step_def AppendEvents_cut time_Now_def UpdateWorkflowStatus_def UpdateCurrentPhase_def
      db_exec_cut Let_def cong: if_cong sum.case_cong prod.case_cong)

lemma LoadInstance_cut:
  assumes "calm E" and "LoadInstance (E\<lparr>rows_cut := c\<rparr>) iid w = (Inr (inst, evs), w1)"
  shows "wi_ID inst = iid" and "db w1 = db w" and "phase_of iid (db w) = Some (wi_CurrentPhase inst)"
    and "scan_rows scan_event (delivered (E\<lparr>rows_cut := c\<rparr>) (Suc (tick w)) (history_of iid 0 (db w))) = Inr evs"
proof -
  let ?E = "E\<lparr>rows_cut := c\<rparr>"
  have q: "db_query ?E f v = (f (tick v) (db v), next_tick v)"
    for f :: "nat \<Rightarrow> database \<Rightarrow> go_error + 'x" and v :: "'z world_scheme"
    using db_query_calm [OF assms(1)] by (simp add: db_query_def db_exec_cut)
  obtain r where r: "instance_at iid (db w) = Some r" "scanInstance (Inr r) = Inr inst"
    using assms(2) by (auto simp: LoadInstance_def q first_row_key instance_at_def Let_def scanInstance_def
        split: option.splits sum.splits prod.splits)
  then show "wi_ID inst = iid" and "phase_of iid (db w) = Some (wi_CurrentPhase inst)"
    by (auto simp: phase_of_def instance_at_def dest: scanInstance_fields row_at_SomeD)
  show "db w1 = db w"
    and "scan_rows scan_event (delivered ?E (Suc (tick w)) (history_of iid 0 (db w))) = Inr evs"
    using assms(2) r
    by (auto simp: LoadInstance_def q first_row_key queryHistory_def db_rows_def instance_at_def Let_def
        split: sum.splits)
qed

text \<open>
  C20. A history that is read in part loses the next event. \<open>queryHistory\<close> does not look at
  \<open>rows.Err()\<close>, so a connection that breaks after k of the rows yields the first k events and no
  error; the engine numbers the next event k + 1, the append is refused because that number is
  taken, the error is dropped, and the instance moves on with its history as it was.
\<close>

theorem short_history_loses_event:
  assumes "calm E" and "tight (db w)" and "c (Suc (tick w)) = Some k"
    and "k < length (history_of iid 0 (db w))"
    and "LoadInstance (E\<lparr>rows_cut := c\<rparr>) iid w = (Inr (inst, evs), w1)"
    and "\<not> End st" and "GetTransition st \<noteq> []"
  shows "length evs = k \<and>
    workflow_history (db (snd (advance_step (E\<lparr>rows_cut := c\<rparr>) inst evs st w1))) = workflow_history (db w) \<and>
    phase_of iid (db (snd (advance_step (E\<lparr>rows_cut := c\<rparr>) inst evs st w1))) = Some (GetTransition st)"
proof -
  note l = LoadInstance_cut [OF assms(1,5)]
  have k: "length evs = k" using scan_rows_length [OF l(4)] assms(3,4) by (simp add: delivered_def)
  have "numbers_of iid (db w) = one_to (length (history_of iid 0 (db w)))"
    using assms(2) history_of_length [OF assms(2), of iid] by (simp add: tight_def)
  with k assms(4) have n: "int (length evs) + 1 \<in> set (numbers_of iid (db w))"
    by (auto simp: one_to_def image_iff intro: bexI [of _ "Suc k"])
  have app: "db w3 = db w" if "AppendEvents E (wi_ID inst) v [engine_event (1 + int (length evs)) ty p now] w2 = (x, w3)"
      "db w2 = db w" for v ty p now w2 x w3
    using taken_number_lost [OF assms(1), of "engine_event (1 + int (length evs)) ty p now" iid w2 v] that n l(1)
    by (simp add: engine_event_def add.commute)
  have "workflow_history (db (snd (advance_step E inst evs st w1))) = workflow_history (db w)"
    using assms(6,7) l(1,2)
    by (auto simp: advance_step_def time_Now_simp Let_def UpdateCurrentPhase_calm [OF assms(1)] algebra_simps
        split: prod.splits dest!: app)
  moreover have "phase_of iid (db (snd (advance_step E inst evs st w1))) = Some (GetTransition st)"
    using advance_step_transition [OF assms(1,6,7), of inst evs w1] l(1,2,3) by auto
  ultimately show ?thesis using k by (simp add: advance_step_cut)
qed

theorem short_history_loses_event_witness:
  "\<exists>inst w1. LoadInstance (calm_env\<lparr>rows_cut := \<lambda>_. Some 0\<rparr>) 7 example_world = (Inr (inst, []), w1) \<and>
     workflow_history (db (snd (advance_step (calm_env\<lparr>rows_cut := \<lambda>_. Some 0\<rparr>) inst [] example_start w1))) =
     workflow_history (db example_world)"
proof -
  let ?E = "calm_env\<lparr>rows_cut := \<lambda>_. Some 0\<rparr>"
  have "case fst (LoadInstance ?E 7 example_world) of Inl e \<Rightarrow> False | Inr p \<Rightarrow> True" by code_simp
  then obtain inst evs w1 where l: "LoadInstance ?E 7 example_world = (Inr (inst, evs), w1)"
    by (auto split: sum.splits prod.splits intro: that [OF prod_eqI])
  have "tight (db example_world)" by (simp add: example_world_def example_tight)
  moreover have "0 < length (history_of 7 0 (db example_world))" by code_simp
  moreover have "\<not> End example_start" "GetTransition example_start \<noteq> []" by code_simp+
  ultimately show ?thesis
    using short_history_loses_event [OF calm_env_calm _ _ _ l, of 0] l by auto
qed

end
