(* ===== verification/Delivery_Properties.thy ===== *)
theory Delivery_Properties
  imports Server_Properties Progress_Properties
begin

text \<open>
  The delivery of tasks to agents: over a stream, and by claims whose answer is lost.
\<close>

lemma pushTasks_poll:
  assumes "ClaimPendingTask E caps a w = (Inr (Some t), w')"
  shows "pushTasks_round E S a caps False False c w = (False, c, w')"
  using assms by (simp add: pushTasks_round_def)

lemma ClaimPendingTask_finds:
  assumes "calm E" and "r \<in> set (tasks (db w))" and "matching caps r"
    and "\<forall>r \<in> set (tasks (db w)). \<exists>t. scanTask r = Inr t"
  obtains t w' where "ClaimPendingTask E caps a w = (Inr (Some t), w')"
proof (cases "pending_rows caps (db w)")
  case Nil
  then have "filter (matching caps) (tasks (db w)) = []"
    by (metis length_0_conv length_order_by(1) pending_rows_matching)
  with assms(2,3) show thesis by (auto simp: filter_empty_conv)
next
  case (Cons r' rs)
  have "set (pending_rows caps (db w)) \<subseteq> set (tasks (db w))" unfolding pending_rows_matching by auto
  with Cons assms(4) obtain t where "scanTask r' = Inr t" by auto
  with Cons that show thesis by (simp add: ClaimPendingTask_calm [OF assms(1)])
qed

text \<open>An assigned task is in no agent's queue.\<close>

lemma assigned_not_pending:
  assumes "wf_db d" and "task_cycle d i = Some (Assigned a dl)"
  shows "i \<notin> tk_ID ` set (pending_rows caps d)"
proof
  assume "i \<in> tk_ID ` set (pending_rows caps d)"
  then obtain r where r: "r \<in> set (tasks d)" "tk_ID r = i" "tk_Status r = ''PENDING''"
    by (auto simp: pending_rows_matching matching_def)
  then have "row_at tk_ID (tasks d) i = Some r"
    using assms(1) by (auto simp: wf_db_def wf_tasks_def intro: row_at_unique)
  with r(3) assms(2) show False by (auto simp: task_cycle_def lifecycle_of_def split: if_splits)
qed

text \<open>
  C15. A task that cannot be sent is stranded. The push loop assigns a task before it sends it: when
  \<open>Send\<close> fails the stream ends with nothing delivered, but the oldest task that fits the agent
  is assigned to it, and from then on it is in nobody's queue; nothing reads its deadline.
\<close>

theorem unsent_task_is_stranded:
  assumes "calm E" and "wf_db (db w)"
    and "r \<in> set (tasks (db w))" and "matching caps r"
    and "\<forall>r \<in> set (tasks (db w)). \<exists>t. scanTask r = Inr t"
    and "pushTasks_round E S a caps False False c w = (again, c', w')"
  shows "\<not> again \<and> c' = c \<and>
    (\<exists>r \<in> set (tasks (db w)). matching caps r \<and>
       (\<forall>r' \<in> set (tasks (db w)). matching caps r' \<longrightarrow> tk_CreatedAt r \<le> tk_CreatedAt r') \<and>
       task_cycle (db w') (tk_ID r) = Some (Assigned a (timestamptz E (clock E (tick w + 1) + five_minutes))) \<and>
       (\<forall>caps'. tk_ID r \<notin> tk_ID ` set (pending_rows caps' (db w'))))"
proof -
  obtain t w1 where t: "ClaimPendingTask E caps a w = (Inr (Some t), w1)"
    using assms(1,3-5) by (rule ClaimPendingTask_finds)
  then have p: "again = False" "c' = c" "w' = w1" using pushTasks_poll [OF t, of S c] assms(6) by simp_all
  have e: "\<exists>r \<in> set (tasks (db w)). tk_ID r = tk_ID t \<and> matching caps r \<and>
      (\<forall>r' \<in> set (tasks (db w)). matching caps r' \<longrightarrow> tk_CreatedAt r \<le> tk_CreatedAt r')"
      "task_cycle (db w1) = (task_cycle (db w))(tk_ID t \<mapsto> Assigned a (timestamptz E (clock E (tick w + 1) + five_minutes)))"
    using poll_effect [OF assms(1,2) t] by simp_all
  have "wf_db (db w1)"
    using ClaimPendingTask_evolves [OF t evolves.stays] calm_rely [OF assms(1)] assms(2) by (rule wf.evolves_keeps)
  then have "tk_ID t \<notin> tk_ID ` set (pending_rows caps' (db w1))" for caps'
    by (rule assigned_not_pending) (simp add: e(2))
  with e p show ?thesis by (metis fun_upd_same)
qed

theorem unsent_task_is_stranded_witness:
  "fst (pushTasks_round calm_env identity_struct ''alice'' [''cap''] False False new_connection example_world) = False \<and>
   pending_rows [''cap''] (db example_world) \<noteq> []"
proof -
  let ?r = "pushTasks_round calm_env identity_struct ''alice'' [''cap''] False False new_connection example_world"
  have m: "example_task \<in> set (tasks (db example_world))" "matching [''cap''] example_task"
    by (simp_all add: matching_def example_defs)
  have "\<forall>r \<in> set (tasks (db example_world)). \<exists>t. scanTask r = Inr t"
    by (simp add: scanTask_def example_defs json_Unmarshal_def)
  moreover have "wf_db (db example_world)" using example_wf by (simp add: example_world_def)
  moreover have "?r = (fst ?r, fst (snd ?r), snd (snd ?r))" by simp
  ultimately have "\<not> fst ?r" using unsent_task_is_stranded [OF calm_env_calm _ m] by blast
  moreover have "pending_rows [''cap''] (db example_world) \<noteq> []" by code_simp
  ultimately show ?thesis by simp
qed

text \<open>
  A pushed task is sent without its deadline. \<open>ClaimPendingTask\<close> returns the task as it was read,
  before the assignment, and a pending task has no deadline: the branch of \<open>pushTasks\<close> that puts
  the deadline into the message is never taken, though the row has one from then on.
\<close>

lemma polled_task_no_deadline:
  assumes "calm E" and "wf_db (db w)" and "ClaimPendingTask E caps a w = (Inr (Some t), w')"
  shows "tk_Deadline t = None"
proof (cases "pending_rows caps (db w)")
  case Nil
  with assms(3) show ?thesis by (simp add: ClaimPendingTask_calm [OF assms(1)])
next
  case (Cons r rs)
  have "set (pending_rows caps (db w)) = {r \<in> set (tasks (db w)). matching caps r}"
    unfolding pending_rows_matching by auto
  with Cons have "r \<in> set (tasks (db w))" "tk_Status r = ''PENDING''" by (auto simp: matching_def)
  with assms(2) have "tk_Deadline r = None" by (auto simp: wf_db_def wf_tasks_def task_ok_def)
  with Cons assms(3) show ?thesis
    by (auto simp: ClaimPendingTask_calm [OF assms(1)] scanTask_def split: sum.splits)
qed

theorem pushed_task_has_no_deadline:
  assumes "calm E" and "wf_db (db w)" and "ClaimPendingTask E caps a w = (Inr (Some t), w')"
  shows "pushTasks_round E S a caps False True c w =
      (True, c\<lparr>cn_sent := cn_sent c @ [ServerToAgent_TaskAssignment (assignment_of E S None t)]\<rparr>, w') \<and>
    task_cycle (db w') (tk_ID t) = Some (Assigned a (timestamptz E (clock E (tick w + 1) + five_minutes)))"
  using poll_effect [OF assms] polled_task_no_deadline [OF assms] assms(3) by (simp add: pushTasks_round_def)

theorem pushed_task_has_no_deadline_witness:
  "map (\<lambda>m. case m of ServerToAgent_TaskAssignment t \<Rightarrow> ta_Deadline t | _ \<Rightarrow> Some 0)
     (cn_sent (fst (snd (pushTasks_round calm_env identity_struct ''alice'' [''cap''] False True new_connection
        example_world)))) = [None]"
proof -
  have m: "example_task \<in> set (tasks (db example_world))" "matching [''cap''] example_task"
    by (simp_all add: matching_def example_defs)
  have "\<forall>r \<in> set (tasks (db example_world)). \<exists>t. scanTask r = Inr t"
    by (simp add: scanTask_def example_defs json_Unmarshal_def)
  then obtain t w' where t: "ClaimPendingTask calm_env [''cap''] ''alice'' example_world = (Inr (Some t), w')"
    by (rule ClaimPendingTask_finds [OF calm_env_calm m])
  have "wf_db (db example_world)" using example_wf by (simp add: example_world_def)
  from pushed_task_has_no_deadline [OF calm_env_calm this t] show ?thesis
    by (simp add: new_connection_def assignment_of_def)
qed

text \<open>
  A claim whose answer is lost holds the task: the agent sees a driver error, the task is assigned to
  it all the same, and whoever claims it next, the agent itself included, is told that it cannot be
  claimed.
\<close>

lemma unanswered_claim:
  assumes "others E (tick w) (db w) = db w" and "db_up E (tick w)" and "\<not> db_ack E (tick w)"
    and "wf_db (db w)" and "task_cycle (db w) i = Some Pending"
  shows "fst (ClaimTask E i a dl w) = Inl (Wrap ''claim task'' DriverError)"
    and "task_cycle (db (snd (ClaimTask E i a dl w))) = (task_cycle (db w))(i \<mapsto> Assigned a (timestamptz E dl))"
    and "wf_db (db (snd (ClaimTask E i a dl w)))"
proof -
  let ?d = "(db w)\<lparr>tasks := sql_update (\<lambda>r. tk_ID r = i \<and> tk_Status r = ''PENDING'')
    (assigned_row a (timestamptz E dl) (clock E (tick w))) (tasks (db w))\<rparr>"
  have c: "fst (ClaimTask E i a dl w) = Inl (Wrap ''claim task'' DriverError) \<and> db (snd (ClaimTask E i a dl w)) = ?d"
    using assms(1-3) by (simp add: ClaimTask_def require_rows_def wrap_err_def exec_tasks_def db_exec_def Let_def)
  then show "fst (ClaimTask E i a dl w) = Inl (Wrap ''claim task'' DriverError)" by blast
  obtain r where r: "row_at tk_ID (tasks (db w)) i = Some r" "tk_Status r = ''PENDING''"
    using assms(4,5) wf_task_row(1) [OF assms(4)] by (auto simp: task_cycle_def lifecycle_cases)
  show "task_cycle (db (snd (ClaimTask E i a dl w))) = (task_cycle (db w))(i \<mapsto> Assigned a (timestamptz E dl))"
    using c r guarded_update(1) [OF assms(4), of "assigned_row a (timestamptz E dl) (clock E (tick w))" i
        "\<lambda>r. tk_Status r = ''PENDING''"]
    by (auto simp: fun_eq_iff row_defs lifecycle_of_def task_cycle_def)
  show "wf_db (db (snd (ClaimTask E i a dl w)))"
    using c wf.step [OF store_step.task_row_update [OF task_update.assigned] assms(4)] by simp
qed

theorem unanswered_claim_holds_task:
  assumes "others E (tick w) (db w) = db w" and "db_up E (tick w)" and "\<not> db_ack E (tick w)"
    and "wf_db (db w)" and "task_cycle (db w) i = Some Pending" and "calm E'"
  shows "fst (ClaimTask E i a dl w) = Inl (Wrap ''claim task'' DriverError) \<and>
    task_cycle (db (snd (ClaimTask E i a dl w))) i = Some (Assigned a (timestamptz E dl)) \<and>
    fst (ClaimTask E' i b dl' (snd (ClaimTask E i a dl w))) = Inl ErrTaskNotClaimable"
  using unanswered_claim [OF assms(1-5), of a dl]
    claim_spec [OF assms(6), of "snd (ClaimTask E i a dl w)" i b dl']
  by (simp add: refines_def spec_claim_def)

theorem unanswered_claim_holds_task_witness:
  "fst (ClaimTask calm_env 9 ''alice'' 60 (snd (ClaimTask (calm_env\<lparr>db_ack := \<lambda>n. n \<noteq> 100\<rparr>) 9 ''alice'' 50
     example_world))) = Inl ErrTaskNotClaimable"
proof -
  have "wf_db (db example_world)" "tick example_world = 100" using example_wf by (simp_all add: example_world_def)
  moreover have "task_cycle (db example_world) 9 = Some Pending"
    by (simp add: example_defs task_cycle_def lifecycle_of_def)
  ultimately show ?thesis
    using unanswered_claim_holds_task [of "calm_env\<lparr>db_ack := \<lambda>n. n \<noteq> 100\<rparr>" example_world 9 calm_env] by simp
qed

end
