(* ===== verification/Cluster.thy ===== *)
theory Cluster
  imports System_Numbering Worker
begin

text \<open>
  The processes together: any number of orchestrators and workers over one database. A step is a
  step of one process on the shared database, the start of an orchestrator, the start of a worker
  on a command line that a supervisor has issued, or the death of a process. Each process has its
  own environment, so that clocks and identifiers of different processes are independent; within
  a step the commits of the others appear through \<open>others\<close>.
\<close>

section \<open>The worker's steps\<close>

text \<open>One delivery from the queue, or a goroutine run to its end.\<close>

inductive worker_step :: "'n environment \<Rightarrow> worker_world \<Rightarrow> worker_world \<Rightarrow> bool" for E where
  delivery: "worker_step E w (consume E [Delivery body] w)"
| goroutine: "goroutines w = js @ j # js' \<Longrightarrow> run_job E j (w\<lparr>goroutines := js @ js'\<rparr>) = Some w' \<Longrightarrow>
    worker_step E w w'"

section \<open>The cluster\<close>

datatype process =
    Orchestrator supervisor_world
  | Running_worker worker_world
  | Gone

text \<open>The database and the processes in the order of their start.\<close>

type_synonym cluster = "database \<times> process list"

text \<open>The memory of a process that has just been started.\<close>

definition new_worker :: "database \<Rightarrow> worker_world" where
  "new_worker d = \<lparr>db = d, tick = 0, broker = [], reg_has_db = False, reg_cache = Map.empty, goroutines = [],
     wk_open = [], wk_answers = [], wk_shutdown = False\<rparr>"

definition new_orchestrator :: "database \<Rightarrow> supervisor_world" where
  "new_orchestrator d = \<lparr>db = d, tick = 0, broker = [], reg_has_db = False, reg_cache = Map.empty, goroutines = [],
     sup_binary = [], sup_maxRestarts = 0, sup_workers = [], sup_procs = Map.empty, sup_next = 0,
     sup_monitors = [], sup_commands = [], sup_signals = []\<rparr>"

inductive cluster_step ::
  "(nat \<Rightarrow> 'n environment) \<Rightarrow> struct_lib \<Rightarrow> amqp \<Rightarrow> host \<Rightarrow> (string \<Rightarrow> string) \<Rightarrow> cluster \<Rightarrow> cluster \<Rightarrow> bool"
  for Es S A H getenv where
  orchestrator_steps: "i < length ps \<Longrightarrow> ps ! i = Orchestrator w \<Longrightarrow> sys_step (Es i) S (w\<lparr>db := d\<rparr>) w' \<Longrightarrow>
    cluster_step Es S A H getenv (d, ps) (db w', ps[i := Orchestrator w'])"
| worker_steps: "i < length ps \<Longrightarrow> ps ! i = Running_worker v \<Longrightarrow> worker_step (Es i) (v\<lparr>db := d\<rparr>) v' \<Longrightarrow>
    cluster_step Es S A H getenv (d, ps) (db v', ps[i := Running_worker v'])"
| orchestrator_starts: "orchestrator_main (Es (length ps)) H getenv (new_orchestrator d) = (r, w) \<Longrightarrow>
    cluster_step Es S A H getenv (d, ps)
      (db w, ps @ [case r of Serving _ \<Rightarrow> Orchestrator w | Fatal _ _ \<Rightarrow> Gone])"
| worker_starts: "Orchestrator w \<in> set ps \<Longrightarrow> args \<in> set (sup_commands w) \<Longrightarrow>
    worker_process (Es (length ps)) A getenv (tl args) (new_worker d) = (r, v) \<Longrightarrow>
    cluster_step Es S A H getenv (d, ps) (db v, ps @ [if r = Blocked then Running_worker v else Gone])"
| dies: "cluster_step Es S A H getenv (d, ps) (d, ps[i := Gone])"

inductive cluster_run ::
  "(nat \<Rightarrow> 'n environment) \<Rightarrow> struct_lib \<Rightarrow> amqp \<Rightarrow> host \<Rightarrow> (string \<Rightarrow> string) \<Rightarrow> cluster \<Rightarrow> cluster \<Rightarrow> bool"
  for Es S A H getenv where
  start: "cluster_run Es S A H getenv c c"
| step: "cluster_run Es S A H getenv c c1 \<Longrightarrow> cluster_step Es S A H getenv c1 c2 \<Longrightarrow>
    cluster_run Es S A H getenv c c2"

section \<open>Every step evolves the shared database\<close>

lemma handleTaskMessage_evolves:
  "handleTaskMessage E body w = (r, w') \<Longrightarrow> evolves A E d (db w) \<Longrightarrow> evolves A E d (db w')"
  by (auto simp: handleTaskMessage_def split: option.splits sum.splits prod.splits if_splits dest!: evolve)

lemma worker_step_evolves: "worker_step E w w' \<Longrightarrow> evolves True E d (db w) \<Longrightarrow> evolves True E d (db w')"
proof (induction rule: worker_step.induct)
  case (delivery w body)
  then show ?case by (auto split: prod.splits dest: handleTaskMessage_evolves)
next
  case (goroutine w js j js' w')
  then show ?case by (auto intro: run_job_evolves)
qed

lemma worker_process_evolves:
  "worker_process E A getenv args w = (r, w') \<Longrightarrow> evolves B E d (db w) \<Longrightarrow> evolves B E d (db w')"
  by (auto simp: worker_process_def worker_New_def worker_Start_def worker_Stop_def open_handle_def close_handle_def
      go_def Let_def split: option.splits sum.splits prod.splits if_splits dest!: reg_Get_evolves [where d = d])

lemma orchestrator_main_evolves:
  "orchestrator_main E H getenv w = (r, w') \<Longrightarrow> evolves B E d (db w) \<Longrightarrow> evolves B E d (db w')"
  by (auto simp: orchestrator_main_def Let_def NewSupervisor_def split: option.splits intro!: startup_recovery_evolves)

lemma cluster_step_evolves:
  assumes "cluster_step Es S A H getenv c c'"
  shows "\<exists>i. evolves True (Es i) (fst c) (fst c')"
  using assms
proof (induction rule: cluster_step.induct)
  case (orchestrator_steps i ps w d w')
  show ?case using sys_step_evolves [OF orchestrator_steps(3), of d] by (auto intro: evolves.stays)
next
  case (worker_steps i ps v d v')
  show ?case using worker_step_evolves [OF worker_steps(3), of d] by (auto intro: evolves.stays)
next
  case (orchestrator_starts ps d r w)
  show ?case using orchestrator_main_evolves [OF orchestrator_starts, of True d]
    by (auto simp: new_orchestrator_def intro: evolves.stays)
next
  case (worker_starts w ps args d r v)
  show ?case using worker_process_evolves [OF worker_starts(3), of True d]
    by (auto simp: new_worker_def intro: evolves.stays)
qed (auto intro: evolves.stays)

lemma cluster_run_keeps:
  assumes "\<And>i d d'. evolves True (Es i) d d' \<Longrightarrow> I d \<Longrightarrow> I d'"
  shows "cluster_run Es S A H getenv c c' \<Longrightarrow> I (fst c) \<Longrightarrow> I (fst c')"
  by (induction rule: cluster_run.induct) (auto dest: cluster_step_evolves intro: assms)

section \<open>Every step respects the numbering of the others\<close>

fun jobs_of :: "process \<Rightarrow> job set" where
  "jobs_of (Orchestrator w) = set (goroutines w)"
| "jobs_of (Running_worker v) = set (goroutines v)"
| "jobs_of Gone = {}"

definition cluster_safe :: "cluster \<Rightarrow> bool" where
  "cluster_safe c \<longleftrightarrow> tight (fst c) \<and> (\<forall>p \<in> set (snd c). \<forall>j \<in> jobs_of p. job_ok (fst c) j)"

lemma handleTaskMessage_jobs:
  "handleTaskMessage E body w = (r, w') \<Longrightarrow> plain_jobs J w \<Longrightarrow> plain_jobs J w'"
  by (auto simp: handleTaskMessage_def split: option.splits sum.splits prod.splits if_splits dest: task_end_jobs)

lemma worker_step_safe:
  "worker_step E w w' \<Longrightarrow> reliable E \<Longrightarrow> orderly E \<Longrightarrow> safe d0 w \<Longrightarrow> safe d0 w'"
proof (induction rule: worker_step.induct)
  case (delivery w body)
  obtain a w1 where h: "handleTaskMessage E body w = (a, w1)" by fastforce
  have "safe d0 w1"
    using handleTaskMessage_evolves [OF h evolves.stays] delivery(2) handleTaskMessage_jobs [OF h] delivery(3)
    by (rule plain_safe)
  with h show ?case by (simp add: safe_def)
next
  case (goroutine w js j js' w')
  show ?case by (rule job_safe [OF goroutine(2,1,3-5)])
qed

lemma worker_process_jobs:
  "worker_process E A getenv args w = (r, w') \<Longrightarrow> plain_jobs J w \<Longrightarrow> plain_jobs J w'"
  by (auto simp: worker_process_def worker_New_def worker_Start_def worker_Stop_def open_handle_def close_handle_def
      Let_def plain_jobs_def go_def split: option.splits sum.splits prod.splits if_splits dest!: reg_Get_jobs)

lemma worker_process_safe:
  assumes "worker_process E A getenv args w = (r, w')" and "orderly E" and "safe d0 w"
  shows "safe d0 w'"
  using worker_process_evolves [OF assms(1) evolves.stays] assms(2) worker_process_jobs [OF assms(1)] assms(3)
  by (rule plain_safe)

lemma orchestrator_main_jobs:
  "orchestrator_main E H getenv w = (r, w') \<Longrightarrow> goroutines w = [] \<Longrightarrow> goroutines w' = goroutines w"
  by (auto simp: orchestrator_main_def Let_def NewSupervisor_def split: option.splits)

lemma orchestrator_main_safe:
  assumes "orchestrator_main E H getenv w = (r, w')" and "orderly E" and "goroutines w = []" and "safe d0 w"
  shows "safe d0 w'"
  using orchestrator_main_evolves [OF assms(1) evolves.stays] assms(2) orchestrator_main_jobs [OF assms(1,3)] assms(4)
  by (rule quiet_safe)

text \<open>
  A process that leaves the database in a state that follows the one it found keeps what all others
  know; its own knowledge is part of \<open>safe\<close>.
\<close>

lemma cluster_safe_process:
  assumes "cluster_safe (d, ps)" and "follows d d'" and "\<And>p. p \<in> set qs \<Longrightarrow> p \<in> set ps \<or> (\<forall>j \<in> jobs_of p. job_ok d' j)"
  shows "cluster_safe (d', qs)"
  using assms follows_tight [OF assms(2)] by (fastforce simp: cluster_safe_def dest: follows_job_ok)

lemma cluster_safe_update:
  assumes "cluster_safe (d, ps)" and "follows d d'" and "\<forall>j \<in> jobs_of p. job_ok d' j"
  shows "cluster_safe (d', ps[i := p])" and "cluster_safe (d', ps @ [p])"
  using assms set_update_subset_insert [of ps i p]
  by (auto intro!: cluster_safe_process [OF assms(1,2)])

lemma cluster_step_safe:
  "cluster_step Es S A H getenv c c' \<Longrightarrow> (\<And>i. reliable (Es i)) \<Longrightarrow> (\<And>i. orderly (Es i)) \<Longrightarrow>
   cluster_safe c \<Longrightarrow> cluster_safe c' \<and> follows (fst c) (fst c')"
proof (induction rule: cluster_step.induct)
  case (orchestrator_steps i ps w d w')
  have "Orchestrator w \<in> set ps" using orchestrator_steps(1,2) by (metis nth_mem)
  then have "safe d (w\<lparr>db := d\<rparr>)"
    using orchestrator_steps(6) by (force simp: safe_def cluster_safe_def intro: follows_refl)
  then have "safe d w'" by (rule sys_step_safe [OF orchestrator_steps(3-5)])
  then show ?case using orchestrator_steps(6) by (auto simp: safe_def intro!: cluster_safe_update)
next
  case (worker_steps i ps v d v')
  have "Running_worker v \<in> set ps" using worker_steps(1,2) by (metis nth_mem)
  then have "safe d (v\<lparr>db := d\<rparr>)"
    using worker_steps(6) by (force simp: safe_def cluster_safe_def intro: follows_refl)
  then have "safe d v'" by (rule worker_step_safe [OF worker_steps(3-5)])
  then show ?case using worker_steps(6) by (auto simp: safe_def intro!: cluster_safe_update)
next
  case (orchestrator_starts ps d r w)
  have "safe d (new_orchestrator d)"
    using orchestrator_starts(4) by (simp add: new_orchestrator_def safe_def cluster_safe_def follows_refl)
  then have "safe d w"
    by (rule orchestrator_main_safe [OF orchestrator_starts(1,3), rotated]) (simp add: new_orchestrator_def)
  then show ?case using orchestrator_starts(4)
    by (auto simp: safe_def intro!: cluster_safe_update split: main_result.split)
next
  case (worker_starts w ps args d r v)
  have "safe d (new_worker d)"
    using worker_starts(6) by (simp add: new_worker_def safe_def cluster_safe_def follows_refl)
  then have "safe d v" by (rule worker_process_safe [OF worker_starts(3,5)])
  then show ?case using worker_starts(6) by (auto simp: safe_def intro!: cluster_safe_update)
next
  case (dies d ps i)
  then have f: "follows d d" by (simp add: cluster_safe_def follows_refl)
  then show ?case using cluster_safe_update(1) [OF dies(3) f] by simp
qed

text \<open>What every process assumes of the others, \<open>follows\<close>, is what all of them together guarantee.\<close>

lemma cluster_run_guarantees:
  assumes "cluster_run Es S A H getenv c c'" and "\<And>i. reliable (Es i)" and "\<And>i. orderly (Es i)"
    and "cluster_safe c"
  shows "cluster_safe c' \<and> follows (fst c) (fst c')"
  using assms(1,4)
proof induction
  case (start c)
  then have "tight (fst c)" by (simp add: cluster_safe_def)
  with start show ?case by (simp add: follows_refl)
next
  case (step c c1 c2)
  then have "cluster_safe c1 \<and> follows (fst c) (fst c1)" by simp
  with cluster_step_safe [OF step.hyps(2) assms(2,3)] show ?case by (blast intro: follows_trans)
qed

lemma cluster_run_safe:
  "cluster_run Es S A H getenv c c' \<Longrightarrow> (\<And>i. reliable (Es i)) \<Longrightarrow> (\<And>i. orderly (Es i)) \<Longrightarrow>
   cluster_safe c \<Longrightarrow> cluster_safe c'"
  using cluster_run_guarantees by blast

end
