(* ===== verification/Cluster_Properties.thy ===== *)
theory Cluster_Properties
  imports Cluster Machine_Properties History_Properties
begin

text \<open>
  Properties of any number of orchestrators and workers over one database, in every run of the
  cluster: what no process ever breaks, how the events of the instances are numbered, and what a
  worker that a supervisor has started does for its instance.
\<close>

section \<open>An example\<close>

definition working_amqp :: amqp where
  "working_amqp = \<lparr>connect_db = (\<lambda>_. None), Dial = (\<lambda>_. None), open_Channel = None,
     QueueDeclare = (\<lambda>_. None), Qos = None, Consume = (\<lambda>_. None)\<rparr>"

definition working_host :: host where
  "working_host = \<lparr>sqlx_Connect = (\<lambda>_. None), net_Listen = (\<lambda>_. None)\<rparr>"

definition example_worker :: worker_world where
  "example_worker = (new_worker example_db)\<lparr>tick := 100\<rparr>"

text \<open>An orchestrator starts a workflow, then a worker handles the message that a task is completed.\<close>

definition example_message :: "json option" where
  "example_message = Some (JObj [(''task_id'', JStr ''uuuuuuuuu''), (''status'', JStr ''completed'')])"

definition started_world :: supervisor_world where
  "started_world = snd (api_StartWorkflow calm_env identity_struct example_request example_supervisor)"

definition delivered_world :: worker_world where
  "delivered_world = consume calm_env [Delivery example_message] (example_worker\<lparr>db := db started_world\<rparr>)"

lemma example_cluster_run:
  "cluster_run (\<lambda>_. calm_env) identity_struct working_amqp working_host (\<lambda>_. [])
     (example_db, [Orchestrator example_supervisor, Running_worker example_worker])
     (db delivered_world, [Orchestrator started_world, Running_worker delivered_world])"
proof -
  have "sys_step calm_env identity_struct (example_supervisor\<lparr>db := example_db\<rparr>) started_world"
    unfolding started_world_def by (simp add: example_supervisor_def sys_step.intros(7))
  from cluster_step.orchestrator_steps [where Es = "\<lambda>_. calm_env" and i = 0, OF _ _ this]
  have 1: "cluster_step (\<lambda>_. calm_env) identity_struct working_amqp working_host (\<lambda>_. [])
      (example_db, [Orchestrator example_supervisor, Running_worker example_worker])
      (db started_world, [Orchestrator started_world, Running_worker example_worker])"
    by fastforce
  have "worker_step calm_env (example_worker\<lparr>db := db started_world\<rparr>) delivered_world"
    unfolding delivered_world_def by (rule worker_step.delivery)
  from cluster_step.worker_steps [where Es = "\<lambda>_. calm_env" and i = 1
      and ps = "[Orchestrator started_world, Running_worker example_worker]", OF _ _ this]
  have 2: "cluster_step (\<lambda>_. calm_env) identity_struct working_amqp working_host (\<lambda>_. [])
      (db started_world, [Orchestrator started_world, Running_worker example_worker])
      (db delivered_world, [Orchestrator started_world, Running_worker delivered_world])"
    by simp
  show ?thesis using cluster_run.start 1 2 by (blast intro: cluster_run.step)
qed

section \<open>Invariants of all processes\<close>

text \<open>
  C1. The database stays well-formed whatever orchestrators and workers do: in every state that a
  cluster can reach, through any handlers, timers, goroutines and messages of any of its processes,
  their starts and deaths, with any failures of the database, the keys are unique, every event,
  timer, task and audit row belongs to an existing instance or task, a pending task has no agent
  and no deadline, and an assigned one has both. Of what other clients of the database commit while
  a handler runs it is assumed that it keeps the same.
\<close>

theorem cluster_wf:
  assumes "cluster_run Es S A H getenv c c'" and "\<And>i. rely (Es i) wf_db" and "wf_db (fst c)"
  shows "wf_db (fst c')"
  using assms(1,3) by (rule cluster_run_keeps [rotated]) (rule wf.evolves_keeps [OF _ assms(2)])

theorem cluster_wf_witness: "wf_db (db delivered_world)"
  using cluster_wf [OF example_cluster_run calm_env_rely] example_wf by simp

lemma cluster_run_extends:
  assumes "cluster_run Es S A H getenv c c'" and "\<And>i. rely (Es i) (extends (fst c))"
  shows "extends (fst c) (fst c')"
  using assms(1) extends_refl by (rule cluster_run_keeps [rotated]) (rule extends.evolves_keeps [OF _ assms(2)])

text \<open>
  C6. Nothing is rewritten by any process: in every state a cluster can reach the history and the
  audit log begin with what they were, every instance keeps its identity, definition, tenant and
  state and its version does not fall, every timer keeps its data and stays fired, and every task
  keeps what it was created with.
\<close>

theorem cluster_extends:
  assumes "cluster_run Es S A H getenv c c'" and "\<And>i. rely (Es i) (extends (fst c))"
  shows "take (length (workflow_history (fst c))) (workflow_history (fst c')) = workflow_history (fst c) \<and>
    take (length (task_audit_log (fst c))) (task_audit_log (fst c')) = task_audit_log (fst c) \<and>
    (\<forall>i < length (workflow_instances (fst c)). i < length (workflow_instances (fst c')) \<and>
       instance_le (workflow_instances (fst c) ! i) (workflow_instances (fst c') ! i)) \<and>
    (\<forall>i < length (timers (fst c)). i < length (timers (fst c')) \<and> timer_le (timers (fst c) ! i) (timers (fst c') ! i)) \<and>
    (\<forall>i < length (tasks (fst c)). i < length (tasks (fst c')) \<and> task_le (tasks (fst c) ! i) (tasks (fst c') ! i))"
proof -
  have "extends (fst c) (fst c')" using assms by (rule cluster_run_extends)
  then show ?thesis by (auto simp: extends_def grows_eq_prefix) (auto simp: grows_iff)
qed

theorem cluster_extends_witness:
  "take 1 (workflow_history (db delivered_world)) = [example_event_row]"
  using cluster_extends [OF example_cluster_run calm_env_rely] by (simp add: example_db_def)

text \<open>
  C7. The status of an instance is one of seven strings in every state a cluster can reach, as long
  as the other clients write no others: neither \<open>WAITING\<close> nor \<open>SUSPENDED\<close>, which the protocol has for
  workflows, nor \<open>PROVISIONING\<close>, which it has for instances, is ever reported for a row.
\<close>

theorem cluster_statuses:
  assumes "cluster_run Es S A H getenv c c'" and "\<And>i. rely (Es i) statuses_written" and "statuses_written (fst c)"
    and "r \<in> set (workflow_instances (fst c'))"
  shows "wi_Status r \<in> {''RUNNING'', ''COMPLETED'', ''FAILED'', ''CANCELED'', ''DEGRADED'', ''STOPPED'', ''ARCHIVED''} \<and>
    workflowStatusFromString (wi_Status r) \<notin> {WORKFLOW_STATUS_WAITING, WORKFLOW_STATUS_SUSPENDED} \<and>
    workflowStatusToInstanceStatus (wi_Status r) \<noteq> INSTANCE_STATUS_PROVISIONING"
proof -
  have "statuses_written (fst c')"
    using assms(1,3) by (rule cluster_run_keeps [rotated]) (rule statuses.evolves_keeps [OF _ assms(2)])
  then show ?thesis
    using assms(4) by (auto simp: statuses_written_def written_statuses_def workflowStatusFromString_def
        workflowStatusToInstanceStatus_def)
qed

theorem cluster_statuses_witness:
  "workflow_instances (db delivered_world) \<noteq> [] \<and>
   workflowStatusFromString (wi_Status (hd (workflow_instances (db delivered_world)))) \<noteq> WORKFLOW_STATUS_WAITING"
proof -
  have "extends example_db (db delivered_world)"
    using cluster_run_extends [OF example_cluster_run calm_env_rely] by simp
  then have ne: "workflow_instances (db delivered_world) \<noteq> []"
    by (auto simp: extends_def grows_iff example_db_def)
  have "statuses_written example_db" by (simp add: statuses_written_def example_defs)
  with cluster_statuses [OF example_cluster_run calm_env_rely] ne show ?thesis by simp
qed

text \<open>
  C2. The history has no gaps in a cluster: as long as no statement fails, every answer
  arrives and no result is cut short, in every state that any number of orchestrators and workers can reach the events of each
  instance, signals aside, are numbered 1, 2, ..., n in the order they were recorded, and the
  version of each instance counts its events. No interleaving of processes, handlers, timers
  and goroutines breaks this, although a goroutine of one process may append long after it has
  read the instance, nor does the death or the restart of a process. Of what other clients commit
  between two statements of one handler it is assumed that they number their events as the engine
  does.
\<close>

theorem cluster_history_gap_free:
  assumes "cluster_run Es S A H getenv c c'" and "\<And>i. orderly (Es i)" and "\<And>i. reliable (Es i)"
    and "tight (fst c)" and "\<And>p. p \<in> set (snd c) \<Longrightarrow> jobs_of p = {}"
  shows "(\<forall>iid. \<exists>n. filter (\<lambda>k. k \<noteq> 0) (map hr_SequenceNum (filter (\<lambda>h. hr_Instance h = iid)
        (workflow_history (fst c')))) = map int [1..<Suc n]) \<and>
    (\<forall>r \<in> set (workflow_instances (fst c')).
       wi_Version r = int (length (filter (\<lambda>h. hr_Instance h = wi_ID r) (workflow_history (fst c')))))"
proof -
  have "cluster_safe c" using assms(4,5) by (simp add: cluster_safe_def)
  then have "tight (fst c')" using cluster_run_safe [OF assms(1,3,2)] by (simp add: cluster_safe_def)
  then show ?thesis unfolding tight_def events_of_def numbers_of_def one_to_def by blast
qed

theorem cluster_history_gap_free_witness:
  "\<exists>n. filter (\<lambda>k. k \<noteq> 0) (map hr_SequenceNum (filter (\<lambda>h. hr_Instance h = 7)
     (workflow_history (db delivered_world)))) = map int [1..<Suc n]"
proof -
  have "reliable calm_env" by (simp add: reliable_def)
  moreover have "jobs_of p = {}" if "p \<in> set [Orchestrator example_supervisor, Running_worker example_worker]" for p
    using that by (auto simp: example_supervisor_def example_worker_def new_worker_def)
  ultimately show ?thesis
    using cluster_history_gap_free [OF example_cluster_run calm_orderly [OF calm_env_calm]] example_tight
    by (metis fst_conv snd_conv)
qed

section \<open>Statements of other processes in between\<close>

lemma evolves_statements:
  "evolves True E d d' \<Longrightarrow> (\<And>n d. statements d (others E n d)) \<Longrightarrow> statements d0 d \<Longrightarrow> statements d0 d'"
  by (induction rule: evolves.induct) (auto simp: statements_def intro: rtranclp_trans rtranclp.rtrancl_into_rtrancl)

text \<open>
  C8. Processes may be interleaved statement by statement. Let what a process finds between any two of
  its statements be the work of any number of other processes of the program, each of them stopped
  after any of its statements: some sequence of the statements of the store, and nothing else is
  assumed of it. Then all that a cluster has committed after any run is again such a sequence. So what
  every process assumes of the others is what it does itself, and whatever each single statement keeps,
  every interleaving of whole processes keeps.
\<close>

theorem cluster_interleaves_statements:
  assumes "cluster_run Es S A H getenv c c'" and "\<And>i n d. statements d (others (Es i) n d)"
  shows "statements (fst c) (fst c') \<and>
    (\<forall>I. (\<forall>d d'. store_step True d d' \<longrightarrow> I d \<longrightarrow> I d') \<longrightarrow> I (fst c) \<longrightarrow> I (fst c')) \<and>
    (wf_db (fst c) \<longrightarrow> wf_db (fst c'))"
proof -
  have run: "statements (fst c) (fst c')"
    by (rule cluster_run_keeps [OF evolves_statements [OF _ assms(2)] assms(1)]) (simp_all add: statements_def)
  have "wf_db (fst c) \<Longrightarrow> wf_db (fst c')" by (rule statements_wf [OF run])
  with run statements_keep [OF run] show ?thesis by blast
qed

text \<open>Another process is busy: between any two statements it moves the example's instance to another phase.\<close>

definition busy_env :: "state environment" where
  "busy_env = calm_env\<lparr>others := \<lambda>n d. d\<lparr>workflow_instances :=
     sql_update (\<lambda>r. wi_ID r = 7) (phase_row (if even n then ''one'' else ''two'') 0) (workflow_instances d)\<rparr>\<rparr>"

theorem cluster_interleaves_statements_witness:
  "let d = db (snd (api_StartWorkflow busy_env identity_struct example_request example_supervisor))
   in phase_of 7 d = Some ''two'' \<and> statements example_db d \<and> wf_db d"
proof -
  let ?w = "snd (api_StartWorkflow busy_env identity_struct example_request example_supervisor)"
  have "sys_step busy_env identity_struct (example_supervisor\<lparr>db := example_db\<rparr>) ?w"
    by (simp add: example_supervisor_def sys_step.intros(7))
  then have "cluster_run (\<lambda>_. busy_env) identity_struct working_amqp working_host (\<lambda>_. [])
      (example_db, [Orchestrator example_supervisor]) (db ?w, [Orchestrator ?w])"
    using cluster_run.step [OF cluster_run.start
        cluster_step.orchestrator_steps [of 0 "[Orchestrator example_supervisor]"]] by fastforce
  moreover have "statements d (others busy_env n d)" for n d
    unfolding statements_def busy_env_def by (auto intro!: r_into_rtranclp store_step.phase)
  ultimately have "statements example_db (db ?w) \<and> wf_db (db ?w)"
    using cluster_interleaves_statements [of "\<lambda>_. busy_env"] example_wf by fastforce
  moreover have "phase_of 7 (db ?w) = Some ''two''" by code_simp
  ultimately show ?thesis by (simp add: Let_def)
qed

section \<open>A worker and its instance\<close>

lemma reg_Get_loads:
  assumes "calm E" and "reg_cache w i = None" and "latest_yaml i (db w) = Inr content"
    and "Parse (yaml E) content = Inr def"
  obtains w' where "reg_Get E i w = (Inr def, w')" and "db w' = db w" and "tick w' = tick w + 2"
  using assms(2-4) by (simp add: reg_Get_def reg_load_def db_query_calm [OF assms(1)] time_Now_def)

lemma started_worker_state:
  assumes "calm E" and "uuid_String E0 iid \<noteq> []" and "uuid_Parse E (uuid_String E0 iid) = Inr iid"
    and "def \<noteq> []" and "tenant \<noteq> []" and "latest_yaml def d = Inr content" and "Parse (yaml E) content = Inr wd"
  obtains v where "worker_process E working_amqp getenv (tl (worker_args E0 binary iid def tenant)) (new_worker d) = (Blocked, v)"
    and "goroutines v = [Job_executeWorkflow iid wd]" and "db v = d" and "tick v = 2"
proof -
  let ?w = "(open_handle DB_handle (new_worker d))\<lparr>reg_has_db := True, reg_cache := (\<lambda>_. None)\<rparr>"
  have w: "reg_cache ?w def = None" "latest_yaml def (db ?w) = Inr content" "tick ?w = 0" "goroutines ?w = []" "db ?w = d"
    using assms(6) by (simp_all add: open_handle_def new_worker_def)
  obtain w' where g: "reg_Get E def ?w = (Inr wd, w')" "db w' = db ?w" "tick w' = tick ?w + 2"
    by (rule reg_Get_loads [OF assms(1) w(1,2) assms(7)])
  have j: "goroutines w' = []" using reg_Get_jobs [OF g(1)] w(4) by simp
  define v where "v = go (Job_executeWorkflow iid wd)
    ((open_handle Channel_handle (open_handle Connection_handle w'))\<lparr>wk_shutdown := False\<rparr>)"
  have "worker_process E working_amqp getenv (tl (worker_args E0 binary iid def tenant)) (new_worker d) = (Blocked, v)"
    using g(1) assms(2-5)
    by (simp add: worker_process_def worker_main_args worker_New_def worker_Start_def working_amqp_def v_def Let_def)
  then show thesis using g(2,3) w j by (intro that [of v]) (simp_all add: v_def go_def open_handle_def)
qed

text \<open>
  C5. What the supervisor's command line starts is a worker of that instance: the worker finds the
  latest definition in the database, blocks in \<open>Start\<close>, and its goroutine brings the instance from
  its current phase to where the machine of the definition settles, with the outcome's effect on
  the shared database.
\<close>

theorem started_worker_runs_instance:
  assumes "calm (Es (length ps))" and "Orchestrator w \<in> set ps"
    and "worker_args E0 binary iid def tenant \<in> set (sup_commands w)"
    and "uuid_String E0 iid \<noteq> []" and "uuid_Parse (Es (length ps)) (uuid_String E0 iid) = Inr iid"
    and "def \<noteq> []" and "tenant \<noteq> []"
    and "latest_yaml def d = Inr content" and "Parse (yaml (Es (length ps))) content = Inr wd"
    and "readable d iid" and "phase_of iid d = Some ph"
    and "settles (float_oob (Es (length ps))) wd ph n ph' out" and "room_for (Es (length ps)) 2 n out d"
  shows "\<exists>d' v. cluster_run Es S working_amqp H getenv (d, ps) (d', ps @ [Running_worker v]) \<and>
    phase_of iid d' = Some ph' \<and> machine_effect (Es (length ps)) iid 2 out d d'"
proof -
  let ?E = "Es (length ps)"
  obtain v where v: "worker_process ?E working_amqp getenv (tl (worker_args E0 binary iid def tenant)) (new_worker d) = (Blocked, v)"
      "goroutines v = [Job_executeWorkflow iid wd]" "db v = d" "tick v = 2"
    by (rule started_worker_state [OF assms(1,4-9)])
  let ?v = "v\<lparr>goroutines := []\<rparr>"
  have "readable (db ?v) iid" "phase_of iid (db ?v) = Some ph" "room_for ?E (tick ?v) n out (db ?v)"
    using assms(10,11,13) v(3,4) by simp_all
  then obtain v' :: worker_world where v': "executeWorkflow ?E iid wd ?v = Some v'" "phase_of iid (db v') = Some ph'"
      "machine_effect ?E iid 2 out d (db v')"
    using run_settles [OF assms(1,12) refl, of ?v iid] v(3,4) by auto
  have 1: "cluster_step Es S working_amqp H getenv (d, ps) (d, ps @ [Running_worker v])"
    using cluster_step.worker_starts [where Es = Es, OF assms(2,3) v(1)] v(3) by simp
  have same: "v\<lparr>db := d\<rparr> = v" using v(3) by (cases v) simp
  have "worker_step ?E (v\<lparr>db := d\<rparr>) v'"
    using worker_step.goroutine [of v "[]" "Job_executeWorkflow iid wd" "[]"] v(2) v'(1)
    by (simp add: run_job_def same)
  then have 2: "cluster_step Es S working_amqp H getenv (d, ps @ [Running_worker v]) (db v', ps @ [Running_worker v'])"
    using cluster_step.worker_steps [of "length ps" "ps @ [Running_worker v]" v Es d v'] by simp
  from cluster_run.start 1 2 v'(2,3) show ?thesis by (blast intro: cluster_run.step)
qed

text \<open>An orchestrator has recovered the example's instance, whose definition now sets a timer first.\<close>

definition recovered_supervisor :: supervisor_world where
  "recovered_supervisor = example_supervisor\<lparr>sup_commands := [worker_args calm_env ''bin'' 7 ''wf'' ''t'']\<rparr>"

definition second_phase_db :: database where
  "second_phase_db = example_db\<lparr>workflow_instances := [phase_row ''two'' 3 example_instance]\<rparr>"

theorem started_worker_runs_instance_witness:
  "\<exists>d' v. cluster_run (\<lambda>_. calm_env) identity_struct working_amqp working_host (\<lambda>_. [])
     (second_phase_db, [Orchestrator recovered_supervisor]) (d', [Orchestrator recovered_supervisor, Running_worker v]) \<and>
     status_of 7 d' = Some ''COMPLETED''"
proof -
  have s: "settles (float_oob calm_env) example_definition ''two'' 0 ''two'' Completes"
    by (rule settles.stop) (simp add: entered_def example_states example_end_def)
  have d: "readable second_phase_db 7" "phase_of 7 second_phase_db = Some ''two''" "latest_yaml ''wf'' second_phase_db = Inr ''wf''"
    by (simp_all add: second_phase_db_def readable_def example_defs instance_at_def scanInstance_def scan_event_def
        json_Unmarshal_def phase_of_def row_defs latest_yaml_def order_by_desc_def first_row_def)
  have p: "Parse (yaml calm_env) ''wf'' = Inr example_definition" by (simp add: example_parse)
  have "room_for calm_env 2 0 Completes second_phase_db" by (simp add: room_for_def)
  with started_worker_runs_instance [where Es = "\<lambda>_. calm_env" and ps = "[Orchestrator recovered_supervisor]",
      OF calm_env_calm _ _ _ _ _ _ d(3) p d(1,2) s, of recovered_supervisor calm_env "''bin''" "''t''" identity_struct
      working_host "\<lambda>_. []"]
  show ?thesis by (fastforce simp: recovered_supervisor_def machine_effect_def)
qed

end
