(* ===== verification/Spec2Isabelle.thy ===== *)
theory Spec2Isabelle
  imports Server_Properties Event_Properties Task_Properties Engine_Properties Advance_Properties
    Resume_Properties Progress_Properties Definition_Properties Supervisor_Properties Process_Properties
    History_Properties Machine_Properties Delivery_Properties Cluster_Properties
begin

text \<open>
  AWM, the Autocondat workflow manager: a verification library for the Go sources.

  \<^bold>\<open>The program.\<close> A PostgreSQL database holds workflow definitions, instances, an event history,
  timers, tasks and an audit log. The orchestrator process (\<^verbatim>\<open>cmd/awm-orchestrator\<close>) serves two gRPC
  services (\<^verbatim>\<open>internal/api\<close>), runs a timer service (\<^verbatim>\<open>internal/timer\<close>) and a supervisor
  (\<^verbatim>\<open>internal/supervisor\<close>) that starts one worker process (\<^verbatim>\<open>cmd/awm-worker\<close>, \<^verbatim>\<open>internal/worker\<close>)
  per instance. Orchestrator and workers each have an engine (\<^verbatim>\<open>internal/runtime\<close>) that moves
  instances through the states of their definition; agents claim tasks and report results through
  the orchestrator. Everything the parts share is in the database (\<^verbatim>\<open>internal/store\<close>).

  \<^bold>\<open>The model.\<close> A \<open>database\<close> is a record of tables, a table the list of its rows. A \<open>world\<close> is the
  database, a counter of interactions and what was published; \<open>registry_world\<close>, \<open>engine_world\<close>,
  \<open>supervisor_world\<close> and \<open>worker_world\<close> extend it with the state the components keep in memory.
  An operation maps the world to a result, \<open>Inl\<close> the error or \<open>Inr\<close> the value, and the new world.
  What a process cannot determine is a parameter, \<open>environment\<close>: whether a statement fails, whether its
  answer arrives (without it the program sees an error although the statement took effect), whether a
  result set breaks off while its rows are read, what the other clients of the database commit before
  a statement, the clock and the precision of stored times, random UUIDs, sessions, process ids, and
  the third-party functions (\<^verbatim>\<open>yaml.v3\<close>, \<^verbatim>\<open>google/uuid\<close>, \<^verbatim>\<open>structpb\<close>, the AMQP client). A goroutine is a job in a list of the state. Nothing
  is assumed of the environment except where a theorem says so: \<open>calm\<close> (no statement fails, no answer
  is lost or cut short and nobody else commits), \<open>rely\<close> (the other clients keep an invariant), \<open>orderly\<close>
  (results are complete and the other clients number their events as the engine does), \<open>reliable\<close> (no
  statement fails and no answer is lost), \<open>complete_rows\<close> (no result is cut short). What other
  processes of the program commit between two statements is a sequence of their statements,
  \<open>statements\<close>, and any interleaving of whole processes is one again (\<open>cluster_interleaves_statements\<close>).

  \<^bold>\<open>Theories and sources.\<close>
  \<^item> \<open>Awm_Prelude\<close>: errors, the SQL combinators, the locale \<open>key_update\<close>, growth of lists.
  \<^item> \<open>Go_Float\<close>, \<open>Go_Json\<close>: doubles and \<^verbatim>\<open>encoding/json\<close> of \<^verbatim>\<open>map[string]interface{}\<close>.
  \<^item> \<open>Workflow_Model\<close>, \<open>Workflow_Parser\<close>: \<^verbatim>\<open>internal/model/definition.go\<close>, \<^verbatim>\<open>internal/parser/parser.go\<close>.
  \<^item> \<open>Store_Types\<close>, \<open>Store_Events\<close>, \<open>Store_Tasks\<close>: \<^verbatim>\<open>internal/store/store.go\<close>, \<^verbatim>\<open>postgres.go\<close>.
    \<open>Store_Interface\<close>: the interface \<open>Store\<close> as a record of its methods, \<open>PostgresStore\<close> as an
    interpretation of the locale \<open>store_contract\<close>.
  \<^item> \<open>Definition_Registry\<close>: the definition table and \<^verbatim>\<open>internal/runtime/definition_registry.go\<close>.
  \<^item> \<open>Engine\<close>, \<open>Timer_Service\<close>: \<^verbatim>\<open>internal/runtime/engine.go\<close>, \<^verbatim>\<open>internal/timer/service.go\<close>.
  \<^item> \<open>Supervisor\<close>, \<open>Worker\<close>: \<^verbatim>\<open>internal/supervisor/supervisor.go\<close>, \<^verbatim>\<open>internal/worker/worker.go\<close> and
    \<^verbatim>\<open>cmd/awm-worker/main.go\<close>.
  \<^item> \<open>Proto\<close>, \<open>Public_Server\<close>, \<open>Orchestrator_Server\<close>: the messages of \<^verbatim>\<open>internal/proto\<close> and the
    handlers of \<^verbatim>\<open>internal/api\<close>.
  \<^item> \<open>Orchestrator_Main\<close>: \<^verbatim>\<open>cmd/awm-orchestrator/main.go\<close>.
  \<^item> \<open>Store_Steps\<close>, \<open>Db_Invariants\<close>, \<open>Engine_Steps\<close>, \<open>System\<close>: the statements as steps of the
    database, the locale \<open>db_invariant\<close> with its interpretations \<open>wf\<close>, \<open>statuses\<close> and
    \<open>extends\<close>, and the step relation of the whole process with its reachable states.
  \<^item> \<open>Event_Numbering\<close>, \<open>Engine_Numbering\<close>, \<open>Goroutines\<close>, \<open>System_Numbering\<close>: how the events of an
    instance are numbered. \<open>tight\<close> is a history without gaps, \<open>seen\<close> what an engine knows of an
    instance it has read, \<open>follows\<close> (another interpretation of \<open>db_invariant\<close>) what every commit
    keeps of both, \<open>safe\<close> the invariant of the process with its goroutines.
  \<^item> \<open>Cluster\<close>: any number of orchestrators and workers over one database. A step is a step of one
    process on the shared database, the start of an orchestrator, the start of a worker on a command
    line a supervisor has issued, or the death of a process; each process has its environment.
  \<^item> \<open>Workflow_Machine\<close>: the states of a definition as an abstract machine, \<open>settles\<close> and \<open>moves_on\<close>,
    with what its outcomes mean for the tables, and the rounds of the engine as its steps.
  \<^item> \<open>Example_Environment\<close> and the theories named \<open>_Properties\<close>: the properties, each with a
    concrete instance where it has hypotheses.

  \<^bold>\<open>What is shown.\<close> Every operation decomposes into atomic statements, and a statement is one of a
  few \<open>store_step\<close>s; a property of the database that these keep is kept by every handler, timer,
  goroutine, message and worker exit of every process of a cluster, under all failures and
  interference (\<open>Cluster_Properties\<close>; for one process \<open>Server_Properties\<close>). Without failing statements
  and lost or cut answers the history of every instance has no gaps, whatever processes interleave; after a
  lost event a run through states with at most one action records nothing more, and a history read
  in part loses the next event (\<open>History_Properties\<close>). A worker
  that a supervisor has started runs its instance (\<open>Cluster_Properties\<close>).
  The engine refines the machine of the definition: a run ends in the state and with the outcome
  where the machine settles, with exactly that outcome's tasks, timer or status; it returns if and
  only if the machine settles; the last finished task moves the instance as the machine moves on
  (\<open>Machine_Properties\<close>).
  A watch of a task reports its audit log entry by entry. The optimistic
  lock excludes concurrent appends, an append is done completely or not at all, also when the answer to
  its commit is lost, and is read back, and no client of the \<open>Store\<close> interface breaks the database
  (\<open>Event_Properties\<close>). The task operations refine an abstract life cycle, claims are exclusive, and the pair of claim and
  release satisfies the locale \<open>task_pool\<close> (\<open>Task_Properties\<close>); a poll hands out the oldest task that
  fits (\<open>Progress_Properties\<close>); a task that cannot be sent is stranded, one that is sent comes without
  its deadline, and one whose claim is not answered is held all the same (\<open>Delivery_Properties\<close>).
  The engine creates the tasks a state asks for, terminates when the states without actions do not
  form a cycle and circles for ever when they do, and completes instances at end states
  (\<open>Engine_Properties\<close>, \<open>Advance_Properties\<close>); timers and
  submitted results move instances (\<open>Resume_Properties\<close>), and a delay ends at the first poll after it is
  over (\<open>Progress_Properties\<close>). Parsing, durations, the cache, and
  what is left of a definition that was created, are in
  \<open>Definition_Properties\<close>; the supervisor and the answers of the worker to task messages in
  \<open>Supervisor_Properties\<close>; the recovery of workers, and the worker of a deployed workflow, in
  \<open>Process_Properties\<close>.

  \<^bold>\<open>Loops.\<close> \<open>executeWorkflow\<close> is a \<open>partial_function (option)\<close>: \<open>None\<close> is a run that never ends, and
  \<open>execute_terminates\<close> and \<open>execute_diverges\<close> say when it is which. No model uses fuel. The
  loops that wait for input (the streams, the timer service, the consumer) run over a finite
  sequence of inputs; a waiting loop is the end of the sequence.

  \<^bold>\<open>Bounds of the model.\<close> A process that dies in the middle of a handler is one whose remaining
  statements fail; a worker may be started more than once on a command line. A value that its
  column does not take (a string longer than its \<^verbatim>\<open>VARCHAR\<close>, a NUL character) is a statement that
  fails. Sequence numbers and versions are unbounded
  integers: an \<open>int64\<close> counter that grows by one does not overflow in practice. Case folding in
  \<open>ILIKE\<close> is ASCII. SQL leaves the order of rows open where \<open>ORDER BY\<close> has ties or is missing; the
  model keeps the order of insertion there. \<open>sup_workers\<close> lists the entries of a Go map in one of the
  orders an iteration may have. Enumerations of the protocol have their named values only.

  \<^bold>\<open>Not modelled.\<close> Logging; the transport and dispatch of gRPC and HTTP (generated stubs and third-party
  code); signals to a worker (one before \<open>signal.Notify\<close> ends it, a later one only cancels a context, so a
  worker in \<open>Start\<close> goes on); reflection and accessors of the generated messages; the migrations as programs; the
  mutex and the wait group of \<open>Engine\<close>, which nothing locks.
\<close>

end
